theory Spec2Isabelle
  imports Main "HOL-Library.Sublist"
begin

section \<open>Values, errors and the host runtime\<close>

text \<open>
  The library \<^verbatim>\<open>@cldmv/wisp\<close> consists of two modules: the caller-aware resolver
  \<^verbatim>\<open>src/lib/resolve-from-caller.mjs\<close> and the tiered loader \<^verbatim>\<open>src/wisp.mjs\<close>.
  Both are embedded here function by function. Everything they obtain from Node.js
  (path arithmetic, URL parsing, the filesystem, the JSON grammar, the module loader, the
  V8 stack) is a field of the record \<open>host\<close>; everything they can change is a field of
  the record \<open>world\<close>.
\<close>

text \<open>
  A value as \<^verbatim>\<open>JSON.parse\<close> builds it. Besides the numbers written \<open>JNum\<close> the parser
  produces \<^verbatim>\<open>-0\<close> (from the text \<^verbatim>\<open>-0\<close>) and the two infinities (from a literal beyond
  the range of a double, such as \<^verbatim>\<open>1e400\<close>); \<^verbatim>\<open>JSON.stringify\<close> writes neither back
  (\<^verbatim>\<open>0\<close> and \<^verbatim>\<open>null\<close>), so they are constructors of their own: \<open>JNegZero\<close> and
  \<open>JInfinity\<close> (\<open>True\<close> for the positive one).
\<close>

datatype json =
    JNull
  | JBool bool
  | JNum int
  | JNegZero
  | JInfinity bool
  | JStr string
  | JArr "json list"
  | JObj "(string \<times> json) list"

text \<open>A JavaScript exception: the constructor that made it and its \<^verbatim>\<open>message\<close>.\<close>

datatype kind = TypeErr | PlainErr | SyntaxErr | SystemErr | CloneErr | RangeErr

datatype err = Err kind string

fun message :: "err \<Rightarrow> string" where
  "message (Err k m) = m"

text \<open>
  An argument as JavaScript passes it: the resolver's \<^verbatim>\<open>rel\<close> is declared a string but
  nothing stops a caller from passing something else. \<open>VStrObj s\<close> is the wrapper object
  \<^verbatim>\<open>new String(s)\<close>, which inherits \<^verbatim>\<open>startsWith\<close> from \<^verbatim>\<open>String.prototype\<close>. \<open>VObj m u\<close>
  is any other object: \<open>m\<close> is its \<^verbatim>\<open>startsWith\<close> property (absent, present but not a
  function, or a function, given by what a call of it does: it returns a value, of which
  the truth value is kept, or it throws), and \<open>u\<close> is its \<^verbatim>\<open>href\<close> when the object is a
  \<^verbatim>\<open>URL\<close>. Booleans and numbers have no \<^verbatim>\<open>startsWith\<close>.
\<close>

datatype member = Absent | NotCallable | Returns bool | Raises err

datatype jsval =
    VUndefined
  | VNull
  | VBool bool
  | VNum int
  | VStr string
  | VStrObj string
  | VObj member "string option"

text \<open>The loader's \<^verbatim>\<open>input\<close>, \<^verbatim>\<open>base\<close> and \<^verbatim>\<open>fallback\<close>: \<^verbatim>\<open>string | URL\<close>.\<close>

datatype reference = RStr string | RUrl string

text \<open>
  What a load returns: a reference to a heap cell holding a JSON tree, or the module
  namespace object of the module at a location (an exotic object owned by the module
  registry).
\<close>

type_synonym addr = nat

datatype jsref = Cell addr | Mod string

text \<open>
  What \<^verbatim>\<open>JSON.parse(text, reviver)\<close> returns is what the reviver returned for the root
  key: a structure built during the call (\<open>Built\<close>), or an object the reviver holds
  from elsewhere and handed back (\<open>Kept\<close>, the cell of that object). A reviver is
  represented by what the walk of \<^verbatim>\<open>JSON.parse\<close> computes with it from the text and the
  parsed tree: the walk hands it every key and value, and in current engines the source
  text of every primitive value. \<open>Inl\<close> is the message of the exception it throws.
\<close>

datatype revived = Built json | Kept addr

type_synonym reviver_fn = "string \<Rightarrow> json \<Rightarrow> string + revived"

text \<open>
  A module of the registry: the cell of its default export (\<open>None\<close> when the module
  has none, or exports \<^verbatim>\<open>undefined\<close>) and its other exports. A JSON module has the
  default export only.
\<close>

datatype module = Module (default_export: "addr option") (named_exports: "(string \<times> json) list")

text \<open>How the runtime treats the target of a dynamic import.\<close>

datatype format = JsonFormat | ScriptFormat

text \<open>The functions passed to \<^verbatim>\<open>getStack\<close> as \<^verbatim>\<open>skipFn\<close>.\<close>

datatype fn = PickPrimaryBaseFile | PickFallbackBaseFile

text \<open>The value of \<^verbatim>\<open>Error.prepareStackTrace\<close>.\<close>

datatype hook = Unset | UserHook nat | RawCallSites

datatype event =
    StackSampled
  | ExistsChecked string
  | RawRead string
  | ImportTried bool string

text \<open>A call site, reduced to what \<^verbatim>\<open>cs?.getFileName?.()\<close> yields.\<close>

type_synonym frame = "string option"

record host =
  sep :: char
  isAbsolute :: "string \<Rightarrow> bool"
  dirname :: "string \<Rightarrow> string"
  path_resolve :: "string \<Rightarrow> string \<Rightarrow> string"
  path_relative :: "string \<Rightarrow> string \<Rightarrow> string"
  fileURLToPath :: "string \<Rightarrow> string option"
  pathToFileURL :: "string \<Rightarrow> string"
  new_URL :: "string \<Rightarrow> string option"
  new_URL_base :: "string \<Rightarrow> string \<Rightarrow> string option"
  existsSync :: "string \<Rightarrow> bool"
  readFile :: "string \<Rightarrow> string + string"
  json_text :: "string \<Rightarrow> string + json"
  JSON_stringify :: "json \<Rightarrow> string"
  has_structuredClone :: bool
  module_format :: "bool \<Rightarrow> string \<Rightarrow> string \<Rightarrow> err + format"
  evaluate :: "string \<Rightarrow> err + json option \<times> (string \<times> json) list"
  call_stack :: "fn option \<Rightarrow> err + frame list option"
  THIS_FILE :: string
  PACKAGE_ROOT :: "string option"

text \<open>
  \<open>fileURLToPath\<close>, \<open>new_URL\<close> and \<open>new_URL_base\<close> return \<open>None\<close> where Node throws a
  \<^verbatim>\<open>TypeError\<close>. \<open>readFile\<close> is keyed by the \<^verbatim>\<open>href\<close> of the URL handed to
  \<^verbatim>\<open>fs.readFile\<close> and \<^verbatim>\<open>fs.readFileSync\<close>; \<open>Inl\<close> is the message of the exception.
  \<open>json_text\<close> is the JSON grammar, \<^verbatim>\<open>JSON.parse\<close> of a text with no reviver; \<open>Inl\<close> is
  the message of the \<^verbatim>\<open>SyntaxError\<close>. \<open>module_format h modern href t\<close> is what the
  runtime decides for \<^verbatim>\<open>import(href, { with: { type: t } })\<close> (\<open>modern\<close>) or
  \<^verbatim>\<open>import(href, { assert: { type: t } })\<close>: it loads the target as a JSON module, or as
  a JavaScript module (a runtime that does not know the key ignores it, and the import
  is then a plain one), or it rejects the request. \<open>evaluate\<close> is what evaluating the
  JavaScript module at a location exports: the default export and the others.
  \<open>call_stack\<close> is what \<^verbatim>\<open>e.stack\<close> holds while the raw call-site hook is installed
  (\<open>Inr None\<close>: a falsy \<^verbatim>\<open>e.stack\<close>), or the exception thrown while the error object is
  built. \<open>THIS_FILE\<close> and \<open>PACKAGE_ROOT\<close> are the module-level constants of the
  resolver, computed once when it is loaded.
\<close>

record world =
  heap :: "json list"
  modules :: "string \<Rightarrow> module option"
  prepareStackTrace :: hook
  trace :: "event list"

text \<open>
  \<open>heap\<close> holds every JSON tree that is reachable through a reference, \<open>modules\<close> is
  the module registry of the runtime, \<open>trace\<close> records the observable effects, newest
  first.
\<close>

type_synonym 'a comp = "world \<Rightarrow> (err + 'a) \<times> world"

definition andThen :: "'a comp \<Rightarrow> ('a \<Rightarrow> 'b comp) \<Rightarrow> 'b comp" where
  "andThen m f w = (case m w of (Inl e, w') \<Rightarrow> (Inl e, w') | (Inr x, w') \<Rightarrow> f x w')"

definition ret :: "'a \<Rightarrow> 'a comp" where
  "ret x w = (Inr x, w)"

definition throw :: "err \<Rightarrow> 'a comp" where
  "throw e w = (Inl e, w)"

definition try_finally :: "'a comp \<Rightarrow> (world \<Rightarrow> world) \<Rightarrow> 'a comp" where
  "try_finally body fin w = (case body w of (r, w') \<Rightarrow> (r, fin w'))"

definition emit :: "event \<Rightarrow> world \<Rightarrow> world" where
  "emit ev w = w\<lparr>trace := ev # trace w\<rparr>"

definition cell :: "world \<Rightarrow> addr \<Rightarrow> json option" where
  "cell w a = (if a < length (heap w) then Some (heap w ! a) else None)"

definition alloc :: "json \<Rightarrow> world \<Rightarrow> addr \<times> world" where
  "alloc j w = (length (heap w), w\<lparr>heap := heap w @ [j]\<rparr>)"

text \<open>An assignment through a reference held by a caller: the cell's tree is replaced.\<close>

definition mutate :: "addr \<Rightarrow> json \<Rightarrow> world \<Rightarrow> world" where
  "mutate a j w = w\<lparr>heap := (heap w)[a := j]\<rparr>"

definition samplings :: "world \<Rightarrow> nat" where
  "samplings w = length (filter (\<lambda>ev. ev = StackSampled) (trace w))"

fun exists_checks :: "event list \<Rightarrow> string list" where
  "exists_checks [] = []"
| "exists_checks (ExistsChecked p # evs) = p # exists_checks evs"
| "exists_checks (ev # evs) = exists_checks evs"

fun raw_reads :: "event list \<Rightarrow> string list" where
  "raw_reads [] = []"
| "raw_reads (RawRead u # evs) = u # raw_reads evs"
| "raw_reads (ev # evs) = raw_reads evs"

section \<open>The resolver: \<^verbatim>\<open>src/lib/resolve-from-caller.mjs\<close>\<close>

text \<open>\<^verbatim>\<open>toFsPath\<close>: a falsy value gives \<^verbatim>\<open>null\<close>, a \<^verbatim>\<open>file://\<close> string is converted.\<close>

definition toFsPath :: "host \<Rightarrow> string option \<Rightarrow> err + string option" where
  "toFsPath h v =
     (case v of
        None \<Rightarrow> Inr None
      | Some s \<Rightarrow>
          if s = [] then Inr None
          else if prefix ''file://'' s then
            (case fileURLToPath h s of
               None \<Rightarrow> Inl (Err TypeErr ''The URL must be a valid file URL'')
             | Some p \<Rightarrow> Inr (Some p))
          else Inr (Some s))"

text \<open>
  \<^verbatim>\<open>getStack\<close>: the hook is saved, overridden inside \<^verbatim>\<open>try\<close>, and put back in
  \<^verbatim>\<open>finally\<close>.
\<close>

definition getStack :: "host \<Rightarrow> fn option \<Rightarrow> frame list comp" where
  "getStack h skipFn w =
     (let orig = prepareStackTrace w in
      try_finally
        (\<lambda>w1. let w2 = emit StackSampled (w1\<lparr>prepareStackTrace := RawCallSites\<rparr>) in
           (case call_stack h skipFn of
              Inl e \<Rightarrow> (Inl e, w2)
            | Inr None \<Rightarrow> (Inr [], w2)
            | Inr (Some s) \<Rightarrow> (Inr s, w2)))
        (\<lambda>w3. w3\<lparr>prepareStackTrace := orig\<rparr>)
        w)"

text \<open>\<^verbatim>\<open>"a/b".split("/")\<close> for a one-character separator.\<close>

fun split_on :: "char \<Rightarrow> string \<Rightarrow> string list" where
  "split_on c [] = [[]]"
| "split_on c (x # xs) =
     (if x = c then [] # split_on c xs
      else (case split_on c xs of [] \<Rightarrow> [[x]] | s # ss \<Rightarrow> (x # s) # ss))"

text \<open>
  Lines 195 to 208: the two booleans of a frame. \<open>segments\<close> is
  \<^verbatim>\<open>path.relative(PACKAGE_ROOT, f).split(path.sep)\<close>, defined only for a file below the
  package root.
\<close>

definition segments :: "host \<Rightarrow> string \<Rightarrow> string list option" where
  "segments h f =
     (case PACKAGE_ROOT h of
        None \<Rightarrow> None
      | Some root \<Rightarrow>
          if root \<noteq> [] \<and> prefix (root @ [sep h]) f
          then Some (split_on (sep h) (path_relative h root f))
          else None)"

definition currentIsInSrcOrDist :: "host \<Rightarrow> string \<Rightarrow> bool" where
  "currentIsInSrcOrDist h f =
     (case segments h f of
        None \<Rightarrow> False
      | Some segs \<Rightarrow> (case segs of [] \<Rightarrow> False | s # _ \<Rightarrow> s = ''src'' \<or> s = ''dist''))"

definition currentIsIndex :: "host \<Rightarrow> string \<Rightarrow> bool" where
  "currentIsIndex h f =
     (case segments h f of
        None \<Rightarrow> False
      | Some segs \<Rightarrow>
          length segs = 1 \<and>
          (case segs of
             [] \<Rightarrow> False
           | s # _ \<Rightarrow> s \<in> set [''index.mjs'', ''index.cjs'', ''index.js'', ''index.ts'']))"

record flags =
  exitedSrcOrDist :: bool
  exitedIndex :: bool
  previousWasInSrcOrDist :: bool
  previousWasIndex :: bool

definition initial_flags :: flags where
  "initial_flags =
     \<lparr>exitedSrcOrDist = False, exitedIndex = False,
      previousWasInSrcOrDist = False, previousWasIndex = False\<rparr>"

text \<open>The loop of \<^verbatim>\<open>pickPrimaryBaseFile\<close> over the sampled frames, lines 189 to 229.\<close>

fun scan_primary :: "host \<Rightarrow> flags \<Rightarrow> frame list \<Rightarrow> err + string option" where
  "scan_primary h st [] = Inr None"
| "scan_primary h st (cs # rest) =
     (case toFsPath h cs of
        Inl e \<Rightarrow> Inl e
      | Inr None \<Rightarrow> scan_primary h st rest
      | Inr (Some f) \<Rightarrow>
          if f = [] then scan_primary h st rest
          else if prefix ''node:internal'' f then scan_primary h st rest
          else if f = THIS_FILE h then scan_primary h st rest
          else
            (let inSrc = currentIsInSrcOrDist h f;
                 isIndex = currentIsIndex h f;
                 st1 = (if previousWasInSrcOrDist st \<and> \<not> inSrc
                        then st\<lparr>exitedSrcOrDist := True\<rparr> else st);
                 st2 = (if previousWasIndex st1 \<and> \<not> isIndex
                        then st1\<lparr>exitedIndex := True\<rparr> else st1)
             in if exitedSrcOrDist st2 then Inr (Some f)
                else scan_primary h
                       (st2\<lparr>previousWasInSrcOrDist := inSrc, previousWasIndex := isIndex\<rparr>)
                       rest))"

definition pickPrimaryBaseFile :: "host \<Rightarrow> string option comp" where
  "pickPrimaryBaseFile h =
     andThen (getStack h (Some PickPrimaryBaseFile))
       (\<lambda>frames w. (scan_primary h initial_flags frames, w))"

fun scan_fallback :: "host \<Rightarrow> frame list \<Rightarrow> err + string" where
  "scan_fallback h [] = Inr (THIS_FILE h)"
| "scan_fallback h (cs # rest) =
     (case toFsPath h cs of
        Inl e \<Rightarrow> Inl e
      | Inr None \<Rightarrow> scan_fallback h rest
      | Inr (Some f) \<Rightarrow>
          if f = [] then scan_fallback h rest
          else if prefix ''node:internal'' f then scan_fallback h rest
          else if f = THIS_FILE h then scan_fallback h rest
          else Inr f)"

definition pickFallbackBaseFile :: "host \<Rightarrow> string comp" where
  "pickFallbackBaseFile h =
     andThen (getStack h (Some PickFallbackBaseFile))
       (\<lambda>frames w. (scan_fallback h frames, w))"

text \<open>
  \<^verbatim>\<open>resolveWith\<close>. The three callbacks are parameters, as in the source;
  \<^verbatim>\<open>pickPrimaryBaseFile() ?? pickFallbackBaseFile()\<close> samples a second time only when the
  first selector returned \<^verbatim>\<open>null\<close>. \<^verbatim>\<open>typeof rel !== "string"\<close> holds of everything but a
  primitive string, the wrapper object included.
\<close>

definition resolveWith ::
  "host \<Rightarrow> jsval \<Rightarrow> (string \<Rightarrow> string \<Rightarrow> err + string) \<Rightarrow> (string \<Rightarrow> bool comp) \<Rightarrow>
   (string \<Rightarrow> string \<Rightarrow> err + string) \<Rightarrow> string comp" where
  "resolveWith h rel makePrimary exists makeFallback =
     (case rel of
        VStr r \<Rightarrow>
          andThen (pickPrimaryBaseFile h) (\<lambda>p.
          andThen (case p of Some b \<Rightarrow> ret b | None \<Rightarrow> pickFallbackBaseFile h) (\<lambda>primaryBase.
          andThen (\<lambda>w. (makePrimary primaryBase r, w)) (\<lambda>primary.
          andThen (exists primary) (\<lambda>found.
            if found then ret primary
            else
              andThen (pickFallbackBaseFile h) (\<lambda>fbBase w. (makeFallback fbBase r, w))))))
      | _ \<Rightarrow> throw (Err TypeErr ''rel must be a string''))"

text \<open>
  \<^verbatim>\<open>rel.startsWith?.("file://")\<close>, as a truth value. Reading a property of \<^verbatim>\<open>undefined\<close>
  or \<^verbatim>\<open>null\<close> throws a \<^verbatim>\<open>TypeError\<close>; where the property is absent the optional call
  yields \<^verbatim>\<open>undefined\<close>; a property that is not a function cannot be called; a string and
  its wrapper object answer the question; any other function returns or throws what it
  likes.
\<close>

definition startsWith_file :: "jsval \<Rightarrow> err + bool" where
  "startsWith_file rel =
     (case rel of
        VUndefined \<Rightarrow> Inl (Err TypeErr ''Cannot read properties of undefined (reading startsWith)'')
      | VNull \<Rightarrow> Inl (Err TypeErr ''Cannot read properties of null (reading startsWith)'')
      | VStr s \<Rightarrow> Inr (prefix ''file://'' s)
      | VStrObj s \<Rightarrow> Inr (prefix ''file://'' s)
      | VObj m u \<Rightarrow>
          (case m of
             Absent \<Rightarrow> Inr False
           | NotCallable \<Rightarrow> Inl (Err TypeErr ''rel.startsWith is not a function'')
           | Returns b \<Rightarrow> Inr b
           | Raises e \<Rightarrow> Inl e)
      | _ \<Rightarrow> Inr False)"

text \<open>
  \<^verbatim>\<open>path.isAbsolute\<close> validates its argument: Node throws a \<^verbatim>\<open>TypeError\<close>
  (\<^verbatim>\<open>ERR_INVALID_ARG_TYPE\<close>) for anything that is not a primitive string.
\<close>

definition path_isAbsolute :: "host \<Rightarrow> jsval \<Rightarrow> err + bool" where
  "path_isAbsolute h rel =
     (case rel of
        VStr s \<Rightarrow> Inr (isAbsolute h s)
      | _ \<Rightarrow> Inl (Err TypeErr ''The path argument must be of type string''))"

definition lift_option :: "string \<Rightarrow> string option \<Rightarrow> err + string" where
  "lift_option msg r = (case r of None \<Rightarrow> Inl (Err TypeErr msg) | Some x \<Rightarrow> Inr x)"

text \<open>
  \<^verbatim>\<open>fileURLToPath(rel)\<close> of line 379, applied to whatever \<^verbatim>\<open>rel\<close> is: Node converts a
  string and a \<^verbatim>\<open>URL\<close>, and throws a \<^verbatim>\<open>TypeError\<close> for everything else.
\<close>

definition fileURLToPath_of :: "host \<Rightarrow> jsval \<Rightarrow> err + string" where
  "fileURLToPath_of h rel =
     (case rel of
        VStr s \<Rightarrow> lift_option ''The URL must be a valid file URL'' (fileURLToPath h s)
      | VObj m (Some u) \<Rightarrow> lift_option ''The URL must be a valid file URL'' (fileURLToPath h u)
      | _ \<Rightarrow> Inl (Err TypeErr ''The path argument must be of type string or an instance of URL''))"

definition exists_path :: "host \<Rightarrow> string \<Rightarrow> bool comp" where
  "exists_path h candidate w = (Inr (existsSync h candidate), emit (ExistsChecked candidate) w)"

definition exists_url :: "host \<Rightarrow> string \<Rightarrow> bool comp" where
  "exists_url h href =
     (case fileURLToPath h href of
        None \<Rightarrow> throw (Err TypeErr ''The URL must be a valid file URL'')
      | Some p \<Rightarrow> exists_path h p)"

definition make_path :: "host \<Rightarrow> string \<Rightarrow> string \<Rightarrow> err + string" where
  "make_path h baseFile r = Inr (path_resolve h (dirname h baseFile) r)"

definition make_url :: "host \<Rightarrow> string \<Rightarrow> string \<Rightarrow> err + string" where
  "make_url h baseFile r = lift_option ''Invalid URL'' (new_URL_base h r (pathToFileURL h baseFile))"

text \<open>
  The two public wrappers. \<^verbatim>\<open>resolvePathFromCaller\<close> always returns a string.
  \<^verbatim>\<open>resolveUrlFromCaller\<close> returns \<^verbatim>\<open>rel\<close> itself at line 441, whatever \<^verbatim>\<open>rel\<close> is, so
  its result is a value. \<^verbatim>\<open>path.isAbsolute\<close> is true of strings only, so the branch
  that needs a string there has one.
\<close>

definition resolvePathFromCaller :: "host \<Rightarrow> jsval \<Rightarrow> string comp" where
  "resolvePathFromCaller h rel =
     andThen (\<lambda>w. (startsWith_file rel, w)) (\<lambda>isUrl.
       if isUrl then (\<lambda>w. (fileURLToPath_of h rel, w))
       else
         andThen (\<lambda>w. (path_isAbsolute h rel, w)) (\<lambda>abs.
           if abs then
             (case rel of
                VStr s \<Rightarrow> ret s
              | _ \<Rightarrow> throw (Err TypeErr ''The path argument must be of type string''))
           else resolveWith h rel (make_path h) (exists_path h) (make_path h)))"

definition resolveUrlFromCaller :: "host \<Rightarrow> jsval \<Rightarrow> jsval comp" where
  "resolveUrlFromCaller h rel =
     andThen (\<lambda>w. (startsWith_file rel, w)) (\<lambda>isUrl.
       if isUrl then ret rel
       else
         andThen (\<lambda>w. (path_isAbsolute h rel, w)) (\<lambda>abs.
           if abs then
             (case rel of
                VStr s \<Rightarrow> ret (VStr (pathToFileURL h s))
              | _ \<Rightarrow> throw (Err TypeErr ''The path argument must be of type string''))
           else
             andThen (resolveWith h rel (make_url h) (exists_url h) (make_url h))
               (\<lambda>href. ret (VStr href))))"

section \<open>The loader: \<^verbatim>\<open>src/wisp.mjs\<close>\<close>

record options =
  base :: "reference option"
  validate :: "(json \<Rightarrow> string option) option"
  reviver :: "reviver_fn option"
  type :: "string option"
  fallback :: "reference option"

text \<open>
  A field that is \<open>None\<close> is \<^verbatim>\<open>undefined\<close>. \<open>validate\<close> returns the message of the
  exception it throws, or \<open>None\<close> when it returns normally. The destructuring
  \<^verbatim>\<open>type = "json"\<close> supplies the default.
\<close>

definition the_type :: "options \<Rightarrow> string" where
  "the_type opts = (case type opts of None \<Rightarrow> ''json'' | Some t \<Rightarrow> t)"

text \<open>\<^verbatim>\<open>if (base)\<close>, \<^verbatim>\<open>if (fallback)\<close>: the empty string is falsy, a URL object is not.\<close>

fun truthy :: "reference \<Rightarrow> bool" where
  "truthy (RStr s) = (s \<noteq> [])"
| "truthy (RUrl u) = True"

fun ref_text :: "reference \<Rightarrow> string" where
  "ref_text (RStr s) = s"
| "ref_text (RUrl u) = u"

text \<open>\<^verbatim>\<open>new URL(s, new URL(base))\<close>: either constructor may throw.\<close>

definition url_from_base :: "host \<Rightarrow> string \<Rightarrow> reference \<Rightarrow> err + string" where
  "url_from_base h s b =
     (case new_URL h (ref_text b) of
        None \<Rightarrow> Inl (Err TypeErr ''Invalid URL'')
      | Some bh \<Rightarrow> lift_option ''Invalid URL'' (new_URL_base h s bh))"

text \<open>
  \<^verbatim>\<open>new URL(v)\<close> of line 81: the constructor takes the string of its argument, which is
  the text of a string or of its wrapper and the \<^verbatim>\<open>href\<close> of a \<^verbatim>\<open>URL\<close>; the string of
  anything else is no URL.
\<close>

definition new_URL_of :: "host \<Rightarrow> jsval \<Rightarrow> err + string" where
  "new_URL_of h v =
     (case v of
        VStr u \<Rightarrow> lift_option ''Invalid URL'' (new_URL h u)
      | VStrObj u \<Rightarrow> lift_option ''Invalid URL'' (new_URL h u)
      | VObj m (Some u) \<Rightarrow> lift_option ''Invalid URL'' (new_URL h u)
      | _ \<Rightarrow> Inl (Err TypeErr ''Invalid URL''))"

text \<open>
  Lines 74 to 82 of \<^verbatim>\<open>wisp\<close>, repeated as lines 158 to 166 of \<^verbatim>\<open>wispSync\<close>: the
  location as an \<^verbatim>\<open>href\<close>.
\<close>

definition resolve_url :: "host \<Rightarrow> reference \<Rightarrow> options \<Rightarrow> string comp" where
  "resolve_url h input opts =
     (case input of
        RUrl u \<Rightarrow> ret u
      | RStr s \<Rightarrow>
          if prefix ''file://'' s then (\<lambda>w. (lift_option ''Invalid URL'' (new_URL h s), w))
          else if isAbsolute h s then ret (pathToFileURL h s)
          else
            (case base opts of
               Some b \<Rightarrow>
                 if truthy b then (\<lambda>w. (url_from_base h s b, w))
                 else andThen (resolveUrlFromCaller h (VStr s)) (\<lambda>r w. (new_URL_of h r, w))
             | None \<Rightarrow>
                 andThen (resolveUrlFromCaller h (VStr s)) (\<lambda>r w. (new_URL_of h r, w))))"

text \<open>
  The runtime enters a module into its registry: the default export, when there is
  one, becomes an object of the heap.
\<close>

definition register :: "string \<Rightarrow> json option \<Rightarrow> (string \<times> json) list \<Rightarrow> module comp" where
  "register href d named w =
     (case d of
        None \<Rightarrow> (Inr (Module None named), w\<lparr>modules := (modules w)(href \<mapsto> Module None named)\<rparr>)
      | Some j \<Rightarrow>
          (case alloc j w of
             (a, w') \<Rightarrow>
               (Inr (Module (Some a) named),
                w'\<lparr>modules := (modules w')(href \<mapsto> Module (Some a) named)\<rparr>)))"

text \<open>
  The dynamic \<^verbatim>\<open>import(href, { with: { type } })\<close> (\<open>modern\<close>) and
  \<^verbatim>\<open>import(href, { assert: { type } })\<close> of the host. The runtime decides how it treats
  the request; a module is evaluated once: the registry keeps it and every later import
  of the same location yields that same module, with the same objects. A JSON module is
  the parse of the file; a JavaScript module exports what its evaluation gives.
\<close>

definition import_module :: "host \<Rightarrow> bool \<Rightarrow> string \<Rightarrow> string \<Rightarrow> module comp" where
  "import_module h modern href t w0 =
     (let w = emit (ImportTried modern href) w0 in
      case module_format h modern href t of
        Inl e \<Rightarrow> (Inl e, w)
      | Inr fmt \<Rightarrow>
          (case modules w href of
             Some m \<Rightarrow> (Inr m, w)
           | None \<Rightarrow>
               (case fmt of
                  JsonFormat \<Rightarrow>
                    (case readFile h href of
                       Inl msg \<Rightarrow> (Inl (Err SystemErr msg), w)
                     | Inr txt \<Rightarrow>
                         (case json_text h txt of
                            Inl msg \<Rightarrow> (Inl (Err SyntaxErr msg), w)
                          | Inr j \<Rightarrow> register href (Some j) [] w))
                | ScriptFormat \<Rightarrow>
                    (case evaluate h href of
                       Inl e \<Rightarrow> (Inl e, w)
                     | Inr (d, named) \<Rightarrow> register href d named w))))"

text \<open>
  \<^verbatim>\<open>mod?.default ?? mod\<close>: a default export that is absent, \<^verbatim>\<open>undefined\<close> or \<^verbatim>\<open>null\<close>
  gives the namespace.
\<close>

definition default_or_mod :: "string \<Rightarrow> module \<Rightarrow> world \<Rightarrow> jsref" where
  "default_or_mod href m w =
     (case default_export m of
        None \<Rightarrow> Mod href
      | Some d \<Rightarrow> (case cell w d of Some JNull \<Rightarrow> Mod href | _ \<Rightarrow> Cell d))"

text \<open>
  The tree behind a reference; a namespace object serialises as its exports (the
  default export is listed first here).
\<close>

definition namespace_json :: "module \<Rightarrow> world \<Rightarrow> json" where
  "namespace_json m w =
     JObj ((case default_export m of
              None \<Rightarrow> []
            | Some d \<Rightarrow> (case cell w d of None \<Rightarrow> [] | Some j \<Rightarrow> [(''default'', j)]))
           @ named_exports m)"

definition json_of :: "jsref \<Rightarrow> world \<Rightarrow> json option" where
  "json_of v w =
     (case v of
        Cell a \<Rightarrow> cell w a
      | Mod u \<Rightarrow> (case modules w u of None \<Rightarrow> None | Some m \<Rightarrow> Some (namespace_json m w)))"

definition store :: "json \<Rightarrow> jsref comp" where
  "store j w = (case alloc j w of (a, w') \<Rightarrow> (Inr (Cell a), w'))"

text \<open>
  \<^verbatim>\<open>JSON.parse(txt, reviver)\<close> as a value: a \<^verbatim>\<open>SyntaxError\<close>, or, with no reviver, the
  tree; with a reviver, what the reviver makes of the text and its tree.
\<close>

definition JSON_parse :: "host \<Rightarrow> string \<Rightarrow> reviver_fn option \<Rightarrow> err + revived" where
  "JSON_parse h txt r =
     (case json_text h txt of
        Inl m \<Rightarrow> Inl (Err SyntaxErr m)
      | Inr j \<Rightarrow>
          (case r of
             None \<Rightarrow> Inr (Built j)
           | Some f \<Rightarrow> (case f txt j of Inl m \<Rightarrow> Inl (Err PlainErr m) | Inr v \<Rightarrow> Inr v)))"

text \<open>
  The call \<^verbatim>\<open>JSON.parse(txt, reviver)\<close> as the loader makes it: what was built is a new
  object; what the reviver kept is the object it was.
\<close>

definition parse :: "host \<Rightarrow> string \<Rightarrow> reviver_fn option \<Rightarrow> jsref comp" where
  "parse h txt r =
     (case JSON_parse h txt r of
        Inl e \<Rightarrow> throw e
      | Inr (Built j) \<Rightarrow> store j
      | Inr (Kept a) \<Rightarrow> ret (Cell a))"

text \<open>
  \<^verbatim>\<open>deepClone\<close>: \<^verbatim>\<open>structuredClone\<close> where the runtime has it, a serialisation round trip
  otherwise. \<^verbatim>\<open>structuredClone\<close> refuses exotic objects, a module namespace among them,
  with a \<^verbatim>\<open>DataCloneError\<close>. A reference to no object has nothing to copy; the model
  fails there.
\<close>

definition deepClone :: "host \<Rightarrow> jsref \<Rightarrow> jsref comp" where
  "deepClone h v w =
     (if has_structuredClone h then
        (case v of
           Mod u \<Rightarrow> (Inl (Err CloneErr ''module namespace could not be cloned''), w)
         | Cell a \<Rightarrow>
             (case cell w a of
                None \<Rightarrow> (Inl (Err CloneErr ''no such object''), w)
              | Some j \<Rightarrow> store j w))
      else
        (case json_of v w of
           None \<Rightarrow> (Inl (Err CloneErr ''no such object''), w)
         | Some j \<Rightarrow> parse h (JSON_stringify h j) None w))"

text \<open>
  The inner \<^verbatim>\<open>try { validate(val) } catch (e) { throw new Error(...) }\<close>, present four
  times in the source.
\<close>

definition run_validate :: "options \<Rightarrow> jsref \<Rightarrow> unit comp" where
  "run_validate opts val w =
     (case validate opts of
        None \<Rightarrow> (Inr (), w)
      | Some f \<Rightarrow>
          (case json_of val w of
             None \<Rightarrow> (Inl (Err CloneErr ''no such object''), w)
           | Some j \<Rightarrow>
               (case f j of
                  None \<Rightarrow> (Inr (), w)
                | Some m \<Rightarrow> (Inl (Err PlainErr (''@cldmv/wisp: '' @ m)), w))))"

text \<open>
  Lines 88 and 103: \<^verbatim>\<open>if (reviver) val = JSON.parse(JSON.stringify(val), reviver)\<close>. The
  result is not copied again.
\<close>

definition revive :: "host \<Rightarrow> options \<Rightarrow> jsref \<Rightarrow> jsref comp" where
  "revive h opts val =
     (case reviver opts of
        None \<Rightarrow> ret val
      | Some r \<Rightarrow>
          (\<lambda>w. case json_of val w of
                 None \<Rightarrow> (Inl (Err CloneErr ''no such object''), w)
               | Some j \<Rightarrow> parse h (JSON_stringify h j) (Some r) w))"

text \<open>The body of the first two \<^verbatim>\<open>try\<close> blocks of \<^verbatim>\<open>wisp\<close>, lines 85 to 96 and 100 to 111.\<close>

definition import_tier :: "host \<Rightarrow> bool \<Rightarrow> string \<Rightarrow> options \<Rightarrow> jsref comp" where
  "import_tier h modern href opts =
     andThen (import_module h modern href (the_type opts)) (\<lambda>m w.
       if reviver opts = None \<and> validate opts = None then (Inr (default_or_mod href m w), w)
       else
         andThen (deepClone h (default_or_mod href m w)) (\<lambda>val.
         andThen (revive h opts val) (\<lambda>val2.
         andThen (run_validate opts val2) (\<lambda>_. ret val2))) w)"

text \<open>
  The body of the third \<^verbatim>\<open>try\<close> block of \<^verbatim>\<open>wisp\<close>, lines 116 to 125, which is also the
  body of the only \<^verbatim>\<open>try\<close> block of \<^verbatim>\<open>wispSync\<close>, lines 169 to 178.
\<close>

definition raw_tier :: "host \<Rightarrow> string \<Rightarrow> options \<Rightarrow> jsref comp" where
  "raw_tier h href opts =
     andThen
       (\<lambda>w. (case readFile h href of Inl m \<Rightarrow> Inl (Err SystemErr m) | Inr txt \<Rightarrow> Inr txt,
              emit (RawRead href) w)) (\<lambda>txt.
     andThen (parse h txt (reviver opts)) (\<lambda>parsed.
     andThen (deepClone h parsed) (\<lambda>val.
     andThen (run_validate opts val) (\<lambda>_. ret val))))"

definition failed_to_load :: "string \<Rightarrow> err \<Rightarrow> err" where
  "failed_to_load href e =
     Err PlainErr (''@cldmv/wisp: Failed to load JSON file at '' @ href @ '': '' @ message e)"

definition unsupported_type :: "string \<Rightarrow> string \<Rightarrow> err" where
  "unsupported_type t href =
     Err PlainErr (''@cldmv/wisp: Unsupported type '' @ [CHR 0x27] @ t @ [CHR 0x27] @
                   '' or failed to load module at '' @ href)"

text \<open>
  \<^verbatim>\<open>wisp\<close> and \<^verbatim>\<open>wispSync\<close> call themselves on the fallback with nothing that bounds the
  chain, so both take fuel: the first component of the result is \<open>None\<close> when the fuel
  ran out, \<open>Some (Inl e)\<close> when the call threw \<open>e\<close> (the promise was rejected with
  \<open>e\<close>), \<open>Some (Inr v)\<close> when it returned \<open>v\<close>.
\<close>

fun wisp :: "nat \<Rightarrow> host \<Rightarrow> reference \<Rightarrow> options \<Rightarrow> world \<Rightarrow> (err + jsref) option \<times> world" where
  "wisp 0 h input opts w = (None, w)"
| "wisp (Suc n) h input opts w =
     (case resolve_url h input opts w of
        (Inl e, w0) \<Rightarrow> (Some (Inl e), w0)
      | (Inr url, w0) \<Rightarrow>
          (case import_tier h True url opts w0 of
             (Inr v, w1) \<Rightarrow> (Some (Inr v), w1)
           | (Inl e1, w1) \<Rightarrow>
               (case import_tier h False url opts w1 of
                  (Inr v, w2) \<Rightarrow> (Some (Inr v), w2)
                | (Inl e2, w2) \<Rightarrow>
                    if the_type opts = ''json'' then
                      (case raw_tier h url opts w2 of
                         (Inr v, w3) \<Rightarrow> (Some (Inr v), w3)
                       | (Inl e, w3) \<Rightarrow>
                           (case fallback opts of
                              Some fb \<Rightarrow>
                                if truthy fb then wisp n h fb opts w3
                                else (Some (Inl (failed_to_load url e)), w3)
                            | None \<Rightarrow> (Some (Inl (failed_to_load url e)), w3)))
                    else (Some (Inl (unsupported_type (the_type opts) url)), w2))))"

fun wispSync :: "nat \<Rightarrow> host \<Rightarrow> reference \<Rightarrow> options \<Rightarrow> world \<Rightarrow> (err + jsref) option \<times> world" where
  "wispSync 0 h input opts w = (None, w)"
| "wispSync (Suc n) h input opts w =
     (case resolve_url h input opts w of
        (Inl e, w0) \<Rightarrow> (Some (Inl e), w0)
      | (Inr url, w0) \<Rightarrow>
          (case raw_tier h url opts w0 of
             (Inr v, w1) \<Rightarrow> (Some (Inr v), w1)
           | (Inl e, w1) \<Rightarrow>
               (case fallback opts of
                  Some fb \<Rightarrow>
                    if truthy fb then wispSync n h fb opts w1
                    else (Some (Inl (failed_to_load url e)), w1)
                | None \<Rightarrow> (Some (Inl (failed_to_load url e)), w1))))"

text \<open>Deep equality of two results, each read in the world its call left behind.\<close>

definition deep_equal :: "world \<Rightarrow> jsref \<Rightarrow> world \<Rightarrow> jsref \<Rightarrow> bool" where
  "deep_equal w1 r1 w2 r2 =
     (case (r1, r2) of
        (Cell a, Cell b) \<Rightarrow> cell w1 a \<noteq> None \<and> cell w1 a = cell w2 b
      | (Mod u, Mod v) \<Rightarrow> u = v
      | _ \<Rightarrow> False)"

section \<open>The specification's reading of the selectors\<close>

text \<open>
  The frames the scan looks at: those with a file name, taken as a path, that are
  neither runtime-internal nor the resolver's own file. \<open>convertible\<close> says that no file
  name of the stack makes \<^verbatim>\<open>fileURLToPath\<close> throw.
\<close>

definition path_of :: "host \<Rightarrow> frame \<Rightarrow> string option" where
  "path_of h cs = (case toFsPath h cs of Inr (Some f) \<Rightarrow> Some f | _ \<Rightarrow> None)"

definition skipped :: "host \<Rightarrow> string \<Rightarrow> bool" where
  "skipped h f = (f = [] \<or> prefix ''node:internal'' f \<or> f = THIS_FILE h)"

definition qualifying :: "host \<Rightarrow> frame list \<Rightarrow> string list" where
  "qualifying h frames = filter (\<lambda>f. \<not> skipped h f) (List.map_filter (path_of h) frames)"

definition convertible :: "host \<Rightarrow> frame list \<Rightarrow> bool" where
  "convertible h frames =
     list_all (\<lambda>cs. case toFsPath h cs of Inl e \<Rightarrow> False | Inr p \<Rightarrow> True) frames"

text \<open>
  The first frame at which the boolean \<open>inside\<close> is true on the previous frame and
  false on the current one, in a sequence of qualifying frames; \<open>None\<close> when there is
  no such frame.
\<close>

definition first_exit :: "(string \<Rightarrow> bool) \<Rightarrow> string list \<Rightarrow> string option" where
  "first_exit inside q =
     map_option snd (find (\<lambda>pc. inside (fst pc) \<and> \<not> inside (snd pc)) (zip q (tl q)))"

text \<open>The same search written as a loop that carries the previous frame's boolean.\<close>

fun exit_from :: "(string \<Rightarrow> bool) \<Rightarrow> bool \<Rightarrow> string list \<Rightarrow> string option" where
  "exit_from inside prev [] = None"
| "exit_from inside prev (f # q) =
     (if prev \<and> \<not> inside f then Some f else exit_from inside (inside f) q)"

text \<open>
  The specification's \<open>selectPrimary()\<close> and \<open>selectFallback()\<close>: what the two selectors
  return, which depends on the host's stack alone.
\<close>

definition selectPrimary :: "host \<Rightarrow> err + string option" where
  "selectPrimary h =
     (case call_stack h (Some PickPrimaryBaseFile) of
        Inl e \<Rightarrow> Inl e
      | Inr None \<Rightarrow> scan_primary h initial_flags []
      | Inr (Some frames) \<Rightarrow> scan_primary h initial_flags frames)"

definition selectFallback :: "host \<Rightarrow> err + string" where
  "selectFallback h =
     (case call_stack h (Some PickFallbackBaseFile) of
        Inl e \<Rightarrow> Inl e
      | Inr None \<Rightarrow> scan_fallback h []
      | Inr (Some frames) \<Rightarrow> scan_fallback h frames)"

text \<open>\<^verbatim>\<open>typeof rel === "string"\<close>.\<close>

fun is_string :: "jsval \<Rightarrow> bool" where
  "is_string (VStr s) = True"
| "is_string v = False"

section \<open>Relations between worlds\<close>

text \<open>
  \<open>keeps R m\<close>: the computation \<open>m\<close> relates every world to the world it leaves.
  \<open>same_trace\<close>: no event was recorded. \<open>quiet w w'\<close>: the trace of \<open>w'\<close> is the trace of
  \<open>w\<close> with events put in front of it, none of which is a stack sampling.
  \<open>same_store\<close>: heap and registry are untouched.
  \<open>pure_result m\<close>: what \<open>m\<close> returns does not depend on the world.
\<close>

definition keeps :: "(world \<Rightarrow> world \<Rightarrow> bool) \<Rightarrow> 'a comp \<Rightarrow> bool" where
  "keeps R m = (\<forall>w. R w (snd (m w)))"

definition same_trace :: "world \<Rightarrow> world \<Rightarrow> bool" where
  "same_trace w w' = (trace w' = trace w)"

definition quiet :: "world \<Rightarrow> world \<Rightarrow> bool" where
  "quiet w w' = (\<exists>evs. trace w' = evs @ trace w \<and> StackSampled \<notin> set evs)"

definition same_store :: "world \<Rightarrow> world \<Rightarrow> bool" where
  "same_store w w' = (heap w' = heap w \<and> modules w' = modules w)"

definition pure_result :: "'a comp \<Rightarrow> bool" where
  "pure_result m = (\<forall>w w2. fst (m w) = fst (m w2))"

text \<open>
  Ownership of a returned reference. The registry is \<open>well_formed\<close> when the default
  exports it holds are allocated cells. \<open>fresh w w' v\<close>: \<open>v\<close> is a cell allocated after
  \<open>w\<close>, present in \<open>w'\<close>, and no module of the registry of \<open>w'\<close> has it as its default
  export. \<open>registry_object w' v\<close>: \<open>v\<close> is an object of the module registry, the default
  export of a module or the namespace of one. \<open>extends w w'\<close>: the heap of \<open>w'\<close> begins
  with the heap of \<open>w\<close>, and a well-formed registry has stayed well-formed.
  \<open>gives_fresh m\<close>: \<open>m\<close> extends the world and what it returns is fresh.
  \<open>builds opts\<close>: the reviver, when there is one, never hands back an object it kept.
\<close>

definition well_formed :: "world \<Rightarrow> bool" where
  "well_formed w =
     (\<forall>u m d. modules w u = Some m \<longrightarrow> default_export m = Some d \<longrightarrow> d < length (heap w))"

definition fresh :: "world \<Rightarrow> world \<Rightarrow> jsref \<Rightarrow> bool" where
  "fresh w w' v =
     (case v of
        Cell a \<Rightarrow>
          length (heap w) \<le> a \<and> a < length (heap w')
          \<and> (\<forall>u m. modules w' u = Some m \<longrightarrow> default_export m \<noteq> Some a)
      | Mod u \<Rightarrow> False)"

definition registry_object :: "world \<Rightarrow> jsref \<Rightarrow> bool" where
  "registry_object w v =
     (case v of
        Cell a \<Rightarrow> (\<exists>u m. modules w u = Some m \<and> default_export m = Some a)
      | Mod u \<Rightarrow> modules w u \<noteq> None)"

definition extends :: "world \<Rightarrow> world \<Rightarrow> bool" where
  "extends w w' = (prefix (heap w) (heap w') \<and> (well_formed w \<longrightarrow> well_formed w'))"

definition builds :: "options \<Rightarrow> bool" where
  "builds opts = (\<forall>f doc j a. reviver opts = Some f \<longrightarrow> f doc j \<noteq> Inr (Kept a))"

definition gives_fresh :: "jsref comp \<Rightarrow> bool" where
  "gives_fresh m =
     (\<forall>w r w'. m w = (r, w') \<longrightarrow>
        extends w w' \<and> (\<forall>v. well_formed w \<and> r = Inr v \<longrightarrow> fresh w w' v))"

text \<open>
  What the raw-read tier computes, as a value: the text is read and parsed, through the
  reviver when there is one; what the reviver kept is looked up in the world; the tree
  is copied (\<open>cloned\<close>: as it is by \<^verbatim>\<open>structuredClone\<close>, through the serialisation
  otherwise) and validated (\<open>checked\<close>). \<open>holds w v x\<close>: \<open>v\<close> is a cell of \<open>w\<close> whose
  tree is the value \<open>x\<close>.
\<close>

definition cloned :: "host \<Rightarrow> json \<Rightarrow> err + json" where
  "cloned h j =
     (if has_structuredClone h then Inr j
      else (case json_text h (JSON_stringify h j) of
              Inl m \<Rightarrow> Inl (Err SyntaxErr m)
            | Inr j' \<Rightarrow> Inr j'))"

definition checked :: "options \<Rightarrow> json \<Rightarrow> err + json" where
  "checked opts j =
     (case validate opts of
        None \<Rightarrow> Inr j
      | Some f \<Rightarrow>
          (case f j of
             None \<Rightarrow> Inr j
           | Some m \<Rightarrow> Inl (Err PlainErr (''@cldmv/wisp: '' @ m))))"

definition revived_tree :: "world \<Rightarrow> revived \<Rightarrow> err + json" where
  "revived_tree w rv =
     (case rv of
        Built j \<Rightarrow> Inr j
      | Kept a \<Rightarrow> (case cell w a of None \<Rightarrow> Inl (Err CloneErr ''no such object'') | Some j \<Rightarrow> Inr j))"

definition raw_value :: "host \<Rightarrow> string \<Rightarrow> options \<Rightarrow> world \<Rightarrow> err + json" where
  "raw_value h url opts w =
     (case readFile h url of
        Inl m \<Rightarrow> Inl (Err SystemErr m)
      | Inr doc \<Rightarrow>
          (case JSON_parse h doc (reviver opts) of
             Inl e \<Rightarrow> Inl e
           | Inr rv \<Rightarrow>
               (case revived_tree w rv of
                  Inl e \<Rightarrow> Inl e
                | Inr j \<Rightarrow> (case cloned h j of Inl e \<Rightarrow> Inl e | Inr j' \<Rightarrow> checked opts j'))))"

definition holds :: "world \<Rightarrow> jsref \<Rightarrow> err + json \<Rightarrow> bool" where
  "holds w v x = (\<exists>a j. v = Cell a \<and> cell w a = Some j \<and> x = Inr j)"

text \<open>
  For comparing the two loaders. \<open>never_imports h\<close>: the runtime rejects every dynamic
  import the loader makes. \<open>json_only h\<close>: it never treats the target of such an import
  as a JavaScript module. \<open>coherent h w\<close>: every module the registry holds is a JSON
  module whose default export is the parse of the file at its location.
  \<open>no_null_document h\<close>: no file holds the document \<^verbatim>\<open>null\<close>. \<open>revives_alike h r\<close>:
  for the document \<open>d\<close> of every file, \<^verbatim>\<open>JSON.parse(JSON.stringify(d), r)\<close> yields what
  \<^verbatim>\<open>JSON.parse(text, r)\<close> yields for the text of the file.
  \<open>kept_exist opts w\<close>: an object the reviver hands back exists in \<open>w\<close>.
  \<open>imports_mirror_files\<close>: the conditions under which what an import tier yields is
  what the raw-read tier would.
\<close>

definition never_imports :: "host \<Rightarrow> bool" where
  "never_imports h = (\<forall>modern u t. \<exists>e. module_format h modern u t = Inl e)"

definition json_only :: "host \<Rightarrow> bool" where
  "json_only h = (\<forall>modern u t. module_format h modern u t \<noteq> Inr ScriptFormat)"

definition coherent :: "host \<Rightarrow> world \<Rightarrow> bool" where
  "coherent h w =
     (\<forall>u m. modules w u = Some m \<longrightarrow>
        (\<exists>doc j d. readFile h u = Inr doc \<and> json_text h doc = Inr j
                   \<and> default_export m = Some d \<and> cell w d = Some j))"

definition no_null_document :: "host \<Rightarrow> bool" where
  "no_null_document h = (\<forall>u doc. readFile h u = Inr doc \<longrightarrow> json_text h doc \<noteq> Inr JNull)"

definition revives_alike :: "host \<Rightarrow> reviver_fn option \<Rightarrow> bool" where
  "revives_alike h r =
     (\<forall>u doc j. readFile h u = Inr doc \<and> json_text h doc = Inr j \<longrightarrow>
        JSON_parse h (JSON_stringify h j) r = JSON_parse h doc r)"

definition kept_exist :: "options \<Rightarrow> world \<Rightarrow> bool" where
  "kept_exist opts w =
     (\<forall>f doc j a. reviver opts = Some f \<and> f doc j = Inr (Kept a) \<longrightarrow> a < length (heap w))"

definition imports_mirror_files :: "host \<Rightarrow> options \<Rightarrow> world \<Rightarrow> bool" where
  "imports_mirror_files h opts w =
     (json_only h \<and> no_null_document h \<and> coherent h w \<and> has_structuredClone h
      \<and> (reviver opts \<noteq> None \<longrightarrow> revives_alike h (reviver opts)))"

section \<open>A concrete runtime\<close>

text \<open>
  A small POSIX host used to run the definitions: a package installed at \<^verbatim>\<open>/pkg\<close>, an
  application at \<^verbatim>\<open>/app\<close> with four files, and the stack of a call made from
  \<^verbatim>\<open>/app/main.mjs\<close>. Its JSON functions know the texts below only; as in Node, the
  literal \<^verbatim>\<open>1e400\<close> parses to \<^verbatim>\<open>Infinity\<close>, which is written back as \<^verbatim>\<open>null\<close>. Its module
  loader is that of a current Node: \<^verbatim>\<open>with\<close> is honoured, for the type \<^verbatim>\<open>json\<close> and a
  \<^verbatim>\<open>.json\<close> file; \<^verbatim>\<open>assert\<close> is ignored, so that import is a plain one, which loads a
  JavaScript module and refuses a \<^verbatim>\<open>.json\<close> file. The file \<^verbatim>\<open>arr.mjs\<close> holds the text
  \<^verbatim>\<open>[1]\<close>: a JavaScript module with no export, and a JSON document.
\<close>

definition posix_dirname :: "string \<Rightarrow> string" where
  "posix_dirname p = rev (drop 1 (dropWhile (\<lambda>c. c \<noteq> CHR ''/'') (rev p)))"

definition demo_files :: "(string \<times> string) list" where
  "demo_files =
     [(''file:///app/data/sample.json'', ''[1]''),
      (''file:///app/data/null.json'', ''null''),
      (''file:///app/data/huge.json'', ''[1e400]''),
      (''file:///app/data/arr.mjs'', ''[1]'')]"

definition demo_json_text :: "string \<Rightarrow> string + json" where
  "demo_json_text txt =
     (if txt = ''[1]'' then Inr (JArr [JNum 1])
      else if txt = ''[2]'' then Inr (JArr [JNum 2])
      else if txt = ''null'' then Inr JNull
      else if txt = ''[null]'' then Inr (JArr [JNull])
      else if txt = ''[1e400]'' then Inr (JArr [JInfinity True])
      else Inl ''Unexpected end of JSON input'')"

definition demo_stringify :: "json \<Rightarrow> string" where
  "demo_stringify j =
     (if j = JNull then ''null''
      else if j = JArr [JNum 1] then ''[1]''
      else if j = JArr [JNum 2] then ''[2]''
      else if j = JArr [JNull] \<or> j = JArr [JInfinity True] then ''[null]''
      else ''{}'')"

definition demo_format :: "bool \<Rightarrow> string \<Rightarrow> string \<Rightarrow> err + format" where
  "demo_format modern href t =
     (if modern then
        (if t \<noteq> ''json'' then Inl (Err TypeErr ''Import attribute type is not supported'')
         else if suffix ''.json'' href then Inr JsonFormat
         else Inl (Err TypeErr ''Module is not of type json''))
      else
        (if suffix ''.json'' href
         then Inl (Err TypeErr ''Module needs an import attribute of type json'')
         else Inr ScriptFormat))"

definition demo_evaluate :: "string \<Rightarrow> err + json option \<times> (string \<times> json) list" where
  "demo_evaluate href =
     (if href = ''file:///app/data/arr.mjs'' then Inr (None, [])
      else Inl (Err SystemErr ''Cannot find module''))"

definition demo_frames :: "frame list" where
  "demo_frames =
     [Some ''file:///pkg/src/lib/resolve-from-caller.mjs'',
      Some ''file:///pkg/src/lib/resolve-from-caller.mjs'',
      Some ''file:///pkg/src/wisp.mjs'',
      Some ''file:///app/main.mjs'',
      Some ''node:internal/process/task_queues'',
      None]"

definition demo_host :: host where
  "demo_host =
     \<lparr>sep = CHR ''/'',
      isAbsolute = prefix ''/'',
      dirname = posix_dirname,
      path_resolve = (\<lambda>d r. d @ ''/'' @ r),
      path_relative = (\<lambda>from to. drop (Suc (length from)) to),
      fileURLToPath = (\<lambda>u. if prefix ''file://'' u then Some (drop 7 u) else None),
      pathToFileURL = (\<lambda>p. ''file://'' @ p),
      new_URL = (\<lambda>s. if prefix ''file://'' s then Some s else None),
      new_URL_base =
        (\<lambda>r b. if prefix ''file://'' b then Some (posix_dirname b @ ''/'' @ r) else None),
      existsSync = (\<lambda>p. p \<in> set [''/app/data/sample.json'', ''/app/data/null.json'']),
      readFile =
        (\<lambda>u. case map_of demo_files u of
               None \<Rightarrow> Inl ''ENOENT: no such file or directory''
             | Some t \<Rightarrow> Inr t),
      json_text = demo_json_text,
      JSON_stringify = demo_stringify,
      has_structuredClone = True,
      module_format = demo_format,
      evaluate = demo_evaluate,
      call_stack = (\<lambda>skipFn. Inr (Some demo_frames)),
      THIS_FILE = ''/pkg/src/lib/resolve-from-caller.mjs'',
      PACKAGE_ROOT = Some ''/pkg''\<rparr>"

text \<open>The same machine at the moment the stack is exhausted: building the error throws.\<close>

definition throwing_host :: host where
  "throwing_host =
     demo_host\<lparr>call_stack := (\<lambda>skipFn. Inl (Err RangeErr ''Maximum call stack size exceeded''))\<rparr>"

text \<open>
  The same files on an old runtime: no \<^verbatim>\<open>structuredClone\<close>, and a module loader that
  rejects every import the loader makes.
\<close>

definition old_host :: host where
  "old_host =
     demo_host\<lparr>has_structuredClone := False,
               module_format := (\<lambda>modern href t. Inl (Err SyntaxErr ''Unexpected token''))\<rparr>"

text \<open>
  The same files on a runtime that honours \<^verbatim>\<open>assert\<close> and ignores \<^verbatim>\<open>with\<close>, as Node did
  before import attributes: there the first import is the plain one.
\<close>

definition legacy_host :: host where
  "legacy_host =
     demo_host\<lparr>module_format := (\<lambda>modern href t. demo_format (\<not> modern) href t)\<rparr>"

text \<open>The current runtime with the one file \<^verbatim>\<open>sample.json\<close>.\<close>

definition plain_host :: host where
  "plain_host =
     demo_host\<lparr>readFile :=
                 (\<lambda>u. if u = ''file:///app/data/sample.json'' then Inr ''[1]''
                      else Inl ''ENOENT: no such file or directory''),
               module_format :=
                 (\<lambda>modern href t.
                    if modern \<and> t = ''json'' then Inr JsonFormat
                    else Inl (Err TypeErr ''Import attribute type is not supported''))\<rparr>"

text \<open>
  The world of a process that has loaded nothing, and the option objects used below:
  none, a base, the empty string as the base, a fallback, a \<^verbatim>\<open>validate\<close> that always
  throws \<^verbatim>\<open>new Error("X")\<close>, one that never throws, a declared type, a reviver that
  returns every value as it is, and a reviver that returns for the root key the object
  of cell 0, which it holds.
\<close>

definition world0 :: world where
  "world0 = \<lparr>heap = [], modules = (\<lambda>u. None), prepareStackTrace = UserHook 0, trace = []\<rparr>"

definition no_options :: options where
  "no_options = \<lparr>base = None, validate = None, reviver = None, type = None, fallback = None\<rparr>"

definition based_options :: options where
  "based_options = no_options\<lparr>base := Some (RStr ''file:///app/data/index.mjs'')\<rparr>"

definition empty_base_options :: options where
  "empty_base_options = no_options\<lparr>base := Some (RStr [])\<rparr>"

definition fallback_options :: options where
  "fallback_options = no_options\<lparr>fallback := Some (RStr ''/app/data/sample.json'')\<rparr>"

definition rejecting_options :: options where
  "rejecting_options = no_options\<lparr>validate := Some (\<lambda>j. Some ''X'')\<rparr>"

definition accepting_options :: options where
  "accepting_options = no_options\<lparr>validate := Some (\<lambda>j. None)\<rparr>"

definition yaml_options :: options where
  "yaml_options = no_options\<lparr>type := Some ''yaml''\<rparr>"

definition reviving_options :: options where
  "reviving_options = no_options\<lparr>reviver := Some (\<lambda>doc j. Inr (Built j))\<rparr>"

definition keeping_options :: options where
  "keeping_options = no_options\<lparr>reviver := Some (\<lambda>doc j. Inr (Kept 0))\<rparr>"

text \<open>
  The world after one \<^verbatim>\<open>wisp\<close> load of \<^verbatim>\<open>sample.json\<close> with no options, whose caller then
  assigned through the reference it got: the registry's export now holds \<^verbatim>\<open>[2]\<close>.
\<close>

definition mutated_world :: world where
  "mutated_world =
     mutate 0 (JArr [JNum 2])
       (snd (wisp 1 demo_host (RStr ''/app/data/sample.json'') no_options world0))"

section \<open>The call-stack sampler\<close>

text \<open>
  C9. Every invocation of \<^verbatim>\<open>getStack\<close>, whether it returns the frames or throws, leaves
  \<^verbatim>\<open>Error.prepareStackTrace\<close> at the value it had when the call began: the override made
  inside \<^verbatim>\<open>try\<close> does not survive the call.
\<close>

theorem getStack_restores_hook:
  "prepareStackTrace (snd (getStack h skipFn w)) = prepareStackTrace w"
  by (simp add: getStack_def try_finally_def emit_def Let_def split: sum.split option.split)

text \<open>An invocation that throws, and the hook after it.\<close>

theorem getStack_restores_hook_witness:
  "fst (getStack throwing_host (Some PickPrimaryBaseFile) world0)
     = Inl (Err RangeErr ''Maximum call stack size exceeded'')
   \<and> prepareStackTrace (snd (getStack throwing_host (Some PickPrimaryBaseFile) world0))
     = UserHook 0"
  using getStack_restores_hook [of throwing_host "Some PickPrimaryBaseFile" world0]
  by (simp add: getStack_def try_finally_def emit_def Let_def throwing_host_def world0_def)

section \<open>References that are not strings\<close>

lemma path_isAbsolute_non_string:
  "\<not> is_string rel \<Longrightarrow>
   path_isAbsolute h rel = Inl (Err TypeErr ''The path argument must be of type string'')"
  by (cases rel) (simp_all add: path_isAbsolute_def)

text \<open>
  C7. What the code does with a reference that is not a string. \<^verbatim>\<open>resolveWith\<close> rejects
  it with its \<^verbatim>\<open>TypeError\<close>, and no call samples the stack or touches the filesystem:
  the world is left as it was found. But the two wrappers ask \<^verbatim>\<open>rel.startsWith?.("file://")\<close>
  first, and only a falsy answer leads to the \<^verbatim>\<open>TypeError\<close> (of \<^verbatim>\<open>path.isAbsolute\<close>). When
  the answer is truthy, as for \<^verbatim>\<open>new String("file:///x")\<close> or an object with its own
  \<^verbatim>\<open>startsWith\<close>, \<^verbatim>\<open>resolveUrlFromCaller\<close> returns the argument itself and
  \<^verbatim>\<open>resolvePathFromCaller\<close> returns \<^verbatim>\<open>fileURLToPath\<close> of it; when the question throws,
  that exception is the outcome, whatever its kind.
\<close>

theorem non_string_reference_outcome:
  assumes "\<not> is_string rel"
  shows "resolveWith h rel makePrimary exists makeFallback w
           = (Inl (Err TypeErr ''rel must be a string''), w)
       \<and> snd (resolvePathFromCaller h rel w) = w
       \<and> snd (resolveUrlFromCaller h rel w) = w
       \<and> (startsWith_file rel = Inr True \<longrightarrow>
            resolveUrlFromCaller h rel w = (Inr rel, w)
          \<and> resolvePathFromCaller h rel w = (fileURLToPath_of h rel, w))
       \<and> (startsWith_file rel = Inr False \<longrightarrow>
            resolveUrlFromCaller h rel w
              = (Inl (Err TypeErr ''The path argument must be of type string''), w)
          \<and> resolvePathFromCaller h rel w
              = (Inl (Err TypeErr ''The path argument must be of type string''), w))
       \<and> (\<forall>e. startsWith_file rel = Inl e \<longrightarrow>
            resolveUrlFromCaller h rel w = (Inl e, w)
          \<and> resolvePathFromCaller h rel w = (Inl e, w))"
proof -
  note abs = path_isAbsolute_non_string [OF assms, of h]
  have rw: "resolveWith h rel makePrimary exists makeFallback w
           = (Inl (Err TypeErr ''rel must be a string''), w)"
    using assms by (cases rel) (simp_all add: resolveWith_def throw_def)
  have t: "resolveUrlFromCaller h rel w = (Inr rel, w)
          \<and> resolvePathFromCaller h rel w = (fileURLToPath_of h rel, w)"
    if "startsWith_file rel = Inr True"
    using that by (simp add: resolveUrlFromCaller_def resolvePathFromCaller_def andThen_def ret_def)
  have f: "resolveUrlFromCaller h rel w
              = (Inl (Err TypeErr ''The path argument must be of type string''), w)
          \<and> resolvePathFromCaller h rel w
              = (Inl (Err TypeErr ''The path argument must be of type string''), w)"
    if "startsWith_file rel = Inr False"
    using that abs by (simp add: resolveUrlFromCaller_def resolvePathFromCaller_def andThen_def)
  have e: "resolveUrlFromCaller h rel w = (Inl e, w)
          \<and> resolvePathFromCaller h rel w = (Inl e, w)"
    if "startsWith_file rel = Inl e" for e
    using that by (simp add: resolveUrlFromCaller_def resolvePathFromCaller_def andThen_def)
  have s: "snd (resolvePathFromCaller h rel w) = w \<and> snd (resolveUrlFromCaller h rel w) = w"
  proof (cases "startsWith_file rel")
    case (Inl x)
    with e [of x] show ?thesis by simp
  next
    case (Inr b)
    with t f show ?thesis by (cases b) simp_all
  qed
  from rw s t f e show ?thesis by blast
qed

text \<open>
  A wrapper object and an object with a \<^verbatim>\<open>startsWith\<close> of its own come back from
  \<^verbatim>\<open>resolveUrlFromCaller\<close> as they went in; a number is rejected.
\<close>

theorem non_string_reference_outcome_witness:
  "\<not> is_string (VStrObj ''file:///x'')
   \<and> resolveUrlFromCaller demo_host (VStrObj ''file:///x'') world0
       = (Inr (VStrObj ''file:///x''), world0)
   \<and> resolvePathFromCaller demo_host (VStrObj ''file:///x'') world0
       = (Inl (Err TypeErr ''The path argument must be of type string or an instance of URL''),
          world0)
   \<and> \<not> is_string (VObj (Returns True) None)
   \<and> resolveUrlFromCaller demo_host (VObj (Returns True) None) world0
       = (Inr (VObj (Returns True) None), world0)
   \<and> \<not> is_string (VNum 5)
   \<and> resolvePathFromCaller demo_host (VNum 5) world0
       = (Inl (Err TypeErr ''The path argument must be of type string''), world0)
   \<and> resolveUrlFromCaller demo_host (VNum 5) world0
       = (Inl (Err TypeErr ''The path argument must be of type string''), world0)
   \<and> \<not> is_string VNull
   \<and> resolveUrlFromCaller demo_host VNull world0
       = (Inl (Err TypeErr ''Cannot read properties of null (reading startsWith)''), world0)"
proof -
  have a: "\<not> is_string (VStrObj ''file:///x'')" "\<not> is_string (VObj (Returns True) None)"
    "\<not> is_string (VNum 5)" "\<not> is_string VNull" by simp_all
  have s: "startsWith_file (VStrObj ''file:///x'') = Inr True"
    "startsWith_file (VObj (Returns True) None) = Inr True"
    "startsWith_file (VNum 5) = Inr False"
    "startsWith_file VNull
       = Inl (Err TypeErr ''Cannot read properties of null (reading startsWith)'')"
    by (simp_all add: startsWith_file_def)
  have p: "fileURLToPath_of demo_host (VStrObj ''file:///x'')
             = Inl (Err TypeErr ''The path argument must be of type string or an instance of URL'')"
    by (simp add: fileURLToPath_of_def)
  from non_string_reference_outcome [OF a(1), of demo_host _ _ _ world0]
    non_string_reference_outcome [OF a(2), of demo_host _ _ _ world0]
    non_string_reference_outcome [OF a(3), of demo_host _ _ _ world0]
    non_string_reference_outcome [OF a(4), of demo_host _ _ _ world0]
  show ?thesis
    using a s p by simp
qed

section \<open>The primary base-file selector\<close>

lemma exit_from_zip:
  "exit_from inside (inside p) q
     = map_option snd (find (\<lambda>pc. inside (fst pc) \<and> \<not> inside (snd pc)) (zip (p # q) q))"
  by (induction q arbitrary: p) simp_all

lemma exit_from_first_exit: "exit_from inside False q = first_exit inside q"
  by (cases q) (simp_all add: first_exit_def exit_from_zip)

lemma qualifying_Nil: "qualifying h [] = []"
  by (simp add: qualifying_def map_filter_simps)

lemma qualifying_Cons:
  "qualifying h (cs # rest) =
     (case path_of h cs of
        None \<Rightarrow> qualifying h rest
      | Some f \<Rightarrow> if skipped h f then qualifying h rest else f # qualifying h rest)"
  by (simp add: qualifying_def map_filter_simps split: option.split)

lemma scan_primary_none:
  "toFsPath h cs = Inr None \<Longrightarrow> scan_primary h st (cs # rest) = scan_primary h st rest"
  by simp

lemma scan_primary_skipped:
  "toFsPath h cs = Inr (Some f) \<Longrightarrow> skipped h f \<Longrightarrow>
   scan_primary h st (cs # rest) = scan_primary h st rest"
  by (auto simp: skipped_def)

lemma scan_primary_qualifying:
  "toFsPath h cs = Inr (Some f) \<Longrightarrow> \<not> skipped h f \<Longrightarrow>
   scan_primary h st (cs # rest) =
     (if exitedSrcOrDist st \<or> (previousWasInSrcOrDist st \<and> \<not> currentIsInSrcOrDist h f)
      then Inr (Some f)
      else scan_primary h
             (st\<lparr>exitedIndex := exitedIndex st \<or> (previousWasIndex st \<and> \<not> currentIsIndex h f),
                previousWasInSrcOrDist := currentIsInSrcOrDist h f,
                previousWasIndex := currentIsIndex h f\<rparr>) rest)"
  by (auto simp: skipped_def Let_def)

lemma scan_primary_exit_from:
  "convertible h frames \<Longrightarrow> \<not> exitedSrcOrDist st \<Longrightarrow>
   scan_primary h st frames
     = Inr (exit_from (currentIsInSrcOrDist h) (previousWasInSrcOrDist st) (qualifying h frames))"
proof (induction frames arbitrary: st)
  case Nil
  then show ?case by (simp add: qualifying_Nil)
next
  case (Cons cs rest)
  from Cons.prems(1) have conv: "convertible h rest"
    by (simp add: convertible_def)
  from Cons.prems(1) obtain p where p: "toFsPath h cs = Inr p"
    by (auto simp: convertible_def split: sum.splits)
  show ?case
  proof (cases p)
    case None
    with p Cons.IH [OF conv Cons.prems(2)] show ?thesis
      by (simp add: qualifying_Cons path_of_def)
  next
    case (Some f)
    with p have pf: "toFsPath h cs = Inr (Some f)" by simp
    show ?thesis
    proof (cases "skipped h f")
      case True
      with pf Cons.IH [OF conv Cons.prems(2)] show ?thesis
        by (simp add: scan_primary_skipped qualifying_Cons path_of_def del: scan_primary.simps)
    next
      case False
      let ?st' = "st\<lparr>exitedIndex := exitedIndex st \<or> (previousWasIndex st \<and> \<not> currentIsIndex h f),
                     previousWasInSrcOrDist := currentIsInSrcOrDist h f,
                     previousWasIndex := currentIsIndex h f\<rparr>"
      have ne: "\<not> exitedSrcOrDist ?st'" using Cons.prems(2) by simp
      have "scan_primary h ?st' rest
              = Inr (exit_from (currentIsInSrcOrDist h) (currentIsInSrcOrDist h f)
                       (qualifying h rest))"
        using Cons.IH [OF conv ne] by simp
      with pf False Cons.prems(2) show ?thesis
        by (simp add: scan_primary_qualifying qualifying_Cons path_of_def
            del: scan_primary.simps)
    qed
  qed
qed

lemma scan_primary_ignores_index:
  "exitedSrcOrDist st = exitedSrcOrDist st' \<Longrightarrow>
   previousWasInSrcOrDist st = previousWasInSrcOrDist st' \<Longrightarrow>
   scan_primary h st frames = scan_primary h st' frames"
proof (induction frames arbitrary: st st')
  case Nil
  then show ?case by simp
next
  case (Cons cs rest)
  show ?case
  proof (cases "toFsPath h cs")
    case (Inl e)
    then show ?thesis by simp
  next
    case (Inr p)
    show ?thesis
    proof (cases p)
      case None
      with Inr Cons.IH [OF Cons.prems] show ?thesis by simp
    next
      case (Some f)
      with Inr have pf: "toFsPath h cs = Inr (Some f)" by simp
      show ?thesis
      proof (cases "skipped h f")
        case True
        with pf Cons.IH [OF Cons.prems] show ?thesis
          by (simp add: scan_primary_skipped del: scan_primary.simps)
      next
        case False
        have "scan_primary h
                (st\<lparr>exitedIndex := exitedIndex st \<or> (previousWasIndex st \<and> \<not> currentIsIndex h f),
                   previousWasInSrcOrDist := currentIsInSrcOrDist h f,
                   previousWasIndex := currentIsIndex h f\<rparr>) rest
            = scan_primary h
                (st'\<lparr>exitedIndex := exitedIndex st' \<or> (previousWasIndex st' \<and> \<not> currentIsIndex h f),
                   previousWasInSrcOrDist := currentIsInSrcOrDist h f,
                   previousWasIndex := currentIsIndex h f\<rparr>) rest"
          by (rule Cons.IH) (use Cons.prems in simp_all)
        with pf False Cons.prems show ?thesis
          by (simp add: scan_primary_qualifying del: scan_primary.simps)
      qed
    qed
  qed
qed

text \<open>
  C6. When every sampled frame's file name converts to a path, \<^verbatim>\<open>pickPrimaryBaseFile\<close>
  returns the first qualifying frame that is outside \<^verbatim>\<open>src\<close> and \<^verbatim>\<open>dist\<close> while the
  qualifying frame before it was inside, and \<^verbatim>\<open>null\<close> when no frame is such. Frames
  without a file, runtime-internal frames and the resolver's own file are not among the
  qualifying frames, so they neither match nor change the previous state. The two
  index-file flags have no influence: the scan gives the same result from any values of
  \<^verbatim>\<open>exitedIndex\<close> and \<^verbatim>\<open>previousWasIndex\<close>.
\<close>

theorem primary_selector_first_exit:
  assumes "call_stack h (Some PickPrimaryBaseFile) = Inr (Some frames)"
    and "convertible h frames"
  shows "fst (pickPrimaryBaseFile h w)
           = Inr (first_exit (currentIsInSrcOrDist h) (qualifying h frames))
       \<and> scan_primary h (st\<lparr>exitedIndex := a, previousWasIndex := b\<rparr>) frames
           = scan_primary h st frames"
proof
  have "scan_primary h initial_flags frames
          = Inr (first_exit (currentIsInSrcOrDist h) (qualifying h frames))"
    using scan_primary_exit_from [OF assms(2), of initial_flags]
    by (simp add: initial_flags_def exit_from_first_exit)
  then show "fst (pickPrimaryBaseFile h w)
           = Inr (first_exit (currentIsInSrcOrDist h) (qualifying h frames))"
    using assms(1)
    by (simp add: pickPrimaryBaseFile_def andThen_def getStack_def try_finally_def Let_def)
  show "scan_primary h (st\<lparr>exitedIndex := a, previousWasIndex := b\<rparr>) frames
           = scan_primary h st frames"
    by (rule scan_primary_ignores_index) simp_all
qed

theorem primary_selector_first_exit_witness:
  "call_stack demo_host (Some PickPrimaryBaseFile) = Inr (Some demo_frames)
   \<and> convertible demo_host demo_frames
   \<and> qualifying demo_host demo_frames = [''/pkg/src/wisp.mjs'', ''/app/main.mjs'']
   \<and> fst (pickPrimaryBaseFile demo_host world0) = Inr (Some ''/app/main.mjs'')"
proof -
  have a: "call_stack demo_host (Some PickPrimaryBaseFile) = Inr (Some demo_frames)"
    by (simp add: demo_host_def)
  have b: "convertible demo_host demo_frames"
    by code_simp
  have c: "qualifying demo_host demo_frames = [''/pkg/src/wisp.mjs'', ''/app/main.mjs'']"
    by code_simp
  have d: "first_exit (currentIsInSrcOrDist demo_host) [''/pkg/src/wisp.mjs'', ''/app/main.mjs'']
             = Some ''/app/main.mjs''"
    by code_simp
  from primary_selector_first_exit [OF a b, of world0] a b c d show ?thesis
    by simp
qed

section \<open>The two-phase resolver\<close>

lemma pickPrimaryBaseFile_eq:
  "pickPrimaryBaseFile h w = (selectPrimary h, emit StackSampled w)"
  by (simp add: pickPrimaryBaseFile_def selectPrimary_def andThen_def getStack_def
      try_finally_def emit_def Let_def split: sum.split option.split)

lemma pickFallbackBaseFile_eq:
  "pickFallbackBaseFile h w = (selectFallback h, emit StackSampled w)"
  by (simp add: pickFallbackBaseFile_def selectFallback_def andThen_def getStack_def
      try_finally_def emit_def Let_def split: sum.split option.split)

lemma exists_checks_emit_sampled [simp]:
  "exists_checks (trace (emit StackSampled w)) = exists_checks (trace w)"
  by (simp add: emit_def)

lemma exists_checks_emit_exists [simp]:
  "exists_checks (trace (emit (ExistsChecked p) w)) = p # exists_checks (trace w)"
  by (simp add: emit_def)

lemma resolveWith_string:
  assumes "selectPrimary h = Inr p" and "selectFallback h = Inr fb"
    and "makePrimary (case p of Some b \<Rightarrow> b | None \<Rightarrow> fb) r = Inr cand"
    and "\<And>w. exists cand w = (Inr found, emit (ExistsChecked target) w)"
  shows "fst (resolveWith h (VStr r) makePrimary exists makeFallback w)
           = (if found then Inr cand else makeFallback fb r)"
    and "exists_checks (trace (snd (resolveWith h (VStr r) makePrimary exists makeFallback w)))
           = target # exists_checks (trace w)"
  using assms
  by (cases p; cases found;
      simp add: resolveWith_def andThen_def ret_def pickPrimaryBaseFile_eq
        pickFallbackBaseFile_eq)+

text \<open>
  C5. For a relative string reference, with \<open>primaryBase\<close> the primary selector's file
  or, when that is \<^verbatim>\<open>null\<close>, the fallback selector's: the path-mode resolver returns the
  reference joined against the directory of \<open>primaryBase\<close> if that path exists, and
  otherwise the reference joined against the directory of the fallback selector's file;
  the URL-mode resolver returns the primary locator if the path it converts to exists,
  and otherwise the locator built from the fallback selector's file. In both modes
  exactly one existence check is made, on the primary candidate; the fallback candidate
  is returned unchecked.
\<close>

theorem resolver_two_phase:
  assumes "\<not> prefix ''file://'' r" and "\<not> isAbsolute h r"
    and "selectPrimary h = Inr p" and "selectFallback h = Inr fb"
    and "primaryBase = (case p of Some b \<Rightarrow> b | None \<Rightarrow> fb)"
    and "new_URL_base h r (pathToFileURL h primaryBase) = Some href"
    and "fileURLToPath h href = Some target"
  shows "fst (resolvePathFromCaller h (VStr r) w)
           = Inr (if existsSync h (path_resolve h (dirname h primaryBase) r)
                  then path_resolve h (dirname h primaryBase) r
                  else path_resolve h (dirname h fb) r)
       \<and> exists_checks (trace (snd (resolvePathFromCaller h (VStr r) w)))
           = path_resolve h (dirname h primaryBase) r # exists_checks (trace w)
       \<and> fst (resolveUrlFromCaller h (VStr r) w)
           = map_sum id VStr
               (if existsSync h target then Inr href
                else lift_option ''Invalid URL'' (new_URL_base h r (pathToFileURL h fb)))
       \<and> exists_checks (trace (snd (resolveUrlFromCaller h (VStr r) w)))
           = target # exists_checks (trace w)"
proof -
  have path: "resolvePathFromCaller h (VStr r) w
                = resolveWith h (VStr r) (make_path h) (exists_path h) (make_path h) w"
    using assms(1,2)
    by (simp add: resolvePathFromCaller_def andThen_def startsWith_file_def path_isAbsolute_def)
  have url: "resolveUrlFromCaller h (VStr r) w
                = andThen (resolveWith h (VStr r) (make_url h) (exists_url h) (make_url h))
                    (\<lambda>href. ret (VStr href)) w"
    using assms(1,2)
    by (simp add: resolveUrlFromCaller_def andThen_def startsWith_file_def path_isAbsolute_def)
  have wrap: "fst (andThen m (\<lambda>href. ret (VStr href)) w) = map_sum id VStr (fst (m w))
              \<and> snd (andThen m (\<lambda>href. ret (VStr href)) w) = snd (m w)"
    for m :: "string comp"
    by (cases "m w") (auto simp: andThen_def ret_def split: sum.split)
  have mp: "make_path h (case p of Some b \<Rightarrow> b | None \<Rightarrow> fb) r
              = Inr (path_resolve h (dirname h primaryBase) r)"
    using assms(5) by (simp add: make_path_def)
  have ep: "\<And>w. exists_path h (path_resolve h (dirname h primaryBase) r) w
              = (Inr (existsSync h (path_resolve h (dirname h primaryBase) r)),
                 emit (ExistsChecked (path_resolve h (dirname h primaryBase) r)) w)"
    by (simp add: exists_path_def)
  have mu: "make_url h (case p of Some b \<Rightarrow> b | None \<Rightarrow> fb) r = Inr href"
    using assms(5,6) by (simp add: make_url_def lift_option_def)
  have eu: "\<And>w. exists_url h href w
              = (Inr (existsSync h target), emit (ExistsChecked target) w)"
    using assms(7) by (simp add: exists_url_def exists_path_def)
  show ?thesis
    using resolveWith_string
        [where makePrimary = "make_path h" and exists = "exists_path h"
           and makeFallback = "make_path h" and w = w, OF assms(3,4) mp ep]
      resolveWith_string
        [where makePrimary = "make_url h" and exists = "exists_url h"
           and makeFallback = "make_url h" and w = w, OF assms(3,4) mu eu]
    by (simp add: path url wrap make_path_def make_url_def)
qed

theorem resolver_two_phase_witness:
  "fst (resolvePathFromCaller demo_host (VStr ''data/sample.json'') world0)
     = Inr ''/app/data/sample.json''
   \<and> existsSync demo_host ''/app/data/sample.json''
   \<and> fst (resolveUrlFromCaller demo_host (VStr ''data/missing.json'') world0)
     = Inr (VStr ''file:///pkg/src/data/missing.json'')
   \<and> \<not> existsSync demo_host ''/app/data/missing.json''
   \<and> \<not> existsSync demo_host ''/pkg/src/data/missing.json''
   \<and> exists_checks (trace (snd (resolveUrlFromCaller demo_host (VStr ''data/missing.json'') world0)))
     = [''/app/data/missing.json'']"
proof -
  have p: "selectPrimary demo_host = Inr (Some ''/app/main.mjs'')" by code_simp
  have f: "selectFallback demo_host = Inr ''/pkg/src/wisp.mjs''" by code_simp
  have a1: "\<not> prefix ''file://'' ''data/sample.json''" by simp
  have a2: "\<not> isAbsolute demo_host ''data/sample.json''" by (simp add: demo_host_def)
  have b1: "\<not> prefix ''file://'' ''data/missing.json''" by simp
  have b2: "\<not> isAbsolute demo_host ''data/missing.json''" by (simp add: demo_host_def)
  have u1: "new_URL_base demo_host ''data/sample.json'' (pathToFileURL demo_host ''/app/main.mjs'')
              = Some ''file:///app/data/sample.json''" by code_simp
  have u2: "new_URL_base demo_host ''data/missing.json'' (pathToFileURL demo_host ''/app/main.mjs'')
              = Some ''file:///app/data/missing.json''" by code_simp
  have t1: "fileURLToPath demo_host ''file:///app/data/sample.json'' = Some ''/app/data/sample.json''"
    by code_simp
  have t2: "fileURLToPath demo_host ''file:///app/data/missing.json'' = Some ''/app/data/missing.json''"
    by code_simp
  have e1: "existsSync demo_host ''/app/data/sample.json''" by code_simp
  have e2: "\<not> existsSync demo_host ''/app/data/missing.json''" by code_simp
  have e3: "\<not> existsSync demo_host ''/pkg/src/data/missing.json''" by code_simp
  have r1: "path_resolve demo_host (dirname demo_host ''/app/main.mjs'') ''data/sample.json''
              = ''/app/data/sample.json''" by code_simp
  have r2: "lift_option ''Invalid URL''
              (new_URL_base demo_host ''data/missing.json'' (pathToFileURL demo_host ''/pkg/src/wisp.mjs''))
              = Inr ''file:///pkg/src/data/missing.json''" by code_simp
  have w0: "exists_checks (trace world0) = []" by (simp add: world0_def)
  from resolver_two_phase [OF a1 a2 p f _ u1 t1, of world0]
    resolver_two_phase [OF b1 b2 p f _ u2 t2, of world0]
  show ?thesis
    using e1 e2 e3 r1 r2 w0 by simp
qed

section \<open>Effects of the loader's steps\<close>

lemma keepsD: "keeps R m \<Longrightarrow> m w = (r, w') \<Longrightarrow> R w w'"
  by (auto simp: keeps_def dest: spec [where x = w])

lemma keeps_andThen:
  assumes "\<And>a b c. R a b \<Longrightarrow> R b c \<Longrightarrow> R a c"
    and "keeps R m" and "\<And>x. keeps R (f x)"
  shows "keeps R (andThen m f)"
  unfolding keeps_def
proof
  fix w
  obtain r w' where m: "m w = (r, w')" by (cases "m w")
  from keepsD [OF assms(2) m] have 1: "R w w'" .
  show "R w (snd (andThen m f w))"
  proof (cases r)
    case (Inl e)
    with m 1 show ?thesis by (simp add: andThen_def)
  next
    case (Inr x)
    obtain r2 w2 where f: "f x w' = (r2, w2)" by (cases "f x w'")
    from keepsD [OF assms(3) f] have "R w' w2" .
    with 1 assms(1) have "R w w2" by blast
    with m Inr f show ?thesis by (simp add: andThen_def)
  qed
qed

lemma keeps_case_option:
  "keeps R a \<Longrightarrow> (\<And>x. keeps R (f x)) \<Longrightarrow> keeps R (case v of None \<Rightarrow> a | Some x \<Rightarrow> f x)"
  by (cases v) simp_all

lemma keeps_world_case_option:
  assumes "keeps R a" and "\<And>x. keeps R (f x)"
  shows "keeps R (\<lambda>w. case g w of None \<Rightarrow> a w | Some x \<Rightarrow> f x w)"
  using assms by (auto simp: keeps_def split: option.split)

lemma andThen_InrD:
  "andThen m f w = (r, w') \<Longrightarrow> m w = (Inr x, w1) \<Longrightarrow> f x w1 = (r, w')"
  by (simp add: andThen_def)

lemma andThen_InlD:
  "andThen m f w = (r, w') \<Longrightarrow> m w = (Inl e, w1) \<Longrightarrow> r = Inl e \<and> w' = w1"
  by (auto simp: andThen_def)

lemma andThen_ret: "andThen (ret x) f = f x"
  by (rule ext) (simp add: andThen_def ret_def)

lemma pair_of_fst: "fst p = a \<Longrightarrow> p = (a, snd p)"
  by (cases p) simp

lemma fst_snd_pair: "p = (fst p, snd p)"
  by simp

subsection \<open>The trace\<close>

lemma same_trace_trans: "same_trace a b \<Longrightarrow> same_trace b c \<Longrightarrow> same_trace a c"
  by (simp add: same_trace_def)

lemma keeps_trace_const: "keeps same_trace (\<lambda>w. (r, w))"
  by (simp add: keeps_def same_trace_def)

lemma keeps_trace_ret: "keeps same_trace (ret x)"
  by (simp add: keeps_def same_trace_def ret_def)

lemma keeps_trace_throw: "keeps same_trace (throw e)"
  by (simp add: keeps_def same_trace_def throw_def)

lemma keeps_trace_store: "keeps same_trace (store j)"
  by (simp add: keeps_def same_trace_def store_def alloc_def)

lemma keeps_trace_parse: "keeps same_trace (parse h doc r)"
  by (simp add: parse_def keeps_trace_store keeps_trace_throw keeps_trace_ret
      split: sum.split revived.split)

lemma keeps_trace_deepClone: "keeps same_trace (deepClone h v)"
  using keeps_trace_store keeps_trace_parse
  by (auto simp: keeps_def same_trace_def deepClone_def split: jsref.split option.split)

lemma keeps_trace_run_validate: "keeps same_trace (run_validate opts v)"
  by (simp add: keeps_def same_trace_def run_validate_def split: option.split)

lemma keeps_trace_revive: "keeps same_trace (revive h opts v)"
  using keeps_trace_parse
  by (auto simp: keeps_def same_trace_def revive_def ret_def split: option.split)

lemma register_trace: "trace (snd (register href d named w)) = trace w"
  by (simp add: register_def alloc_def split: option.split)

lemma import_module_trace:
  "trace (snd (import_module h m u t w)) = ImportTried m u # trace w"
  by (simp add: import_module_def Let_def emit_def register_trace
      split: sum.split option.split format.split prod.split)

lemma after_andThen:
  assumes "Q (snd (m w))" and "\<And>x. keeps R (f x)" and "\<And>a b. Q a \<Longrightarrow> R a b \<Longrightarrow> Q b"
  shows "Q (snd (andThen m f w))"
proof -
  obtain r w1 where m: "m w = (r, w1)" by (cases "m w")
  show ?thesis
  proof (cases r)
    case (Inl e)
    with m assms(1) show ?thesis by (simp add: andThen_def)
  next
    case (Inr x)
    obtain r2 w2 where f: "f x w1 = (r2, w2)" by (cases "f x w1")
    from keepsD [OF assms(2) f] assms(1) m assms(3) have "Q w2" by auto
    with m Inr f show ?thesis by (simp add: andThen_def)
  qed
qed

lemma keeps_trace_finish:
  "keeps same_trace
     (andThen (deepClone h v) (\<lambda>val.
        andThen (revive h opts val) (\<lambda>val2.
        andThen (run_validate opts val2) (\<lambda>_. ret val2))))"
  by (intro keeps_andThen [OF same_trace_trans] keeps_trace_deepClone keeps_trace_revive
      keeps_trace_run_validate keeps_trace_ret; assumption)

lemma keeps_trace_import_rest:
  "keeps same_trace (\<lambda>w.
       if reviver opts = None \<and> validate opts = None then (Inr (default_or_mod href m w), w)
       else
         andThen (deepClone h (default_or_mod href m w)) (\<lambda>val.
         andThen (revive h opts val) (\<lambda>val2.
         andThen (run_validate opts val2) (\<lambda>_. ret val2))) w)"
  using keeps_trace_finish [of h _ opts] by (auto simp: keeps_def same_trace_def)

text \<open>An import tier leaves one event, the import it tried; the raw-read tier its read.\<close>

lemma import_tier_trace:
  "trace (snd (import_tier h m u opts w)) = ImportTried m u # trace w"
  unfolding import_tier_def
proof (rule after_andThen [where R = same_trace])
  show "trace (snd (import_module h m u (the_type opts) w)) = ImportTried m u # trace w"
    by (rule import_module_trace)
qed (rule keeps_trace_import_rest, simp add: same_trace_def)

lemma raw_tier_trace:
  "trace (snd (raw_tier h u opts w)) = RawRead u # trace w"
  unfolding raw_tier_def
proof (rule after_andThen [where R = same_trace])
  show "trace (snd (case readFile h u of Inl m \<Rightarrow> Inl (Err SystemErr m) | Inr doc \<Rightarrow> Inr doc,
                emit (RawRead u) w)) = RawRead u # trace w"
    by (simp add: emit_def)
next
  fix doc
  show "keeps same_trace
          (andThen (parse h doc (reviver opts)) (\<lambda>parsed.
           andThen (deepClone h parsed) (\<lambda>val.
           andThen (run_validate opts val) (\<lambda>_. ret val))))"
    by (intro keeps_andThen [OF same_trace_trans] keeps_trace_parse keeps_trace_deepClone
        keeps_trace_run_validate keeps_trace_ret; assumption)
qed (simp add: same_trace_def)

lemma quiet_refl [simp]: "quiet w w"
  by (simp add: quiet_def)

lemma quiet_trans: "quiet a b \<Longrightarrow> quiet b c \<Longrightarrow> quiet a c"
  by (auto simp: quiet_def)

lemma quiet_samplings: "quiet w w' \<Longrightarrow> samplings w' = samplings w"
  by (auto simp: quiet_def samplings_def filter_empty_conv)

lemma quiet_after_emit:
  "quiet (emit ev w) w' \<Longrightarrow> \<exists>later. trace w' = later @ ev # trace w \<and> StackSampled \<notin> set later"
  by (simp add: quiet_def emit_def)

lemma import_tier_quiet:
  "quiet (emit (ImportTried m u) w) (snd (import_tier h m u opts w))"
  by (simp add: quiet_def import_tier_trace emit_def)

lemma raw_tier_quiet:
  "quiet (emit (RawRead u) w) (snd (raw_tier h u opts w))"
  by (simp add: quiet_def raw_tier_trace emit_def)

lemma keeps_quiet_import_tier: "keeps quiet (import_tier h m u opts)"
  by (simp add: keeps_def quiet_def import_tier_trace)

lemma keeps_quiet_raw_tier: "keeps quiet (raw_tier h u opts)"
  by (simp add: keeps_def quiet_def raw_tier_trace)

subsection \<open>The heap and the registry\<close>

lemma extends_refl [simp]: "extends w w"
  by (simp add: extends_def)

lemma extends_trans: "extends a b \<Longrightarrow> extends b c \<Longrightarrow> extends a c"
  by (auto simp: extends_def)

lemma extends_length: "extends w w' \<Longrightarrow> length (heap w) \<le> length (heap w')"
  by (auto simp: extends_def dest: prefix_length_le)

lemma extends_cell: "extends w w' \<Longrightarrow> cell w a = Some j \<Longrightarrow> cell w' a = Some j"
  by (auto simp: extends_def cell_def prefix_def nth_append split: if_splits)

lemma fresh_extends: "extends w w1 \<Longrightarrow> fresh w1 w' v \<Longrightarrow> fresh w w' v"
  by (auto simp: fresh_def split: jsref.splits dest: extends_length)

lemma well_formedD:
  "well_formed w \<Longrightarrow> modules w u = Some m \<Longrightarrow> default_export m = Some d \<Longrightarrow> d < length (heap w)"
  by (simp add: well_formed_def)

lemma well_formed_grow: "well_formed w \<Longrightarrow> well_formed (w\<lparr>heap := heap w @ js\<rparr>)"
  by (fastforce simp: well_formed_def)

lemma well_formed_emit [simp]: "well_formed (emit ev w) = well_formed w"
  by (simp add: well_formed_def emit_def)

lemma extends_emit [simp]: "extends w (emit ev w)"
  by (simp add: extends_def emit_def well_formed_def)

lemma cell_emit [simp]: "cell (emit ev w) a = cell w a"
  by (simp add: cell_def emit_def)

lemma cell_grow: "cell w a = Some j \<Longrightarrow> cell (w\<lparr>heap := heap w @ js\<rparr>) a = Some j"
  by (auto simp: cell_def nth_append split: if_splits)

lemma cell_new: "cell (w\<lparr>heap := heap w @ [j]\<rparr>) (length (heap w)) = Some j"
  by (simp add: cell_def)

lemma cell_modules [simp]: "cell (w\<lparr>modules := x\<rparr>) a = cell w a"
  by (simp add: cell_def)

lemma cell_mutate_other: "a \<noteq> b \<Longrightarrow> cell (mutate a j w) b = cell w b"
  by (simp add: cell_def mutate_def)

lemma store_value:
  "store j w = (Inr (Cell (length (heap w))), w\<lparr>heap := heap w @ [j]\<rparr>)"
  by (simp add: store_def alloc_def)

lemma gives_freshD:
  "gives_fresh m \<Longrightarrow> m w = (r, w') \<Longrightarrow> extends w w'"
  "gives_fresh m \<Longrightarrow> m w = (Inr v, w') \<Longrightarrow> well_formed w \<Longrightarrow> fresh w w' v"
  by (auto simp: gives_fresh_def)

lemma gives_fresh_keeps: "gives_fresh m \<Longrightarrow> keeps extends m"
  unfolding keeps_def
proof
  fix w
  assume g: "gives_fresh m"
  obtain r w' where "m w = (r, w')" by (cases "m w")
  with gives_freshD(1) [OF g this] show "extends w (snd (m w))" by simp
qed

lemma gives_fresh_fail: "gives_fresh (\<lambda>w. (Inl e, w))"
  by (simp add: gives_fresh_def)

lemma gives_fresh_throw: "gives_fresh (throw e)"
  by (simp add: gives_fresh_def throw_def)

lemma gives_fresh_store: "gives_fresh (store j)"
  by (auto simp: gives_fresh_def store_def alloc_def extends_def well_formed_grow fresh_def
      dest: well_formedD)

lemma gives_fresh_parse_plain: "gives_fresh (parse h t None)"
  by (simp add: parse_def JSON_parse_def gives_fresh_throw gives_fresh_store split: sum.split)

lemma keeps_extends_const: "keeps extends (\<lambda>w. (r, w))"
  by (simp add: keeps_def)

lemma keeps_extends_ret: "keeps extends (ret x)"
  by (simp add: keeps_def ret_def)

lemma keeps_extends_throw: "keeps extends (throw e)"
  by (simp add: keeps_def throw_def)

lemma keeps_extends_parse: "keeps extends (parse h t r)"
  by (simp add: parse_def gives_fresh_keeps [OF gives_fresh_store] keeps_extends_throw
      keeps_extends_ret split: sum.split revived.split)

lemma gives_fresh_deepClone: "gives_fresh (deepClone h v)"
proof -
  have "deepClone h v =
          (if has_structuredClone h then
             (case v of
                Mod u \<Rightarrow> (\<lambda>w. (Inl (Err CloneErr ''module namespace could not be cloned''), w))
              | Cell a \<Rightarrow> (\<lambda>w. case cell w a of
                                 None \<Rightarrow> (Inl (Err CloneErr ''no such object''), w)
                               | Some j \<Rightarrow> store j w))
           else (\<lambda>w. case json_of v w of
                        None \<Rightarrow> (Inl (Err CloneErr ''no such object''), w)
                      | Some j \<Rightarrow> parse h (JSON_stringify h j) None w))"
    by (rule ext) (simp add: deepClone_def split: jsref.split)
  moreover have "gives_fresh (\<lambda>w. case cell w a of
                                 None \<Rightarrow> (Inl (Err CloneErr ''no such object''), w)
                               | Some j \<Rightarrow> store j w)" for a
    using gives_fresh_store by (auto simp: gives_fresh_def split: option.splits)
  moreover have "gives_fresh (\<lambda>w. case json_of v w of
                        None \<Rightarrow> (Inl (Err CloneErr ''no such object''), w)
                      | Some j \<Rightarrow> parse h (JSON_stringify h j) None w)"
    using gives_fresh_parse_plain by (auto simp: gives_fresh_def split: option.splits)
  ultimately show ?thesis
    by (simp add: gives_fresh_fail split: jsref.split)
qed

lemma keeps_extends_revive: "keeps extends (revive h opts v)"
  using keeps_extends_parse
  by (auto simp: keeps_def revive_def ret_def split: option.split)

lemma run_validate_cases:
  "(\<exists>e. run_validate opts v w = (Inl e, w)) \<or> run_validate opts v w = (Inr (), w)"
  by (simp add: run_validate_def split: option.split)

lemma keeps_extends_run_validate: "keeps extends (run_validate opts v)"
  unfolding keeps_def
proof
  fix w
  from run_validate_cases [of opts v w] show "extends w (snd (run_validate opts v w))" by auto
qed

lemma validate_then_ret:
  "(\<exists>e. andThen (run_validate opts v) (\<lambda>_. ret v) w = (Inl e, w))
   \<or> andThen (run_validate opts v) (\<lambda>_. ret v) w = (Inr v, w)"
  using run_validate_cases [of opts v w] by (auto simp: andThen_def ret_def)

lemma gives_fresh_then_validate:
  assumes "gives_fresh m"
  shows "gives_fresh (andThen m (\<lambda>val. andThen (run_validate opts val) (\<lambda>_. ret val)))"
  unfolding gives_fresh_def
proof (intro allI impI)
  fix w r w'
  assume a: "andThen m (\<lambda>val. andThen (run_validate opts val) (\<lambda>_. ret val)) w = (r, w')"
  obtain r1 w1 where m: "m w = (r1, w1)" by (cases "m w")
  show "extends w w' \<and> (\<forall>v. well_formed w \<and> r = Inr v \<longrightarrow> fresh w w' v)"
  proof (cases r1)
    case (Inl e)
    with a m gives_freshD(1) [OF assms m] show ?thesis by (auto simp: andThen_def)
  next
    case (Inr val)
    from validate_then_ret [of opts val w1] a m Inr
    have "w' = w1 \<and> (r = Inr val \<or> (\<exists>e. r = Inl e))"
      by (auto simp: andThen_def)
    with gives_freshD(1) [OF assms m] gives_freshD(2) [OF assms m [unfolded Inr]]
    show ?thesis by auto
  qed
qed

lemma gives_fresh_after:
  assumes "keeps extends m" and "\<And>x. gives_fresh (f x)"
  shows "gives_fresh (andThen m f)"
  unfolding gives_fresh_def
proof (intro allI impI)
  fix w r w'
  assume a: "andThen m f w = (r, w')"
  obtain r1 w1 where m: "m w = (r1, w1)" by (cases "m w")
  from keepsD [OF assms(1) m] have e1: "extends w w1" .
  show "extends w w' \<and> (\<forall>v. well_formed w \<and> r = Inr v \<longrightarrow> fresh w w' v)"
  proof (cases r1)
    case (Inl e)
    with a m e1 show ?thesis by (auto simp: andThen_def)
  next
    case (Inr x)
    with a m have f: "f x w1 = (r, w')" by (simp add: andThen_def)
    from gives_freshD(1) [OF assms(2) f] e1 have e: "extends w w'"
      by (blast intro: extends_trans)
    have "fresh w w' v" if "well_formed w" "r = Inr v" for v
    proof -
      from that e1 have "well_formed w1" by (simp add: extends_def)
      with gives_freshD(2) [OF assms(2) f [unfolded that(2)]] have "fresh w1 w' v" .
      with e1 show ?thesis by (rule fresh_extends)
    qed
    with e show ?thesis by blast
  qed
qed

lemma keeps_extends_read:
  "keeps extends
     (\<lambda>w. (case readFile h href of Inl m \<Rightarrow> Inl (Err SystemErr m) | Inr doc \<Rightarrow> Inr doc,
            emit (RawRead href) w))"
  by (simp add: keeps_def)

lemma gives_fresh_raw_tier: "gives_fresh (raw_tier h url opts)"
  unfolding raw_tier_def
  by (intro gives_fresh_after keeps_extends_read keeps_extends_parse
      gives_fresh_then_validate gives_fresh_deepClone)

lemma keeps_extends_register: "keeps extends (register href d named)"
  by (auto simp: keeps_def extends_def register_def alloc_def well_formed_def less_Suc_eq
      split: option.split dest: well_formedD)

lemma keeps_extends_import_module: "keeps extends (import_module h m u t)"
  unfolding keeps_def
proof
  fix w
  have "extends (emit (ImportTried m u) w) (snd (register u d named (emit (ImportTried m u) w)))"
    for d named
    using keeps_extends_register by (simp add: keeps_def)
  then have "extends w (snd (register u d named (emit (ImportTried m u) w)))" for d named
    using extends_emit extends_trans by blast
  then show "extends w (snd (import_module h m u t w))"
    by (simp add: import_module_def Let_def split: sum.split option.split format.split prod.split)
qed

lemma keeps_extends_finish:
  "keeps extends
     (andThen (deepClone h v) (\<lambda>val.
        andThen (revive h opts val) (\<lambda>val2.
        andThen (run_validate opts val2) (\<lambda>_. ret val2))))"
  by (intro keeps_andThen [OF extends_trans] gives_fresh_keeps [OF gives_fresh_deepClone]
      keeps_extends_revive keeps_extends_run_validate keeps_extends_ret; assumption)

lemma keeps_extends_import_tier: "keeps extends (import_tier h m u opts)"
  unfolding import_tier_def
proof (rule keeps_andThen [OF extends_trans keeps_extends_import_module], assumption+)
  fix x
  show "keeps extends (\<lambda>w.
       if reviver opts = None \<and> validate opts = None then (Inr (default_or_mod u x w), w)
       else
         andThen (deepClone h (default_or_mod u x w)) (\<lambda>val.
         andThen (revive h opts val) (\<lambda>val2.
         andThen (run_validate opts val2) (\<lambda>_. ret val2))) w)"
    using keeps_extends_finish [of h _ opts] by (auto simp: keeps_def)
qed

subsection \<open>Resolving the location\<close>

lemma same_store_trans: "same_store a b \<Longrightarrow> same_store b c \<Longrightarrow> same_store a c"
  by (simp add: same_store_def)

lemma same_store_extends: "same_store w w' \<Longrightarrow> extends w w'"
  by (simp add: same_store_def extends_def well_formed_def)

lemma keeps_store_pure: "keeps same_store (\<lambda>w. (r, w))"
  by (simp add: keeps_def same_store_def)

lemma keeps_store_ret: "keeps same_store (ret x)"
  by (simp add: keeps_def same_store_def ret_def)

lemma keeps_store_throw: "keeps same_store (throw e)"
  by (simp add: keeps_def same_store_def throw_def)

lemma keeps_store_pickPrimary: "keeps same_store (pickPrimaryBaseFile h)"
  by (simp add: keeps_def same_store_def pickPrimaryBaseFile_eq emit_def)

lemma keeps_store_pickFallback: "keeps same_store (pickFallbackBaseFile h)"
  by (simp add: keeps_def same_store_def pickFallbackBaseFile_eq emit_def)

lemma keeps_store_exists_url: "keeps same_store (exists_url h href)"
  by (simp add: keeps_def same_store_def exists_url_def exists_path_def throw_def emit_def
      split: option.split)

lemma keeps_store_resolveWith:
  assumes "\<And>c. keeps same_store (exists c)"
  shows "keeps same_store (resolveWith h rel makePrimary exists makeFallback)"
proof (cases rel)
  case (VStr r)
  have "keeps same_store (case p of Some b \<Rightarrow> ret b | None \<Rightarrow> pickFallbackBaseFile h)" for p
    by (simp add: keeps_store_ret keeps_store_pickFallback split: option.split)
  with VStr show ?thesis
    by (simp add: resolveWith_def)
      (intro keeps_andThen [OF same_store_trans] keeps_store_pickPrimary keeps_store_pure assms;
        (assumption | simp add: keeps_store_ret keeps_store_pure
           keeps_andThen [OF same_store_trans keeps_store_pickFallback]))
qed (simp_all add: resolveWith_def keeps_store_throw)

lemma keeps_store_resolveUrlFromCaller: "keeps same_store (resolveUrlFromCaller h rel)"
  unfolding resolveUrlFromCaller_def
  by (intro keeps_andThen [OF same_store_trans] keeps_store_pure;
      (assumption | simp add: keeps_store_ret keeps_store_throw keeps_store_resolveWith
         keeps_store_exists_url keeps_andThen [OF same_store_trans keeps_store_pure]
         keeps_andThen [OF same_store_trans keeps_store_resolveWith]
         split: jsval.split))

lemma keeps_store_resolve_url: "keeps same_store (resolve_url h input opts)"
proof -
  have c: "keeps same_store
             (andThen (resolveUrlFromCaller h (VStr s)) (\<lambda>r w. (new_URL_of h r, w)))" for s
    by (intro keeps_andThen [OF same_store_trans] keeps_store_resolveUrlFromCaller
        keeps_store_pure; assumption)
  show ?thesis
    by (cases input)
      (simp_all add: resolve_url_def keeps_store_ret keeps_store_pure c split: option.split)
qed

lemma resolve_url_extends: "resolve_url h input opts w = (r, w') \<Longrightarrow> extends w w'"
  using keepsD [OF keeps_store_resolve_url] by (blast intro: same_store_extends)

lemma resolve_url_with_base:
  assumes "base opts = Some b" and "truthy b"
  shows "snd (resolve_url h input opts w) = w"
  using assms by (cases input) (simp_all add: resolve_url_def ret_def)

subsection \<open>What the raw-read tier computes\<close>

lemma deepClone_value:
  assumes "cell w a = Some j"
  shows "deepClone h (Cell a) w
           = (case cloned h j of
                Inl e \<Rightarrow> (Inl e, w)
              | Inr j' \<Rightarrow> (Inr (Cell (length (heap w))), w\<lparr>heap := heap w @ [j']\<rparr>))"
  using assms
  by (simp add: deepClone_def cloned_def json_of_def parse_def JSON_parse_def store_value
      throw_def split: sum.split)

lemma deepClone_none:
  assumes "cell w a = None"
  shows "deepClone h (Cell a) w = (Inl (Err CloneErr ''no such object''), w)"
  using assms by (simp add: deepClone_def json_of_def)

lemma validate_value:
  assumes "cell w a = Some j"
  shows "andThen (run_validate opts (Cell a)) (\<lambda>_. ret (Cell a)) w
           = (case checked opts j of Inl e \<Rightarrow> (Inl e, w) | Inr j' \<Rightarrow> (Inr (Cell a), w))"
  using assms
  by (simp add: andThen_def run_validate_def json_of_def ret_def checked_def split: option.split)

lemma checked_same: "checked opts j = Inr j' \<Longrightarrow> j' = j"
  by (auto simp: checked_def split: option.splits)

lemma clone_validate_value:
  assumes "cell w a = Some j"
  shows "andThen (deepClone h (Cell a)) (\<lambda>val. andThen (run_validate opts val) (\<lambda>_. ret val)) w
           = (case cloned h j of
                Inl e \<Rightarrow> (Inl e, w)
              | Inr j' \<Rightarrow>
                  (case checked opts j' of
                     Inl e \<Rightarrow> (Inl e, w\<lparr>heap := heap w @ [j']\<rparr>)
                   | Inr j'' \<Rightarrow> (Inr (Cell (length (heap w))), w\<lparr>heap := heap w @ [j']\<rparr>)))"
proof (cases "cloned h j")
  case (Inl e)
  with deepClone_value [OF assms, of h] show ?thesis by (simp add: andThen_def)
next
  case (Inr j')
  let ?w = "w\<lparr>heap := heap w @ [j']\<rparr>"
  have c: "cell ?w (length (heap w)) = Some j'" by (rule cell_new)
  from deepClone_value [OF assms, of h] Inr
  have "deepClone h (Cell a) w = (Inr (Cell (length (heap w))), ?w)" by simp
  then have "andThen (deepClone h (Cell a)) (\<lambda>val. andThen (run_validate opts val) (\<lambda>_. ret val)) w
          = andThen (run_validate opts (Cell (length (heap w)))) (\<lambda>_. ret (Cell (length (heap w)))) ?w"
    by (simp add: andThen_def)
  with validate_value [OF c, of opts] Inr show ?thesis by simp
qed

lemma holds_new:
  "holds (w\<lparr>heap := heap w @ [j]\<rparr>) (Cell (length (heap w))) (Inr j)"
  by (simp add: holds_def cell_new)

lemma extends_grow: "extends w (w\<lparr>heap := heap w @ js\<rparr>)"
  by (simp add: extends_def well_formed_grow)

lemma raw_tier_value:
  assumes "raw_tier h url opts w = (r, w')"
  shows "extends w w' \<and> modules w' = modules w
       \<and> (case r of
            Inl e \<Rightarrow> raw_value h url opts w = Inl e
          | Inr v \<Rightarrow> holds w' v (raw_value h url opts w))"
proof (cases "readFile h url")
  case (Inl m)
  with assms have "r = Inl (Err SystemErr m)" "w' = emit (RawRead url) w"
    by (auto simp: raw_tier_def andThen_def)
  with Inl show ?thesis by (simp add: raw_value_def) (simp add: emit_def)
next
  case doc: (Inr doc)
  let ?w0 = "emit (RawRead url) w"
  have m0: "modules ?w0 = modules w" by (simp add: emit_def)
  have e0: "extends w ?w0" by simp
  from assms doc have t0: "andThen (parse h doc (reviver opts)) (\<lambda>parsed.
     andThen (deepClone h parsed) (\<lambda>val.
     andThen (run_validate opts val) (\<lambda>_. ret val))) ?w0 = (r, w')"
    by (simp add: raw_tier_def andThen_def)
  show ?thesis
  proof (cases "JSON_parse h doc (reviver opts)")
    case (Inl e)
    with t0 have "r = Inl e" "w' = ?w0"
      by (simp_all add: andThen_def parse_def throw_def)
    with doc Inl m0 show ?thesis by (simp add: raw_value_def)
  next
    case rv: (Inr rv)
    have fin: "extends w w' \<and> modules w' = modules w
       \<and> (case r of
            Inl e \<Rightarrow> (case cloned h j of Inl e \<Rightarrow> Inl e | Inr j' \<Rightarrow> checked opts j') = Inl e
          | Inr v \<Rightarrow> holds w' v (case cloned h j of Inl e \<Rightarrow> Inl e | Inr j' \<Rightarrow> checked opts j'))"
      if c: "cell w1 a = Some j" and e1: "extends w w1" and m1: "modules w1 = modules w"
        and t: "andThen (deepClone h (Cell a)) (\<lambda>val.
                  andThen (run_validate opts val) (\<lambda>_. ret val)) w1 = (r, w')"
      for w1 a j
    proof (cases "cloned h j")
      case (Inl e)
      with t clone_validate_value [OF c, of h opts] have "r = Inl e" "w' = w1" by simp_all
      with Inl e1 m1 show ?thesis by simp
    next
      case (Inr j')
      let ?w2 = "w1\<lparr>heap := heap w1 @ [j']\<rparr>"
      have e2: "extends w ?w2" using e1 extends_grow [of w1] by (rule extends_trans)
      have m2: "modules ?w2 = modules w" using m1 by simp
      show ?thesis
      proof (cases "checked opts j'")
        case (Inl e)
        with t clone_validate_value [OF c, of h opts] Inr have "r = Inl e" "w' = ?w2"
          by simp_all
        with Inl Inr e2 m2 show ?thesis by simp
      next
        case ok: (Inr j'')
        with checked_same [OF ok] have j'': "checked opts j' = Inr j'" by simp
        with t clone_validate_value [OF c, of h opts] Inr
        have "r = Inr (Cell (length (heap w1)))" "w' = ?w2" by simp_all
        with Inr j'' e2 m2 holds_new [of w1 j'] show ?thesis by simp
      qed
    qed
    show ?thesis
    proof (cases rv)
      case (Built j)
      let ?w1 = "?w0\<lparr>heap := heap ?w0 @ [j]\<rparr>"
      from t0 rv Built have t1: "andThen (deepClone h (Cell (length (heap ?w0)))) (\<lambda>val.
                  andThen (run_validate opts val) (\<lambda>_. ret val)) ?w1 = (r, w')"
        by (simp add: andThen_def parse_def store_value)
      have c: "cell ?w1 (length (heap ?w0)) = Some j" by (rule cell_new)
      have e1: "extends w ?w1" using e0 extends_grow [of ?w0] by (rule extends_trans)
      have m1: "modules ?w1 = modules w" by (simp add: emit_def)
      have "raw_value h url opts w
              = (case cloned h j of Inl e \<Rightarrow> Inl e | Inr j' \<Rightarrow> checked opts j')"
        using doc rv Built by (simp add: raw_value_def revived_tree_def)
      with fin [OF c e1 m1 t1] show ?thesis by (cases r) simp_all
    next
      case (Kept a)
      from t0 rv Kept have t1: "andThen (deepClone h (Cell a)) (\<lambda>val.
                  andThen (run_validate opts val) (\<lambda>_. ret val)) ?w0 = (r, w')"
        by (simp add: andThen_def parse_def ret_def)
      show ?thesis
      proof (cases "cell w a")
        case None
        then have "cell ?w0 a = None" by simp
        from deepClone_none [OF this, of h] t1 have "r = Inl (Err CloneErr ''no such object'')" "w' = ?w0"
          by (simp_all add: andThen_def)
        with doc rv Kept None m0 show ?thesis by (simp add: raw_value_def revived_tree_def)
      next
        case (Some j)
        then have c: "cell ?w0 a = Some j" by simp
        have "raw_value h url opts w
                = (case cloned h j of Inl e \<Rightarrow> Inl e | Inr j' \<Rightarrow> checked opts j')"
          using doc rv Kept Some by (simp add: raw_value_def revived_tree_def)
        with fin [OF c e0 m0 t1] show ?thesis by (cases r) simp_all
      qed
    qed
  qed
qed

lemma raw_tier_succeeds:
  assumes "raw_value h url opts w = Inr j"
  shows "\<exists>a w'. raw_tier h url opts w = (Inr (Cell a), w') \<and> cell w' a = Some j"
proof -
  obtain r w' where t: "raw_tier h url opts w = (r, w')" by (cases "raw_tier h url opts w")
  from raw_tier_value [OF t] assms show ?thesis
    unfolding t by (cases r) (auto simp: holds_def)
qed

lemma raw_tier_fails:
  assumes "raw_value h url opts w = Inl e"
  shows "\<exists>w'. raw_tier h url opts w = (Inl e, w')"
proof -
  obtain r w' where t: "raw_tier h url opts w = (r, w')" by (cases "raw_tier h url opts w")
  from raw_tier_value [OF t] assms show ?thesis
    unfolding t by (cases r) (auto simp: holds_def)
qed

section \<open>Loading against an explicit base\<close>

lemma wisp_with_base_quiet:
  assumes "base opts = Some b" and "truthy b"
  shows "quiet w (snd (wisp n h input opts w))"
proof (induction n arbitrary: input w)
  case 0
  show ?case by simp
next
  case (Suc n)
  obtain r0 where r0: "resolve_url h input opts w = (r0, w)"
    using resolve_url_with_base [OF assms, of h input w] by (cases "resolve_url h input opts w") simp
  show ?case
  proof (cases r0)
    case (Inl e)
    with r0 show ?thesis by simp
  next
    case (Inr url)
    obtain r1 w1 where t1: "import_tier h True url opts w = (r1, w1)"
      by (cases "import_tier h True url opts w")
    obtain r2 w2 where t2: "import_tier h False url opts w1 = (r2, w2)"
      by (cases "import_tier h False url opts w1")
    obtain r3 w3 where t3: "raw_tier h url opts w2 = (r3, w3)"
      by (cases "raw_tier h url opts w2")
    have s1: "quiet w w1"
      using keepsD [OF keeps_quiet_import_tier t1] .
    have s2: "quiet w w2"
      using keepsD [OF keeps_quiet_import_tier t2] s1 by (blast intro: quiet_trans)
    have s3: "quiet w w3"
      using keepsD [OF keeps_quiet_raw_tier t3] s2 by (blast intro: quiet_trans)
    have ih: "quiet w (snd (wisp n h fb opts w3))" for fb
      using Suc.IH [of w3 fb] s3 by (blast intro: quiet_trans)
    show ?thesis
      using r0 Inr t1 t2 t3 s1 s2 s3 ih
      by (simp split: sum.split option.split)
  qed
qed

lemma wispSync_with_base_quiet:
  assumes "base opts = Some b" and "truthy b"
  shows "quiet w (snd (wispSync n h input opts w))"
proof (induction n arbitrary: input w)
  case 0
  show ?case by simp
next
  case (Suc n)
  obtain r0 where r0: "resolve_url h input opts w = (r0, w)"
    using resolve_url_with_base [OF assms, of h input w] by (cases "resolve_url h input opts w") simp
  show ?case
  proof (cases r0)
    case (Inl e)
    with r0 show ?thesis by simp
  next
    case (Inr url)
    obtain r3 w3 where t3: "raw_tier h url opts w = (r3, w3)"
      by (cases "raw_tier h url opts w")
    have s3: "quiet w w3"
      using keepsD [OF keeps_quiet_raw_tier t3] .
    have ih: "quiet w (snd (wispSync n h fb opts w3))" for fb
      using Suc.IH [of w3 fb] s3 by (blast intro: quiet_trans)
    show ?thesis
      using r0 Inr t3 s3 ih
      by (simp split: sum.split option.split)
  qed
qed

lemma wisp_first_import:
  assumes "base opts = Some b" and "truthy b"
    and "resolve_url h input opts w = (Inr url, w0)"
  shows "quiet (emit (ImportTried True url) w0) (snd (wisp (Suc n) h input opts w))"
proof -
  let ?s = "emit (ImportTried True url) w0"
  obtain r1 w1 where t1: "import_tier h True url opts w0 = (r1, w1)"
    by (cases "import_tier h True url opts w0")
  obtain r2 w2 where t2: "import_tier h False url opts w1 = (r2, w2)"
    by (cases "import_tier h False url opts w1")
  obtain r3 w3 where t3: "raw_tier h url opts w2 = (r3, w3)"
    by (cases "raw_tier h url opts w2")
  have s1: "quiet ?s w1"
    using import_tier_quiet [of True url w0 h opts] t1 by simp
  have s2: "quiet ?s w2"
    using keepsD [OF keeps_quiet_import_tier t2] s1 by (blast intro: quiet_trans)
  have s3: "quiet ?s w3"
    using keepsD [OF keeps_quiet_raw_tier t3] s2 by (blast intro: quiet_trans)
  have rec: "quiet ?s (snd (wisp n h fb opts w3))" for fb
    using wisp_with_base_quiet [OF assms(1,2), of w3 n h fb] s3 by (blast intro: quiet_trans)
  show ?thesis
    using assms(3) t1 t2 t3 s1 s2 s3 rec
    by (simp split: sum.split option.split)
qed

lemma wispSync_first_read:
  assumes "base opts = Some b" and "truthy b"
    and "resolve_url h input opts w = (Inr url, w0)"
  shows "quiet (emit (RawRead url) w0) (snd (wispSync (Suc n) h input opts w))"
proof -
  let ?s = "emit (RawRead url) w0"
  obtain r3 w3 where t3: "raw_tier h url opts w0 = (r3, w3)"
    by (cases "raw_tier h url opts w0")
  have s3: "quiet ?s w3"
    using raw_tier_quiet [of url w0 h opts] t3 by simp
  have rec: "quiet ?s (snd (wispSync n h fb opts w3))" for fb
    using wispSync_with_base_quiet [OF assms(1,2), of w3 n h fb] s3 by (blast intro: quiet_trans)
  show ?thesis
    using assms(3) t3 s3 rec
    by (simp split: sum.split option.split)
qed

text \<open>
  C10, as the code has it. For a string reference that is neither a \<^verbatim>\<open>file://\<close>
  locator nor an absolute path, loaded with a \<^verbatim>\<open>base\<close> that passes the test
  \<^verbatim>\<open>if (base)\<close>, which is a \<^verbatim>\<open>URL\<close> object or a string that is not empty. The
  location both loaders compute is \<^verbatim>\<open>new URL(reference, new URL(base))\<close>, and computing
  it changes nothing.
  Where a constructor throws, both loaders fail with that exception. Where it gives the
  location \<open>u\<close>: the load is the load of the URL object \<open>u\<close>; the first thing \<^verbatim>\<open>wisp\<close>
  does is the modern import of \<open>u\<close> and the first thing \<^verbatim>\<open>wispSync\<close> does is the read of
  \<open>u\<close>, and what that step yields, when it succeeds, is what the loader returns. Nothing
  either loader does afterwards, the re-dispatch on a fallback included, samples the
  stack.
\<close>

theorem base_overrides_caller_detection:
  assumes "\<not> prefix ''file://'' s" and "\<not> isAbsolute h s"
    and "base opts = Some b" and "truthy b"
  shows "resolve_url h (RStr s) opts w = (url_from_base h s b, w)
       \<and> (\<forall>e. url_from_base h s b = Inl e \<longrightarrow>
            wisp (Suc n) h (RStr s) opts w = (Some (Inl e), w)
          \<and> wispSync (Suc n) h (RStr s) opts w = (Some (Inl e), w))
       \<and> (\<forall>u. url_from_base h s b = Inr u \<longrightarrow>
            wisp (Suc n) h (RStr s) opts w = wisp (Suc n) h (RUrl u) opts w
          \<and> wispSync (Suc n) h (RStr s) opts w = wispSync (Suc n) h (RUrl u) opts w
          \<and> (\<exists>later. trace (snd (wisp (Suc n) h (RStr s) opts w))
                        = later @ ImportTried True u # trace w
                      \<and> StackSampled \<notin> set later)
          \<and> (\<exists>later. trace (snd (wispSync (Suc n) h (RStr s) opts w))
                        = later @ RawRead u # trace w
                      \<and> StackSampled \<notin> set later)
          \<and> (\<forall>v w1. import_tier h True u opts w = (Inr v, w1) \<longrightarrow>
                wisp (Suc n) h (RStr s) opts w = (Some (Inr v), w1))
          \<and> (\<forall>v w1. raw_tier h u opts w = (Inr v, w1) \<longrightarrow>
                wispSync (Suc n) h (RStr s) opts w = (Some (Inr v), w1)))
       \<and> samplings (snd (wisp n h (RStr s) opts w)) = samplings w
       \<and> samplings (snd (wispSync n h (RStr s) opts w)) = samplings w"
proof -
  have r: "resolve_url h (RStr s) opts w = (url_from_base h s b, w)"
    using assms by (simp add: resolve_url_def)
  have fail: "wisp (Suc n) h (RStr s) opts w = (Some (Inl e), w)
          \<and> wispSync (Suc n) h (RStr s) opts w = (Some (Inl e), w)"
    if "url_from_base h s b = Inl e" for e
    using r that by simp
  have ok: "wisp (Suc n) h (RStr s) opts w = wisp (Suc n) h (RUrl u) opts w
          \<and> wispSync (Suc n) h (RStr s) opts w = wispSync (Suc n) h (RUrl u) opts w
          \<and> (\<exists>later. trace (snd (wisp (Suc n) h (RStr s) opts w))
                        = later @ ImportTried True u # trace w
                      \<and> StackSampled \<notin> set later)
          \<and> (\<exists>later. trace (snd (wispSync (Suc n) h (RStr s) opts w))
                        = later @ RawRead u # trace w
                      \<and> StackSampled \<notin> set later)
          \<and> (\<forall>v w1. import_tier h True u opts w = (Inr v, w1) \<longrightarrow>
                wisp (Suc n) h (RStr s) opts w = (Some (Inr v), w1))
          \<and> (\<forall>v w1. raw_tier h u opts w = (Inr v, w1) \<longrightarrow>
                wispSync (Suc n) h (RStr s) opts w = (Some (Inr v), w1))"
    if u: "url_from_base h s b = Inr u" for u
  proof -
    from r u have ru: "resolve_url h (RStr s) opts w = (Inr u, w)" by simp
    have rd: "resolve_url h (RUrl u) opts w = (Inr u, w)"
      by (simp add: resolve_url_def ret_def)
    have 1: "wisp (Suc n) h (RStr s) opts w = wisp (Suc n) h (RUrl u) opts w"
      by (simp add: ru rd)
    have 2: "wispSync (Suc n) h (RStr s) opts w = wispSync (Suc n) h (RUrl u) opts w"
      by (simp add: ru rd)
    note 3 = quiet_after_emit [OF wisp_first_import [OF assms(3,4) ru, of n]]
    note 4 = quiet_after_emit [OF wispSync_first_read [OF assms(3,4) ru, of n]]
    have 5: "\<forall>v w1. import_tier h True u opts w = (Inr v, w1) \<longrightarrow>
                wisp (Suc n) h (RStr s) opts w = (Some (Inr v), w1)"
      by (simp add: ru)
    have 6: "\<forall>v w1. raw_tier h u opts w = (Inr v, w1) \<longrightarrow>
                wispSync (Suc n) h (RStr s) opts w = (Some (Inr v), w1)"
      by (simp add: ru)
    from 1 2 3 4 5 6 show ?thesis by (intro conjI)
  qed
  have sa: "samplings (snd (wisp n h (RStr s) opts w)) = samplings w"
    by (rule quiet_samplings [OF wisp_with_base_quiet [OF assms(3,4)]])
  have ss: "samplings (snd (wispSync n h (RStr s) opts w)) = samplings w"
    by (rule quiet_samplings [OF wispSync_with_base_quiet [OF assms(3,4)]])
  from r fail ok sa ss show ?thesis by (intro conjI allI impI) blast+
qed

text \<open>
  A load of \<^verbatim>\<open>sample.json\<close> against the base \<^verbatim>\<open>file:///app/data/index.mjs\<close>, and a load
  against a base that is no URL.
\<close>

theorem base_overrides_caller_detection_witness:
  "fst (resolve_url demo_host (RStr ''sample.json'') based_options world0)
     = Inr ''file:///app/data/sample.json''
   \<and> wisp 1 demo_host (RStr ''sample.json'') based_options world0
     = wisp 1 demo_host (RUrl ''file:///app/data/sample.json'') based_options world0
   \<and> fst (wisp 1 demo_host (RStr ''sample.json'') based_options world0) = Some (Inr (Cell 0))
   \<and> trace (snd (wisp 1 demo_host (RStr ''sample.json'') based_options world0))
     = [ImportTried True ''file:///app/data/sample.json'']
   \<and> fst (wispSync 1 demo_host (RStr ''sample.json'') based_options world0)
     = Some (Inr (Cell 1))
   \<and> trace (snd (wispSync 1 demo_host (RStr ''sample.json'') based_options world0))
     = [RawRead ''file:///app/data/sample.json'']
   \<and> samplings (snd (wisp 1 demo_host (RStr ''sample.json'') based_options world0)) = 0
   \<and> samplings (snd (wispSync 1 demo_host (RStr ''sample.json'') based_options world0)) = 0
   \<and> samplings (snd (wisp 1 demo_host (RStr ''sample.json'') no_options world0)) = 2
   \<and> wisp 1 demo_host (RStr ''sample.json'') (no_options\<lparr>base := Some (RStr ''data'')\<rparr>) world0
     = (Some (Inl (Err TypeErr ''Invalid URL'')), world0)
   \<and> wispSync 1 demo_host (RStr ''sample.json'') (no_options\<lparr>base := Some (RStr ''data'')\<rparr>) world0
     = (Some (Inl (Err TypeErr ''Invalid URL'')), world0)"
proof -
  let ?u = "''file:///app/data/sample.json''"
  let ?bad = "no_options\<lparr>base := Some (RStr ''data'')\<rparr>"
  have a: "\<not> prefix ''file://'' ''sample.json''" by simp
  have b: "\<not> isAbsolute demo_host ''sample.json''" by (simp add: demo_host_def)
  have c: "base based_options = Some (RStr ''file:///app/data/index.mjs'')"
    by (simp add: based_options_def no_options_def)
  have d: "truthy (RStr ''file:///app/data/index.mjs'')" by simp
  have c': "base ?bad = Some (RStr ''data'')" by simp
  have d': "truthy (RStr ''data'')" by simp
  have u: "url_from_base demo_host ''sample.json'' (RStr ''file:///app/data/index.mjs'') = Inr ?u"
    by code_simp
  have u': "url_from_base demo_host ''sample.json'' (RStr ''data'') = Inl (Err TypeErr ''Invalid URL'')"
    by code_simp
  have z: "samplings world0 = 0" "trace world0 = []" by (simp_all add: samplings_def world0_def)
  have ra: "fst (wisp 1 demo_host (RStr ''sample.json'') based_options world0)
             = Some (Inr (Cell 0))" by code_simp
  have rs: "fst (wispSync 1 demo_host (RStr ''sample.json'') based_options world0)
             = Some (Inr (Cell 1))" by code_simp
  have ta: "trace (snd (wisp 1 demo_host (RStr ''sample.json'') based_options world0))
             = [ImportTried True ?u]" by code_simp
  have ts: "trace (snd (wispSync 1 demo_host (RStr ''sample.json'') based_options world0))
             = [RawRead ?u]" by code_simp
  have s: "samplings (snd (wisp 1 demo_host (RStr ''sample.json'') no_options world0)) = 2"
    by code_simp
  note t = base_overrides_caller_detection [OF a b c d, of world0 0, unfolded u]
  note t' = base_overrides_caller_detection [OF a b c' d', of world0 0, unfolded u']
  from t have t1: "resolve_url demo_host (RStr ''sample.json'') based_options world0
     = (Inr ?u, world0)" by blast
  from t have t2: "wisp 1 demo_host (RStr ''sample.json'') based_options world0
     = wisp 1 demo_host (RUrl ?u) based_options world0"
    unfolding One_nat_def by blast
  from t have t3: "samplings (snd (wisp 0 demo_host (RStr ''sample.json'') based_options world0))
     = samplings world0" by blast
  from t' have t4: "wisp 1 demo_host (RStr ''sample.json'') ?bad world0
     = (Some (Inl (Err TypeErr ''Invalid URL'')), world0)"
     and t5: "wispSync 1 demo_host (RStr ''sample.json'') ?bad world0
     = (Some (Inl (Err TypeErr ''Invalid URL'')), world0)"
    unfolding One_nat_def by blast+
  note smp = base_overrides_caller_detection [OF a b c d, of world0 1,
      THEN conjunct2, THEN conjunct2, THEN conjunct2, unfolded z]
  have s1: "samplings (snd (wisp 1 demo_host (RStr ''sample.json'') based_options world0)) = 0"
    by (rule smp [THEN conjunct1])
  have s2: "samplings (snd (wispSync 1 demo_host (RStr ''sample.json'') based_options world0)) = 0"
    by (rule smp [THEN conjunct2])
  have t1': "fst (resolve_url demo_host (RStr ''sample.json'') based_options world0) = Inr ?u"
    using t1 by simp
  show ?thesis
    by (intro conjI) (fact t1' t2 ra ta rs ts s1 s2 s t4 t5)+
qed

text \<open>
  The empty string as the base is supplied and does not pass \<^verbatim>\<open>if (base)\<close>:
  \<^verbatim>\<open>new URL("data/sample.json", new URL(""))\<close> throws, and both loaders resolve the
  reference against the caller's directory instead, sampling the stack once.
\<close>

theorem empty_base_counterexample:
  "base empty_base_options = Some (RStr [])
   \<and> \<not> prefix ''file://'' ''data/sample.json''
   \<and> \<not> isAbsolute demo_host ''data/sample.json''
   \<and> url_from_base demo_host ''data/sample.json'' (RStr []) = Inl (Err TypeErr ''Invalid URL'')
   \<and> fst (resolve_url demo_host (RStr ''data/sample.json'') empty_base_options world0)
       = Inr ''file:///app/data/sample.json''
   \<and> fst (wisp 1 demo_host (RStr ''data/sample.json'') empty_base_options world0)
       = Some (Inr (Cell 0))
   \<and> samplings (snd (wisp 1 demo_host (RStr ''data/sample.json'') empty_base_options world0))
       = 1
   \<and> fst (wispSync 1 demo_host (RStr ''data/sample.json'') empty_base_options world0)
       = Some (Inr (Cell 1))
   \<and> samplings (snd (wispSync 1 demo_host (RStr ''data/sample.json'') empty_base_options world0))
       = 1
   \<and> samplings world0 = 0"
  by code_simp

section \<open>Re-dispatch on the fallback\<close>




section \<open>Validation failures\<close>

lemma revived_tree_later:
  assumes "extends w w'" and "revived_tree w rv = Inr j"
  shows "revived_tree w' rv = Inr j"
proof (cases rv)
  case (Built x)
  with assms(2) show ?thesis by (simp add: revived_tree_def)
next
  case (Kept a)
  with assms(2) have "cell w a = Some j"
    by (simp add: revived_tree_def split: option.splits)
  from extends_cell [OF assms(1) this] Kept show ?thesis by (simp add: revived_tree_def)
qed

lemma raw_tier_validate_throws:
  assumes "readFile h url = Inr doc" and "JSON_parse h doc (reviver opts) = Inr rv"
    and "revived_tree w rv = Inr j"
    and "has_structuredClone h" and "validate opts = Some f" and "f j = Some X"
  shows "fst (raw_tier h url opts w) = Inl (Err PlainErr (''@cldmv/wisp: '' @ X))"
proof -
  from assms have "raw_value h url opts w = Inl (Err PlainErr (''@cldmv/wisp: '' @ X))"
    by (simp add: raw_value_def cloned_def checked_def)
  from raw_tier_fails [OF this] show ?thesis by auto
qed

text \<open>
  C2. What the code does when \<^verbatim>\<open>validate\<close> throws \<^verbatim>\<open>X\<close> on the value the raw-read tier
  obtained (the parsed tree, or the object the reviver handed back) and no fallback is
  set: the \<^verbatim>\<open>Error\<close> with message \<^verbatim>\<open>@cldmv/wisp: X\<close> is thrown
  inside the outer \<^verbatim>\<open>try\<close>, whose \<^verbatim>\<open>catch\<close> wraps it again, so the call fails with
  \<^verbatim>\<open>@cldmv/wisp: Failed to load JSON file at <href>: @cldmv/wisp: X\<close>, the message of a
  load failure, in \<^verbatim>\<open>wispSync\<close> and, once both import tiers have failed, in \<^verbatim>\<open>wisp\<close>.
  The message \<^verbatim>\<open>@cldmv/wisp: X\<close> itself, which the README documents, never reaches the
  caller.
\<close>

theorem validation_failure_rewrapped:
  assumes "resolve_url h input opts w = (Inr url, w0)"
    and "readFile h url = Inr doc" and "JSON_parse h doc (reviver opts) = Inr rv"
    and "revived_tree w0 rv = Inr j"
    and "has_structuredClone h"
    and "validate opts = Some f" and "f j = Some X"
    and "fallback opts = None"
    and "import_tier h True url opts w0 = (Inl e1, w1)"
    and "import_tier h False url opts w1 = (Inl e2, w2)"
    and "the_type opts = ''json''"
  shows "fst (wispSync (Suc n) h input opts w)
           = Some (Inl (Err PlainErr (''@cldmv/wisp: Failed to load JSON file at '' @ url
                                        @ '': @cldmv/wisp: '' @ X)))
       \<and> fst (wisp (Suc n) h input opts w)
           = Some (Inl (Err PlainErr (''@cldmv/wisp: Failed to load JSON file at '' @ url
                                        @ '': @cldmv/wisp: '' @ X)))"
proof
  obtain r a where s: "raw_tier h url opts w0 = (r, a)" by (cases "raw_tier h url opts w0")
  with raw_tier_validate_throws [OF assms(2-7)]
  have "r = Inl (Err PlainErr (''@cldmv/wisp: '' @ X))" by simp
  with s assms(1,8) show "fst (wispSync (Suc n) h input opts w)
           = Some (Inl (Err PlainErr (''@cldmv/wisp: Failed to load JSON file at '' @ url
                                        @ '': @cldmv/wisp: '' @ X)))"
    by (simp add: failed_to_load_def)
  obtain r' a' where s': "raw_tier h url opts w2 = (r', a')" by (cases "raw_tier h url opts w2")
  have "extends w0 w2"
    using keepsD [OF keeps_extends_import_tier assms(9)]
      keepsD [OF keeps_extends_import_tier assms(10)] by (rule extends_trans)
  from revived_tree_later [OF this assms(4)] s'
    raw_tier_validate_throws [OF assms(2,3) _ assms(5-7), of w2]
  have "r' = Inl (Err PlainErr (''@cldmv/wisp: '' @ X))" by simp
  with s' assms(1,8-11) show "fst (wisp (Suc n) h input opts w)
           = Some (Inl (Err PlainErr (''@cldmv/wisp: Failed to load JSON file at '' @ url
                                        @ '': @cldmv/wisp: '' @ X)))"
    by (simp add: failed_to_load_def)
qed

theorem validation_failure_rewrapped_witness:
  "fst (wispSync 1 demo_host (RStr ''/app/data/sample.json'') rejecting_options world0)
     = Some (Inl (Err PlainErr
         ''@cldmv/wisp: Failed to load JSON file at file:///app/data/sample.json: @cldmv/wisp: X''))
   \<and> fst (wisp 1 demo_host (RStr ''/app/data/sample.json'') rejecting_options world0)
     = Some (Inl (Err PlainErr
         ''@cldmv/wisp: Failed to load JSON file at file:///app/data/sample.json: @cldmv/wisp: X''))
   \<and> ''@cldmv/wisp: Failed to load JSON file at file:///app/data/sample.json: @cldmv/wisp: X''
     \<noteq> ''@cldmv/wisp: X''"
proof -
  let ?u = "''file:///app/data/sample.json''"
  let ?w1 = "snd (import_tier demo_host True ?u rejecting_options world0)"
  let ?w2 = "snd (import_tier demo_host False ?u rejecting_options ?w1)"
  have r: "resolve_url demo_host (RStr ''/app/data/sample.json'') rejecting_options world0
             = (Inr ?u, world0)"
    by (simp add: resolve_url_def demo_host_def ret_def)
  have f: "readFile demo_host ?u = Inr ''[1]''" by code_simp
  have p: "JSON_parse demo_host ''[1]'' (reviver rejecting_options) = Inr (Built (JArr [JNum 1]))"
    by code_simp
  have q: "revived_tree world0 (Built (JArr [JNum 1])) = Inr (JArr [JNum 1])"
    by (simp add: revived_tree_def)
  have c: "has_structuredClone demo_host" by code_simp
  have v: "validate rejecting_options = Some (\<lambda>j. Some ''X'')"
    by (simp add: rejecting_options_def no_options_def)
  have x: "(\<lambda>j. Some ''X'') (JArr [JNum 1]) = Some ''X''" by simp
  have n: "fallback rejecting_options = None"
    by (simp add: rejecting_options_def no_options_def)
  have i1: "fst (import_tier demo_host True ?u rejecting_options world0)
              = Inl (Err PlainErr ''@cldmv/wisp: X'')" by code_simp
  have i2: "fst (import_tier demo_host False ?u rejecting_options ?w1)
              = Inl (Err TypeErr ''Module needs an import attribute of type json'')" by code_simp
  have t: "the_type rejecting_options = ''json''" by code_simp
  have j1: "import_tier demo_host True ?u rejecting_options world0
              = (Inl (Err PlainErr ''@cldmv/wisp: X''), ?w1)"
    using i1 fst_snd_pair [of "import_tier demo_host True ?u rejecting_options world0"] by simp
  have j2: "import_tier demo_host False ?u rejecting_options ?w1
              = (Inl (Err TypeErr ''Module needs an import attribute of type json''), ?w2)"
    using i2 fst_snd_pair [of "import_tier demo_host False ?u rejecting_options ?w1"] by simp
  from validation_failure_rewrapped [OF r f p q c v x n j1 j2 t, of 0]
  show ?thesis by simp
qed

section \<open>The declared type\<close>

lemma resolve_url_type: "resolve_url h input (opts\<lparr>type := t\<rparr>) = resolve_url h input opts"
  by (cases input) (simp_all add: resolve_url_def)

lemma run_validate_type: "run_validate (opts\<lparr>type := t\<rparr>) = run_validate opts"
  by (rule ext)+ (simp add: run_validate_def)

lemma raw_tier_type: "raw_tier h url (opts\<lparr>type := t\<rparr>) = raw_tier h url opts"
  by (simp add: raw_tier_def run_validate_type)

text \<open>
  C3. What the code does: \<^verbatim>\<open>wispSync\<close> binds \<^verbatim>\<open>type\<close> and never reads it, so a load with
  any declared type is the load with the default type: the raw-read tier is entered and
  the file is parsed as JSON. The asynchronous loader does gate the raw read on the type:
  it never reads, and fails with the unsupported-type message once both import tiers
  have failed (\<open>async_non_json_never_reads\<close>, \<open>async_non_json_unsupported\<close> below).
\<close>

theorem sync_loader_ignores_type:
  "wispSync n h input (opts\<lparr>type := t\<rparr>) w = wispSync n h input opts w"
proof (induction n arbitrary: input w)
  case 0
  show ?case by simp
next
  case (Suc n)
  show ?case
    by (simp add: resolve_url_type raw_tier_type Suc.IH
        split: prod.split sum.split option.split)
qed

lemma async_non_json_unsupported:
  assumes "the_type opts \<noteq> ''json''" and "resolve_url h input opts w = (Inr url, w0)"
    and "import_tier h True url opts w0 = (Inl e1, w1)"
    and "import_tier h False url opts w1 = (Inl e2, w2)"
  shows "wisp (Suc n) h input opts w = (Some (Inl (unsupported_type (the_type opts) url)), w2)"
  using assms by simp

lemma async_non_json_never_reads:
  assumes "the_type opts \<noteq> ''json''" and "resolve_url h input opts w = (Inr url, w0)"
  shows "raw_reads (trace (snd (wisp (Suc n) h input opts w))) = raw_reads (trace w0)"
proof -
  obtain r1 w1 where t1: "import_tier h True url opts w0 = (r1, w1)"
    by (cases "import_tier h True url opts w0")
  obtain r2 w2 where t2: "import_tier h False url opts w1 = (r2, w2)"
    by (cases "import_tier h False url opts w1")
  from import_tier_trace [of h True url opts w0] t1
  have 1: "raw_reads (trace w1) = raw_reads (trace w0)" by simp
  from import_tier_trace [of h False url opts w1] t2 1
  have 2: "raw_reads (trace w2) = raw_reads (trace w0)" by simp
  from assms t1 t2 1 2 show ?thesis
    by (simp split: sum.split)
qed

theorem sync_loader_ignores_type_witness:
  "fst (wispSync 1 demo_host (RStr ''/app/data/sample.json'') yaml_options world0)
     = Some (Inr (Cell 1))
   \<and> cell (snd (wispSync 1 demo_host (RStr ''/app/data/sample.json'') yaml_options world0)) 1
     = Some (JArr [JNum 1])
   \<and> raw_reads (trace (snd (wispSync 1 demo_host (RStr ''/app/data/sample.json'') yaml_options world0)))
     = [''file:///app/data/sample.json'']
   \<and> fst (wispSync 1 demo_host (RStr ''/app/data/missing.json'') yaml_options world0)
     = Some (Inl (Err PlainErr
         ''@cldmv/wisp: Failed to load JSON file at file:///app/data/missing.json: ENOENT: no such file or directory''))
   \<and> fst (wisp 1 demo_host (RStr ''/app/data/sample.json'') yaml_options world0)
     = Some (Inl (Err PlainErr
         (''@cldmv/wisp: Unsupported type '' @ [CHR 0x27] @ ''yaml'' @ [CHR 0x27]
          @ '' or failed to load module at file:///app/data/sample.json'')))"
proof -
  have y: "yaml_options = no_options\<lparr>type := Some ''yaml''\<rparr>" by (simp add: yaml_options_def)
  have a: "fst (wispSync 1 demo_host (RStr ''/app/data/sample.json'') no_options world0)
     = Some (Inr (Cell 1))" by code_simp
  have b: "cell (snd (wispSync 1 demo_host (RStr ''/app/data/sample.json'') no_options world0)) 1
     = Some (JArr [JNum 1])" by code_simp
  have c: "raw_reads (trace (snd (wispSync 1 demo_host (RStr ''/app/data/sample.json'') no_options world0)))
     = [''file:///app/data/sample.json'']" by code_simp
  have d: "fst (wispSync 1 demo_host (RStr ''/app/data/missing.json'') no_options world0)
     = Some (Inl (Err PlainErr
         ''@cldmv/wisp: Failed to load JSON file at file:///app/data/missing.json: ENOENT: no such file or directory''))"
    by code_simp
  have e: "fst (wisp 1 demo_host (RStr ''/app/data/sample.json'') yaml_options world0)
     = Some (Inl (Err PlainErr
         (''@cldmv/wisp: Unsupported type '' @ [CHR 0x27] @ ''yaml'' @ [CHR 0x27]
          @ '' or failed to load module at file:///app/data/sample.json'')))" by code_simp
  show ?thesis
    unfolding y sync_loader_ignores_type
      [where n = 1 and h = demo_host and opts = no_options and t = "Some ''yaml''" and w = world0]
    using a b c d e [unfolded y] by (intro conjI)
qed

section \<open>Ownership of the loaded value\<close>

lemma import_module_registered:
  "import_module h m u t w = (Inr md, w') \<Longrightarrow> modules w' u = Some md"
  by (auto simp: import_module_def Let_def register_def alloc_def emit_def
      split: sum.splits option.splits format.splits prod.splits)

lemma import_module_accepted:
  "import_module h m u t w = (Inr md, w') \<Longrightarrow> \<exists>fmt. module_format h m u t = Inr fmt"
  by (auto simp: import_module_def Let_def split: sum.splits)

lemma import_module_hit:
  assumes "module_format h m u t = Inr fmt" and "modules w u = Some md"
  shows "import_module h m u t w = (Inr md, emit (ImportTried m u) w)"
  using assms by (simp add: import_module_def Let_def emit_def)

lemma import_tier_plain:
  assumes "reviver opts = None" and "validate opts = None"
    and "import_module h m u (the_type opts) w = (Inr md, w')"
  shows "import_tier h m u opts w = (Inr (default_or_mod u md w'), w')"
  using assms by (simp add: import_tier_def andThen_def)

lemma default_or_mod_cell:
  "default_export md = Some d \<Longrightarrow> cell w d = Some j \<Longrightarrow> j \<noteq> JNull \<Longrightarrow>
   default_or_mod u md w = Cell d"
  by (cases j) (simp_all add: default_or_mod_def)

lemma registry_object_default_or_mod:
  "modules w u = Some md \<Longrightarrow> registry_object w (default_or_mod u md w)"
  by (auto simp: registry_object_def default_or_mod_def split: option.split json.split)

lemma gives_fresh_parse_builds:
  assumes "\<forall>t j a. f t j \<noteq> Inr (Kept a)"
  shows "gives_fresh (parse h doc (Some f))"
  using assms
  by (auto simp: parse_def JSON_parse_def gives_fresh_throw gives_fresh_store
      split: sum.split revived.split)

lemma gives_fresh_revive:
  assumes "reviver opts = Some f" and "builds opts"
  shows "gives_fresh (revive h opts v)"
proof -
  from assms have "\<forall>t j a. f t j \<noteq> Inr (Kept a)" by (simp add: builds_def)
  from gives_fresh_parse_builds [OF this] show ?thesis
    by (auto simp: gives_fresh_def revive_def assms(1) split: option.splits)
qed

lemma gives_fresh_import_tier:
  assumes "builds opts" and "reviver opts \<noteq> None \<or> validate opts \<noteq> None"
  shows "gives_fresh (import_tier h m u opts)"
proof -
  have "gives_fresh
      (andThen (deepClone h v) (\<lambda>val.
         andThen (revive h opts val) (\<lambda>val2.
         andThen (run_validate opts val2) (\<lambda>_. ret val2))))" for v
  proof (cases "reviver opts")
    case None
    then show ?thesis
      using gives_fresh_then_validate [OF gives_fresh_deepClone, of h v opts]
      by (simp add: revive_def andThen_ret)
  next
    case (Some f)
    show ?thesis
      by (intro gives_fresh_after gives_fresh_keeps [OF gives_fresh_deepClone]
          gives_fresh_then_validate gives_fresh_revive [OF Some assms(1)])
  qed
  then have "gives_fresh (\<lambda>w.
            andThen (deepClone h (default_or_mod u x w)) (\<lambda>val.
              andThen (revive h opts val) (\<lambda>val2.
              andThen (run_validate opts val2) (\<lambda>_. ret val2))) w)" for x
    unfolding gives_fresh_def by blast
  moreover from assms(2) have "import_tier h m u opts =
          andThen (import_module h m u (the_type opts)) (\<lambda>x w.
            andThen (deepClone h (default_or_mod u x w)) (\<lambda>val.
              andThen (revive h opts val) (\<lambda>val2.
              andThen (run_validate opts val2) (\<lambda>_. ret val2))) w)"
    by (cases "reviver opts"; cases "validate opts") (simp_all add: import_tier_def)
  ultimately show ?thesis
    by (simp add: gives_fresh_after [OF keeps_extends_import_module])
qed

lemma import_tier_result:
  assumes "import_tier h m u opts w = (r, w')"
  shows "extends w w'
       \<and> (\<forall>v. well_formed w \<and> r = Inr v \<and> builds opts \<longrightarrow>
            fresh w w' v
          \<or> (reviver opts = None \<and> validate opts = None \<and> registry_object w' v))"
proof -
  from keepsD [OF keeps_extends_import_tier assms] have e: "extends w w'" .
  have "fresh w w' v
          \<or> (reviver opts = None \<and> validate opts = None \<and> registry_object w' v)"
    if wf: "well_formed w" and r: "r = Inr v" and b: "builds opts" for v
  proof (cases "reviver opts = None \<and> validate opts = None")
    case False
    then have "reviver opts \<noteq> None \<or> validate opts \<noteq> None" by simp
    from gives_freshD(2) [OF gives_fresh_import_tier [OF b this] assms [unfolded r] wf]
    show ?thesis by simp
  next
    case both: True
    then have rv: "reviver opts = None" and True: "validate opts = None" by simp_all
    obtain r1 w1 where i: "import_module h m u (the_type opts) w = (r1, w1)"
      by (cases "import_module h m u (the_type opts) w")
    show ?thesis
    proof (cases r1)
      case (Inl x)
      with assms i r show ?thesis by (simp add: import_tier_def andThen_def)
    next
      case (Inr md)
      from import_tier_plain [OF rv True i [unfolded Inr]] assms r
      have "v = default_or_mod u md w1" "w' = w1" by simp_all
      with import_module_registered [OF i [unfolded Inr]] rv True show ?thesis
        by (simp add: registry_object_default_or_mod)
    qed
  qed
  with e show ?thesis by blast
qed

lemma wispSync_result:
  "wispSync n h input opts w = (r, w') \<Longrightarrow>
   extends w w' \<and> (\<forall>v. well_formed w \<and> r = Some (Inr v) \<longrightarrow> fresh w w' v)"
proof (induction n arbitrary: input w)
  case 0
  then show ?case by auto
next
  case (Suc n)
  obtain r0 w0 where r0: "resolve_url h input opts w = (r0, w0)"
    by (cases "resolve_url h input opts w")
  from resolve_url_extends [OF r0] have e0: "extends w w0" .
  show ?case
  proof (cases r0)
    case (Inl e)
    with Suc.prems r0 e0 show ?thesis by auto
  next
    case (Inr url)
    obtain r1 w1 where r1: "raw_tier h url opts w0 = (r1, w1)"
      by (cases "raw_tier h url opts w0")
    from gives_freshD(1) [OF gives_fresh_raw_tier r1] e0 have e1: "extends w w1"
      by (blast intro: extends_trans)
    show ?thesis
    proof (cases r1)
      case (Inr v)
      from gives_freshD(2) [OF gives_fresh_raw_tier r1 [unfolded Inr]] e0
      have "well_formed w \<Longrightarrow> fresh w w1 v"
        by (auto simp: extends_def intro: fresh_extends [OF e0])
      with Suc.prems r0 \<open>r0 = Inr url\<close> r1 Inr e1 show ?thesis by auto
    next
      case (Inl e)
      show ?thesis
      proof (cases "\<exists>fb. fallback opts = Some fb \<and> truthy fb")
        case False
        with Suc.prems r0 \<open>r0 = Inr url\<close> r1 Inl e1 show ?thesis
          by (auto split: option.splits)
      next
        case True
        then obtain fb where fb: "fallback opts = Some fb" "truthy fb" by blast
        with Suc.prems r0 \<open>r0 = Inr url\<close> r1 Inl
        have rec: "wispSync n h fb opts w1 = (r, w')" by simp
        from Suc.IH [OF rec] e1 show ?thesis
          by (auto simp: extends_def intro: extends_trans fresh_extends [OF e1])
      qed
    qed
  qed
qed

lemma wisp_result:
  "wisp n h input opts w = (r, w') \<Longrightarrow>
   extends w w'
   \<and> (\<forall>v. well_formed w \<and> r = Some (Inr v) \<and> builds opts \<longrightarrow>
        fresh w w' v
      \<or> (reviver opts = None \<and> validate opts = None \<and> registry_object w' v))"
proof (induction n arbitrary: input w)
  case 0
  then show ?case by auto
next
  case (Suc n)
  let ?Q = "\<lambda>w w' v. fresh w w' v
              \<or> (reviver opts = None \<and> validate opts = None \<and> registry_object w' v)"
  have up: "?Q a c v" if "extends a b" "?Q b c v" for a b c v
    using that by (auto intro: fresh_extends)
  obtain r0 w0 where r0: "resolve_url h input opts w = (r0, w0)"
    by (cases "resolve_url h input opts w")
  from resolve_url_extends [OF r0] have e0: "extends w w0" .
  show ?case
  proof (cases r0)
    case (Inl e)
    with Suc.prems r0 e0 show ?thesis by auto
  next
    case url: (Inr url)
    obtain r1 w1 where t1: "import_tier h True url opts w0 = (r1, w1)"
      by (cases "import_tier h True url opts w0")
    note p1 = import_tier_result [OF t1]
    from p1 e0 have e1: "extends w w1" by (blast intro: extends_trans)
    show ?thesis
    proof (cases r1)
      case (Inr v)
      with Suc.prems r0 url t1 have "r = Some (Inr v)" "w' = w1" by auto
      moreover have "?Q w w1 v" if wf: "well_formed w" and rv: "builds opts"
      proof -
        from wf e0 have "well_formed w0" by (simp add: extends_def)
        with p1 Inr rv have "?Q w0 w1 v" by blast
        with e0 show ?thesis by (rule up)
      qed
      ultimately show ?thesis using e1 by auto
    next
      case i1: (Inl x1)
      obtain r2 w2 where t2: "import_tier h False url opts w1 = (r2, w2)"
        by (cases "import_tier h False url opts w1")
      note p2 = import_tier_result [OF t2]
      from p2 e1 have e2: "extends w w2" by (blast intro: extends_trans)
      show ?thesis
      proof (cases r2)
        case (Inr v)
        with Suc.prems r0 url t1 i1 t2 have "r = Some (Inr v)" "w' = w2" by auto
        moreover have "?Q w w2 v" if wf: "well_formed w" and rv: "builds opts"
        proof -
          from wf e1 have "well_formed w1" by (simp add: extends_def)
          with p2 Inr rv have "?Q w1 w2 v" by blast
          with e1 show ?thesis by (rule up)
        qed
        ultimately show ?thesis using e2 by auto
      next
        case i2: (Inl x2)
        show ?thesis
        proof (cases "the_type opts = ''json''")
          case False
          with Suc.prems r0 url t1 i1 t2 i2 e2 show ?thesis by auto
        next
          case True
          obtain r3 w3 where t3: "raw_tier h url opts w2 = (r3, w3)"
            by (cases "raw_tier h url opts w2")
          from gives_freshD(1) [OF gives_fresh_raw_tier t3] e2 have e3: "extends w w3"
            by (blast intro: extends_trans)
          show ?thesis
          proof (cases r3)
            case (Inr v)
            with Suc.prems r0 url t1 i1 t2 i2 True t3 have "r = Some (Inr v)" "w' = w3"
              by auto
            moreover have "well_formed w \<Longrightarrow> fresh w w3 v"
              using gives_freshD(2) [OF gives_fresh_raw_tier t3 [unfolded Inr]] e2
              by (auto simp: extends_def intro: fresh_extends [OF e2])
            ultimately show ?thesis using e3 by auto
          next
            case (Inl e)
            show ?thesis
            proof (cases "\<exists>fb. fallback opts = Some fb \<and> truthy fb")
              case False
              with Suc.prems r0 url t1 i1 t2 i2 True t3 Inl e3 show ?thesis
                by (auto split: option.splits)
            next
              case fbt: True
              then obtain fb where fb: "fallback opts = Some fb" "truthy fb" by blast
              with Suc.prems r0 url t1 i1 t2 i2 True t3 Inl
              have rec: "wisp n h fb opts w3 = (r, w')" by simp
              from Suc.IH [OF rec] have
                "extends w3 w'"
                "\<And>v. well_formed w3 \<Longrightarrow> r = Some (Inr v) \<Longrightarrow> builds opts \<Longrightarrow> ?Q w3 w' v"
                by auto
              note ih = this
              from ih(1) e3 have "extends w w'" by (blast intro: extends_trans)
              moreover have "?Q w w' v"
                if wf: "well_formed w" and rv: "r = Some (Inr v)" and nr: "builds opts"
                for v
              proof -
                from wf e3 have "well_formed w3" by (simp add: extends_def)
                from ih(2) [OF this rv nr] have "?Q w3 w' v" .
                with e3 show ?thesis by (rule up)
              qed
              ultimately show ?thesis by blast
            qed
          qed
        qed
      qed
    qed
  qed
qed

lemma wisp_from_raw_tier:
  assumes "well_formed w" and "resolve_url h input opts w = (Inr url, w0)"
    and "import_tier h True url opts w0 = (Inl e1, a1)"
    and "import_tier h False url opts a1 = (Inl e2, a2)"
    and "the_type opts = ''json''"
    and "raw_tier h url opts a2 = (Inr v, w')"
  shows "wisp (Suc n) h input opts w = (Some (Inr v), w') \<and> fresh w w' v"
proof -
  from resolve_url_extends [OF assms(2)] keepsD [OF keeps_extends_import_tier assms(3)]
    keepsD [OF keeps_extends_import_tier assms(4)]
  have e: "extends w a2" by (blast intro: extends_trans)
  with assms(1) have "well_formed a2" by (simp add: extends_def)
  from gives_freshD(2) [OF gives_fresh_raw_tier assms(6) this] e
  have "fresh w w' v" by (rule fresh_extends [rotated])
  with assms show ?thesis by simp
qed

lemma wisp_shares_export_legacy:
  assumes "resolve_url h input opts w = (Inr url, w0)"
    and "import_tier h True url opts w0 = (Inl e1, a1)"
    and "import_module h False url (the_type opts) a1 = (Inr md, w1)"
    and "default_export md = Some d" and "cell w1 d = Some j" and "j \<noteq> JNull"
    and "reviver opts = None" and "validate opts = None"
  shows "wisp (Suc n) h input opts w = (Some (Inr (Cell d)), w1)"
    and "modules w1 url = Some md"
    and "\<not> fresh w w1 (Cell d)"
proof -
  from import_tier_plain [OF assms(7,8,3)] default_or_mod_cell [OF assms(4,5,6)]
  have t: "import_tier h False url opts a1 = (Inr (Cell d), w1)" by simp
  with assms(1,2) show "wisp (Suc n) h input opts w = (Some (Inr (Cell d)), w1)" by simp
  from import_module_registered [OF assms(3)] show m: "modules w1 url = Some md" .
  with assms(4) show "\<not> fresh w w1 (Cell d)" by (auto simp: fresh_def)
qed

lemma wisp_shares_export:
  assumes "resolve_url h input opts w = (Inr url, w0)"
    and "import_module h True url (the_type opts) w0 = (Inr md, w1)"
    and "default_export md = Some d" and "cell w1 d = Some j" and "j \<noteq> JNull"
    and "reviver opts = None" and "validate opts = None"
  shows "wisp (Suc n) h input opts w = (Some (Inr (Cell d)), w1)"
    and "modules w1 url = Some md"
    and "\<not> fresh w w1 (Cell d)"
    and "resolve_url h input opts w1 = (Inr url, w2) \<Longrightarrow>
         wisp (Suc k) h input opts w1 = (Some (Inr (Cell d)), emit (ImportTried True url) w2)"
proof -
  from import_tier_plain [OF assms(6,7,2)] default_or_mod_cell [OF assms(3,4,5)]
  have t: "import_tier h True url opts w0 = (Inr (Cell d), w1)" by simp
  with assms(1) show "wisp (Suc n) h input opts w = (Some (Inr (Cell d)), w1)" by simp
  from import_module_registered [OF assms(2)] show m: "modules w1 url = Some md" .
  with assms(3) show "\<not> fresh w w1 (Cell d)" by (auto simp: fresh_def)
  assume r: "resolve_url h input opts w1 = (Inr url, w2)"
  from keepsD [OF keeps_store_resolve_url r] have s: "same_store w1 w2" .
  with m have m2: "modules w2 url = Some md" by (simp add: same_store_def)
  from s assms(4) have c2: "cell (emit (ImportTried True url) w2) d = Some j"
    by (simp add: same_store_def cell_def emit_def split: if_splits)
  from import_module_accepted [OF assms(2)] obtain fmt
    where "module_format h True url (the_type opts) = Inr fmt" by blast
  from import_module_hit [OF this m2]
  have "import_module h True url (the_type opts) w2 = (Inr md, emit (ImportTried True url) w2)" .
  from import_tier_plain [OF assms(6,7) this] default_or_mod_cell [OF assms(3) c2 assms(5)]
  have "import_tier h True url opts w2 = (Inr (Cell d), emit (ImportTried True url) w2)" by simp
  with r show "wisp (Suc k) h input opts w1 = (Some (Inr (Cell d)), emit (ImportTried True url) w2)"
    by simp
qed

text \<open>
  C1, as the code has it. From a world whose registry is well formed. Every value
  \<^verbatim>\<open>wispSync\<close> returns is a cell allocated during the call which is the default export
  of no module; so is every value \<^verbatim>\<open>wisp\<close> returns from the raw-read tier; and so is,
  when the reviver, if there is one, builds what it returns, every object of the heap
  \<^verbatim>\<open>wisp\<close> returns at all, unless \<^verbatim>\<open>reviver\<close> and \<^verbatim>\<open>validate\<close> are both missing and
  the object is the default export of a module. When neither \<^verbatim>\<open>reviver\<close> nor \<^verbatim>\<open>validate\<close>
  is supplied and an import succeeds with a default export other than \<^verbatim>\<open>null\<close>, the
  modern one or, after it failed, the one with \<^verbatim>\<open>assert\<close>, \<^verbatim>\<open>wisp\<close> returns that export
  itself, the cell the registry holds for the module (lines 86 and 101); a second load
  of the same reference, served by the modern import, returns the same cell. Two
  successive \<^verbatim>\<open>wispSync\<close> loads of one reference return different cells, and an
  assignment through the first leaves what the second refers to unchanged.
\<close>

theorem loaded_value_ownership:
  assumes "well_formed w"
  shows "(wispSync n h input opts w = (Some (Inr v), w') \<longrightarrow> fresh w w' v)
       \<and> (resolve_url h input opts w = (Inr url, w0)
          \<and> import_tier h True url opts w0 = (Inl e1, a1)
          \<and> import_tier h False url opts a1 = (Inl e2, a2)
          \<and> the_type opts = ''json''
          \<and> raw_tier h url opts a2 = (Inr v, w') \<longrightarrow>
            wisp (Suc n) h input opts w = (Some (Inr v), w') \<and> fresh w w' v)
       \<and> (wisp n h input opts w = (Some (Inr (Cell c)), w') \<and> builds opts \<longrightarrow>
            fresh w w' (Cell c)
          \<or> (reviver opts = None \<and> validate opts = None
             \<and> (\<exists>u md. modules w' u = Some md \<and> default_export md = Some c)))
       \<and> (resolve_url h input opts w = (Inr url, w0)
          \<and> import_module h True url (the_type opts) w0 = (Inr md, w1)
          \<and> default_export md = Some d \<and> cell w1 d = Some j \<and> j \<noteq> JNull
          \<and> reviver opts = None \<and> validate opts = None \<longrightarrow>
            wisp (Suc n) h input opts w = (Some (Inr (Cell d)), w1)
          \<and> modules w1 url = Some md
          \<and> \<not> fresh w w1 (Cell d)
          \<and> (\<forall>w2. resolve_url h input opts w1 = (Inr url, w2) \<longrightarrow>
                wisp (Suc k) h input opts w1
                  = (Some (Inr (Cell d)), emit (ImportTried True url) w2)))
       \<and> (resolve_url h input opts w = (Inr url, w0)
          \<and> import_tier h True url opts w0 = (Inl e1, a1)
          \<and> import_module h False url (the_type opts) a1 = (Inr md, w1)
          \<and> default_export md = Some d \<and> cell w1 d = Some j \<and> j \<noteq> JNull
          \<and> reviver opts = None \<and> validate opts = None \<longrightarrow>
            wisp (Suc n) h input opts w = (Some (Inr (Cell d)), w1)
          \<and> modules w1 url = Some md
          \<and> \<not> fresh w w1 (Cell d))
       \<and> (wispSync n h input opts w = (Some (Inr (Cell a)), s1)
          \<and> wispSync m h input opts s1 = (Some (Inr (Cell b)), s2) \<longrightarrow>
            a \<noteq> b \<and> cell (mutate a x s2) b = cell s2 b)"
proof (intro conjI impI)
  assume "wispSync n h input opts w = (Some (Inr v), w')"
  from wispSync_result [OF this] assms show "fresh w w' v" by simp
next
  assume a: "resolve_url h input opts w = (Inr url, w0)
          \<and> import_tier h True url opts w0 = (Inl e1, a1)
          \<and> import_tier h False url opts a1 = (Inl e2, a2)
          \<and> the_type opts = ''json''
          \<and> raw_tier h url opts a2 = (Inr v, w')"
  then show "wisp (Suc n) h input opts w = (Some (Inr v), w')" and "fresh w w' v"
    using wisp_from_raw_tier [OF assms, of h input opts url w0 e1 a1 e2 a2 v w' n] by simp_all
next
  assume "wisp n h input opts w = (Some (Inr (Cell c)), w') \<and> builds opts"
  with wisp_result [of n h input opts w "Some (Inr (Cell c))" w'] assms
  show "fresh w w' (Cell c)
          \<or> (reviver opts = None \<and> validate opts = None
             \<and> (\<exists>u md. modules w' u = Some md \<and> default_export md = Some c))"
    by (simp add: registry_object_def)
next
  assume a: "resolve_url h input opts w = (Inr url, w0)
          \<and> import_module h True url (the_type opts) w0 = (Inr md, w1)
          \<and> default_export md = Some d \<and> cell w1 d = Some j \<and> j \<noteq> JNull
          \<and> reviver opts = None \<and> validate opts = None"
  then have p: "resolve_url h input opts w = (Inr url, w0)"
    "import_module h True url (the_type opts) w0 = (Inr md, w1)"
    "default_export md = Some d" "cell w1 d = Some j" "j \<noteq> JNull"
    "reviver opts = None" "validate opts = None" by simp_all
  show "wisp (Suc n) h input opts w = (Some (Inr (Cell d)), w1)"
    by (rule wisp_shares_export(1) [OF p])
  show "modules w1 url = Some md"
    by (rule wisp_shares_export(2) [OF p])
  show "\<not> fresh w w1 (Cell d)"
    by (rule wisp_shares_export(3) [OF p])
  show "\<forall>w2. resolve_url h input opts w1 = (Inr url, w2) \<longrightarrow>
                wisp (Suc k) h input opts w1
                  = (Some (Inr (Cell d)), emit (ImportTried True url) w2)"
    using wisp_shares_export(4) [OF p] by blast
next
  assume a: "resolve_url h input opts w = (Inr url, w0)
          \<and> import_tier h True url opts w0 = (Inl e1, a1)
          \<and> import_module h False url (the_type opts) a1 = (Inr md, w1)
          \<and> default_export md = Some d \<and> cell w1 d = Some j \<and> j \<noteq> JNull
          \<and> reviver opts = None \<and> validate opts = None"
  then have p: "resolve_url h input opts w = (Inr url, w0)"
    "import_tier h True url opts w0 = (Inl e1, a1)"
    "import_module h False url (the_type opts) a1 = (Inr md, w1)"
    "default_export md = Some d" "cell w1 d = Some j" "j \<noteq> JNull"
    "reviver opts = None" "validate opts = None" by simp_all
  show "wisp (Suc n) h input opts w = (Some (Inr (Cell d)), w1)"
    by (rule wisp_shares_export_legacy(1) [OF p])
  show "modules w1 url = Some md"
    by (rule wisp_shares_export_legacy(2) [OF p])
  show "\<not> fresh w w1 (Cell d)"
    by (rule wisp_shares_export_legacy(3) [OF p])
next
  assume a: "wispSync n h input opts w = (Some (Inr (Cell a)), s1)
          \<and> wispSync m h input opts s1 = (Some (Inr (Cell b)), s2)"
  from a wispSync_result [of n h input opts w _ s1] assms
  have 1: "fresh w s1 (Cell a)" "well_formed s1" by (auto simp: extends_def)
  from a wispSync_result [of m h input opts s1 _ s2] 1(2)
  have 2: "fresh s1 s2 (Cell b)" by auto
  from 1(1) 2 show ab: "a \<noteq> b" by (auto simp: fresh_def)
  then show "cell (mutate a x s2) b = cell s2 b" by (rule cell_mutate_other)
qed

text \<open>
  Two \<^verbatim>\<open>wisp\<close> loads of one reference with no options, on the current runtime: both
  return cell 0, the cell the registry holds for the module, so an assignment through
  the first result is visible through the second, and a load made after the assignment
  returns the changed content.
\<close>

theorem loaded_value_shared_counterexample:
  "fst (wisp 1 demo_host (RStr ''/app/data/sample.json'') no_options world0)
     = Some (Inr (Cell 0))
   \<and> modules (snd (wisp 1 demo_host (RStr ''/app/data/sample.json'') no_options world0))
       ''file:///app/data/sample.json'' = Some (Module (Some 0) [])
   \<and> fst (wisp 1 demo_host (RStr ''/app/data/sample.json'') no_options
           (snd (wisp 1 demo_host (RStr ''/app/data/sample.json'') no_options world0)))
     = Some (Inr (Cell 0))
   \<and> cell (snd (wisp 1 demo_host (RStr ''/app/data/sample.json'') no_options
           (snd (wisp 1 demo_host (RStr ''/app/data/sample.json'') no_options world0)))) 0
     = Some (JArr [JNum 1])
   \<and> cell (mutate 0 (JArr [JNum 2])
           (snd (wisp 1 demo_host (RStr ''/app/data/sample.json'') no_options
              (snd (wisp 1 demo_host (RStr ''/app/data/sample.json'') no_options world0))))) 0
     = Some (JArr [JNum 2])
   \<and> fst (wisp 1 demo_host (RStr ''/app/data/sample.json'') no_options
           (mutate 0 (JArr [JNum 2])
              (snd (wisp 1 demo_host (RStr ''/app/data/sample.json'') no_options world0))))
     = Some (Inr (Cell 0))
   \<and> cell (snd (wisp 1 demo_host (RStr ''/app/data/sample.json'') no_options
           (mutate 0 (JArr [JNum 2])
              (snd (wisp 1 demo_host (RStr ''/app/data/sample.json'') no_options world0))))) 0
     = Some (JArr [JNum 2])"
  by code_simp

text \<open>
  With a reviver that hands back an object it holds (here the export of an earlier
  load, cell 0), the import tier returns that very object: line 88 copies before the
  reviver runs and not after. The raw-read tier copies last (line 117), so
  \<^verbatim>\<open>wispSync\<close> returns a new cell.
\<close>

lemma revived_object_returned_uncopied:
  "fst (wisp 1 demo_host (RStr ''/app/data/sample.json'') keeping_options
          (snd (wisp 1 demo_host (RStr ''/app/data/sample.json'') no_options world0)))
     = Some (Inr (Cell 0))
   \<and> fst (wispSync 1 demo_host (RStr ''/app/data/sample.json'') keeping_options
          (snd (wisp 1 demo_host (RStr ''/app/data/sample.json'') no_options world0)))
     = Some (Inr (Cell 1))"
  by code_simp

text \<open>
  Loads of \<^verbatim>\<open>sample.json\<close> from the empty world: by \<^verbatim>\<open>wispSync\<close>; by \<^verbatim>\<open>wisp\<close> on the old
  runtime, where the raw-read tier serves it; by \<^verbatim>\<open>wisp\<close> with a \<^verbatim>\<open>validate\<close> and with
  a reviver that builds; by \<^verbatim>\<open>wisp\<close> with no options, twice; by \<^verbatim>\<open>wisp\<close> with no options
  on the runtime that honours \<^verbatim>\<open>assert\<close> only; and by \<^verbatim>\<open>wispSync\<close> twice.
\<close>

theorem loaded_value_ownership_witness:
  "well_formed world0
   \<and> fst (wispSync 1 demo_host (RStr ''/app/data/sample.json'') no_options world0)
       = Some (Inr (Cell 1))
   \<and> fresh world0
       (snd (wispSync 1 demo_host (RStr ''/app/data/sample.json'') no_options world0)) (Cell 1)
   \<and> fst (wisp (Suc 0) old_host (RStr ''/app/data/sample.json'') no_options world0)
       = Some (Inr (Cell 1))
   \<and> fresh world0
       (snd (wisp (Suc 0) old_host (RStr ''/app/data/sample.json'') no_options world0)) (Cell 1)
   \<and> fst (wisp 1 demo_host (RStr ''/app/data/sample.json'') accepting_options world0)
       = Some (Inr (Cell 1))
   \<and> fresh world0
       (snd (wisp 1 demo_host (RStr ''/app/data/sample.json'') accepting_options world0)) (Cell 1)
   \<and> builds accepting_options \<and> builds reviving_options
   \<and> fst (wisp 1 demo_host (RStr ''/app/data/sample.json'') reviving_options world0)
       = Some (Inr (Cell 2))
   \<and> fresh world0
       (snd (wisp 1 demo_host (RStr ''/app/data/sample.json'') reviving_options world0)) (Cell 2)
   \<and> fst (wisp (Suc 0) demo_host (RStr ''/app/data/sample.json'') no_options world0)
       = Some (Inr (Cell 0))
   \<and> \<not> fresh world0
       (snd (wisp (Suc 0) demo_host (RStr ''/app/data/sample.json'') no_options world0)) (Cell 0)
   \<and> fst (wisp (Suc 0) demo_host (RStr ''/app/data/sample.json'') no_options
           (snd (wisp (Suc 0) demo_host (RStr ''/app/data/sample.json'') no_options world0)))
       = Some (Inr (Cell 0))
   \<and> fst (wisp (Suc 0) legacy_host (RStr ''/app/data/sample.json'') no_options world0)
       = Some (Inr (Cell 0))
   \<and> \<not> fresh world0
       (snd (wisp (Suc 0) legacy_host (RStr ''/app/data/sample.json'') no_options world0)) (Cell 0)
   \<and> fst (wispSync 1 demo_host (RStr ''/app/data/sample.json'') no_options
           (snd (wispSync 1 demo_host (RStr ''/app/data/sample.json'') no_options world0)))
       = Some (Inr (Cell 3))
   \<and> cell (mutate 1 JNull
         (snd (wispSync 1 demo_host (RStr ''/app/data/sample.json'') no_options
           (snd (wispSync 1 demo_host (RStr ''/app/data/sample.json'') no_options world0))))) 3
       = cell (snd (wispSync 1 demo_host (RStr ''/app/data/sample.json'') no_options
           (snd (wispSync 1 demo_host (RStr ''/app/data/sample.json'') no_options world0)))) 3"
proof -
  let ?r = "RStr ''/app/data/sample.json''"
  let ?u = "''file:///app/data/sample.json''"
  let ?s1 = "wispSync 1 demo_host ?r no_options world0"
  let ?s2 = "wispSync 1 demo_host ?r no_options (snd ?s1)"
  let ?a1 = "wisp 1 demo_host ?r accepting_options world0"
  let ?v1 = "wisp 1 demo_host ?r reviving_options world0"
  let ?i = "import_module demo_host True ?u (the_type no_options) world0"
  let ?o1 = "import_tier old_host True ?u no_options world0"
  let ?o2 = "import_tier old_host False ?u no_options (snd ?o1)"
  let ?o3 = "raw_tier old_host ?u no_options (snd ?o2)"
  have wf: "well_formed world0" by (simp add: well_formed_def world0_def)
  note own = loaded_value_ownership [OF wf]
  have f1: "fst ?s1 = Some (Inr (Cell 1))" by code_simp
  have f2: "fst ?s2 = Some (Inr (Cell 3))" by code_simp
  have f3: "fst ?a1 = Some (Inr (Cell 1))" by code_simp
  have p1: "?s1 = (Some (Inr (Cell 1)), snd ?s1)" using f1 by (rule pair_of_fst)
  have p2: "?s2 = (Some (Inr (Cell 3)), snd ?s2)" using f2 by (rule pair_of_fst)
  have p3: "?a1 = (Some (Inr (Cell 1)), snd ?a1)" using f3 by (rule pair_of_fst)
  have f4: "fst ?v1 = Some (Inr (Cell 2))" by code_simp
  have p4: "?v1 = (Some (Inr (Cell 2)), snd ?v1)" using f4 by (rule pair_of_fst)
  have b: "builds accepting_options" "builds reviving_options"
    by (simp_all add: builds_def accepting_options_def reviving_options_def no_options_def)
  have rs: "reviver reviving_options \<noteq> None"
    by (simp add: reviving_options_def no_options_def)
  have nr: "reviver accepting_options = None" "validate accepting_options \<noteq> None"
    "reviver no_options = None" "validate no_options = None"
    by (simp_all add: accepting_options_def no_options_def)
  from own [THEN conjunct1, of 1 demo_host ?r no_options "Cell 1" "snd ?s1"] p1
  have c1: "fresh world0 (snd ?s1) (Cell 1)" by simp
  have ro: "resolve_url h ?r no_options world0 = (Inr ?u, world0)"
    if "h = demo_host \<or> h = old_host \<or> h = legacy_host" for h
    using that by (auto simp: resolve_url_def demo_host_def old_host_def legacy_host_def ret_def)
  have o1: "?o1 = (Inl (Err SyntaxErr ''Unexpected token''), snd ?o1)"
    by (rule pair_of_fst) code_simp
  have o2: "?o2 = (Inl (Err SyntaxErr ''Unexpected token''), snd ?o2)"
    by (rule pair_of_fst) code_simp
  have o3: "?o3 = (Inr (Cell 1), snd ?o3)"
    by (rule pair_of_fst) code_simp
  have ty: "the_type no_options = ''json''" by code_simp
  have oprem: "resolve_url old_host ?r no_options world0 = (Inr ?u, world0)
      \<and> ?o1 = (Inl (Err SyntaxErr ''Unexpected token''), snd ?o1)
      \<and> ?o2 = (Inl (Err SyntaxErr ''Unexpected token''), snd ?o2)
      \<and> the_type no_options = ''json''
      \<and> ?o3 = (Inr (Cell 1), snd ?o3)"
    by (intro conjI ro [OF disjI2 [OF disjI1 [OF refl]]] o1 o2 ty o3)
  note raw = own [THEN conjunct2, THEN conjunct1, THEN mp, OF oprem, of 0]
  have c2: "fst (wisp (Suc 0) old_host ?r no_options world0) = Some (Inr (Cell 1))"
    using raw [THEN conjunct1] by simp
  have c3: "fresh world0 (snd (wisp (Suc 0) old_host ?r no_options world0)) (Cell 1)"
    using raw by simp
  from own [THEN conjunct2, THEN conjunct2, THEN conjunct1,
      of 1 demo_host ?r accepting_options 1 "snd ?a1"] p3 nr b
  have c4: "fresh world0 (snd ?a1) (Cell 1)" by simp
  from own [THEN conjunct2, THEN conjunct2, THEN conjunct1,
      of 1 demo_host ?r reviving_options 2 "snd ?v1"] p4 rs b
  have c4r: "fresh world0 (snd ?v1) (Cell 2)" by simp
  have i: "?i = (Inr (Module (Some 0) []), snd ?i)"
    by (rule pair_of_fst) code_simp
  have ci: "cell (snd ?i) 0 = Some (JArr [JNum 1])" by code_simp
  have sprem: "resolve_url demo_host ?r no_options world0 = (Inr ?u, world0)
      \<and> ?i = (Inr (Module (Some 0) []), snd ?i)
      \<and> default_export (Module (Some 0) []) = Some 0
      \<and> cell (snd ?i) 0 = Some (JArr [JNum 1]) \<and> JArr [JNum 1] \<noteq> JNull
      \<and> reviver no_options = None \<and> validate no_options = None"
    by (intro conjI ro [OF disjI1 [OF refl]] i ci nr) simp_all
  note share = own [THEN conjunct2, THEN conjunct2, THEN conjunct2, THEN conjunct1, THEN mp,
      OF sprem, of 0 0]
  from share have w1: "wisp (Suc 0) demo_host ?r no_options world0
      = (Some (Inr (Cell 0)), snd ?i)" by blast
  have c5: "fst (wisp (Suc 0) demo_host ?r no_options world0) = Some (Inr (Cell 0))"
    unfolding w1 by simp
  from share have c6: "\<not> fresh world0 (snd (wisp (Suc 0) demo_host ?r no_options world0)) (Cell 0)"
    unfolding w1 by simp
  have r2: "resolve_url demo_host ?r no_options (snd ?i) = (Inr ?u, snd ?i)"
    by (simp add: resolve_url_def demo_host_def ret_def)
  from share r2 have "wisp (Suc 0) demo_host ?r no_options (snd ?i)
      = (Some (Inr (Cell 0)), emit (ImportTried True ?u) (snd ?i))" by blast
  then have c7: "fst (wisp (Suc 0) demo_host ?r no_options
           (snd (wisp (Suc 0) demo_host ?r no_options world0))) = Some (Inr (Cell 0))"
    unfolding w1 by simp
  let ?l1 = "import_tier legacy_host True ?u no_options world0"
  let ?l2 = "import_module legacy_host False ?u (the_type no_options) (snd ?l1)"
  have l1: "?l1 = (Inl (Err TypeErr ''Module needs an import attribute of type json''), snd ?l1)"
    by (rule pair_of_fst) code_simp
  have l2: "?l2 = (Inr (Module (Some 0) []), snd ?l2)"
    by (rule pair_of_fst) code_simp
  have cl: "cell (snd ?l2) 0 = Some (JArr [JNum 1])" by code_simp
  have lprem: "resolve_url legacy_host ?r no_options world0 = (Inr ?u, world0)
      \<and> ?l1 = (Inl (Err TypeErr ''Module needs an import attribute of type json''), snd ?l1)
      \<and> ?l2 = (Inr (Module (Some 0) []), snd ?l2)
      \<and> default_export (Module (Some 0) []) = Some 0
      \<and> cell (snd ?l2) 0 = Some (JArr [JNum 1]) \<and> JArr [JNum 1] \<noteq> JNull
      \<and> reviver no_options = None \<and> validate no_options = None"
    by (intro conjI ro [OF disjI2 [OF disjI2 [OF refl]]] l1 l2 cl nr) simp_all
  note leg = own [THEN conjunct2, THEN conjunct2, THEN conjunct2, THEN conjunct2,
      THEN conjunct1, THEN mp, OF lprem, of 0]
  from leg have w9: "wisp (Suc 0) legacy_host ?r no_options world0
      = (Some (Inr (Cell 0)), snd ?l2)" by blast
  have c9: "fst (wisp (Suc 0) legacy_host ?r no_options world0) = Some (Inr (Cell 0))"
    unfolding w9 by simp
  from leg have c10: "\<not> fresh world0 (snd (wisp (Suc 0) legacy_host ?r no_options world0)) (Cell 0)"
    unfolding w9 by simp
  from own [THEN conjunct2, THEN conjunct2, THEN conjunct2, THEN conjunct2, THEN conjunct2,
      of 1 demo_host ?r no_options 1 "snd ?s1" 1 3 "snd ?s2" JNull] p1 p2
  have c8: "cell (mutate 1 JNull (snd ?s2)) 3 = cell (snd ?s2) 3" by simp
  show ?thesis by (intro conjI) (fact wf f1 c1 c2 c3 f3 c4 b f4 c4r c5 c6 c7 c9 c10 f2 c8)+
qed

section \<open>The two loaders compared\<close>

subsection \<open>The location does not depend on the world\<close>

lemma pure_resultD: "pure_result m \<Longrightarrow> fst (m w) = fst (m w2)"
  by (simp add: pure_result_def)

lemma pure_result_const: "pure_result (\<lambda>w. (r, w))"
  by (simp add: pure_result_def)

lemma pure_result_ret: "pure_result (ret x)"
  by (simp add: pure_result_def ret_def)

lemma pure_result_throw: "pure_result (throw e)"
  by (simp add: pure_result_def throw_def)

lemma pure_result_andThen:
  assumes "pure_result m" and "\<And>x. pure_result (f x)"
  shows "pure_result (andThen m f)"
  unfolding pure_result_def
proof (intro allI)
  fix w w2
  obtain r1 w1 where a: "m w = (r1, w1)" by (cases "m w")
  obtain r2 w3 where b: "m w2 = (r2, w3)" by (cases "m w2")
  from pure_resultD [OF assms(1), of w w2] a b have eq: "r2 = r1" by simp
  show "fst (andThen m f w) = fst (andThen m f w2)"
  proof (cases r1)
    case (Inl e)
    with a b eq show ?thesis by (simp add: andThen_def)
  next
    case (Inr x)
    with a b eq pure_resultD [OF assms(2), of x w1 w3] show ?thesis
      by (simp add: andThen_def)
  qed
qed

lemma pure_result_pickPrimary: "pure_result (pickPrimaryBaseFile h)"
  by (simp add: pure_result_def pickPrimaryBaseFile_eq)

lemma pure_result_pickFallback: "pure_result (pickFallbackBaseFile h)"
  by (simp add: pure_result_def pickFallbackBaseFile_eq)

lemma pure_result_exists_url: "pure_result (exists_url h href)"
  by (simp add: pure_result_def exists_url_def exists_path_def throw_def split: option.split)

lemma pure_result_resolveWith:
  assumes "\<And>c. pure_result (exists c)"
  shows "pure_result (resolveWith h rel makePrimary exists makeFallback)"
proof (cases rel)
  case (VStr r)
  have "pure_result (case p of Some b \<Rightarrow> ret b | None \<Rightarrow> pickFallbackBaseFile h)" for p
    by (simp add: pure_result_ret pure_result_pickFallback split: option.split)
  with VStr show ?thesis
    by (simp add: resolveWith_def)
      (intro pure_result_andThen pure_result_pickPrimary pure_result_const assms;
        (assumption | simp add: pure_result_ret pure_result_const
           pure_result_andThen [OF pure_result_pickFallback]))
qed (simp_all add: resolveWith_def pure_result_throw)

lemma pure_result_resolveUrlFromCaller: "pure_result (resolveUrlFromCaller h rel)"
  unfolding resolveUrlFromCaller_def
  by (intro pure_result_andThen pure_result_const;
      (assumption | simp add: pure_result_ret pure_result_throw pure_result_resolveWith
         pure_result_exists_url pure_result_andThen [OF pure_result_const]
         pure_result_andThen [OF pure_result_resolveWith]
         split: jsval.split))

lemma pure_result_resolve_url: "pure_result (resolve_url h input opts)"
proof -
  have c: "pure_result
             (andThen (resolveUrlFromCaller h (VStr s)) (\<lambda>r w. (new_URL_of h r, w)))" for s
    by (intro pure_result_andThen pure_result_resolveUrlFromCaller pure_result_const)
  show ?thesis
    by (cases input)
      (simp_all add: resolve_url_def pure_result_ret pure_result_const c split: option.split)
qed

subsection \<open>A registry that mirrors the files\<close>

lemma coherent_extends:
  assumes "extends w w'" and "modules w' = modules w" and "coherent h w"
  shows "coherent h w'"
  unfolding coherent_def
proof (intro allI impI)
  fix u m
  assume "modules w' u = Some m"
  with assms(2) have "modules w u = Some m" by simp
  with assms(3) obtain doc j d where "readFile h u = Inr doc" "json_text h doc = Inr j"
    "default_export m = Some d" "cell w d = Some j"
    unfolding coherent_def by blast
  with extends_cell [OF assms(1), of d j]
  show "\<exists>doc j d. readFile h u = Inr doc \<and> json_text h doc = Inr j
          \<and> default_export m = Some d \<and> cell w' d = Some j" by blast
qed

lemma mirror_extends:
  assumes "extends w w'" and "modules w' = modules w"
    and "never_imports h \<or> imports_mirror_files h opts w"
  shows "never_imports h \<or> imports_mirror_files h opts w'"
  using assms coherent_extends [OF assms(1,2)] by (auto simp: imports_mirror_files_def)

lemma mirror_same_store:
  assumes "same_store w w'" and "never_imports h \<or> imports_mirror_files h opts w"
  shows "never_imports h \<or> imports_mirror_files h opts w'"
  using mirror_extends [OF same_store_extends [OF assms(1)] _ assms(2)] assms(1)
  by (simp add: same_store_def)

lemma kept_cell:
  assumes "kept_exist opts w0" and "reviver opts = Some f" and "f doc j = Inr (Kept a)"
  obtains ja where "cell w0 a = Some ja"
  using assms by (auto simp: kept_exist_def cell_def)

lemma revived_tree_extends:
  assumes "kept_exist opts w0" and "extends w0 w"
    and "JSON_parse h doc (reviver opts) = Inr rv"
  shows "revived_tree w rv = revived_tree w0 rv"
proof (cases rv)
  case (Built j)
  then show ?thesis by (simp add: revived_tree_def)
next
  case (Kept a)
  with assms(3) obtain f j where "reviver opts = Some f" "f doc j = Inr (Kept a)"
    by (auto simp: JSON_parse_def split: sum.splits option.splits)
  then obtain ja where c: "cell w0 a = Some ja" by (rule kept_cell [OF assms(1)])
  with extends_cell [OF assms(2) c] Kept show ?thesis by (simp add: revived_tree_def)
qed

lemma raw_value_extends:
  assumes "kept_exist opts w0" and "extends w0 w"
  shows "raw_value h url opts w = raw_value h url opts w0"
  using revived_tree_extends [OF assms, of h]
  by (simp add: raw_value_def split: sum.split)

lemma import_module_rejected:
  assumes "never_imports h"
  shows "\<exists>e. import_module h m u t w = (Inl e, emit (ImportTried m u) w)"
proof -
  from assms obtain e where "module_format h m u t = Inl e"
    unfolding never_imports_def by blast
  then show ?thesis by (simp add: import_module_def Let_def)
qed

lemma import_tier_rejected:
  assumes "never_imports h"
  shows "\<exists>e. import_tier h m u opts w = (Inl e, emit (ImportTried m u) w)"
  using import_module_rejected [OF assms, of m u "the_type opts" w]
  by (auto simp: import_tier_def andThen_def)

lemma import_module_coherent:
  assumes jo: "json_only h" and c: "coherent h w"
    and i: "import_module h m u t w = (r, w')"
  shows "coherent h w'
       \<and> (\<forall>md. r = Inr md \<longrightarrow>
            (\<exists>doc j d. readFile h u = Inr doc \<and> json_text h doc = Inr j
                       \<and> default_export md = Some d \<and> cell w' d = Some j))"
proof -
  let ?w = "emit (ImportTried m u) w"
  have ew: "extends w ?w" by simp
  have emod: "modules ?w = modules w" by (simp add: emit_def)
  have cw: "coherent h ?w" by (rule coherent_extends [OF ew emod c])
  from jo have ns: "module_format h m u t \<noteq> Inr ScriptFormat" by (simp add: json_only_def)
  consider (fail) "w' = ?w" "\<exists>e. r = Inl e"
    | (hit) md where "w' = ?w" "r = Inr md" "modules ?w u = Some md"
    | (load) doc j where "readFile h u = Inr doc" "json_text h doc = Inr j"
        "modules ?w u = None" "register u (Some j) [] ?w = (r, w')"
  proof (cases "module_format h m u t")
    case (Inl e)
    with i have "w' = ?w" "\<exists>e. r = Inl e" by (auto simp: import_module_def Let_def)
    then show ?thesis by (rule fail)
  next
    case (Inr fmt)
    with ns have fmt: "module_format h m u t = Inr JsonFormat" by (cases fmt) simp_all
    show ?thesis
    proof (cases "modules ?w u")
      case (Some md)
      with fmt i have "w' = ?w" "r = Inr md" by (auto simp: import_module_def Let_def)
      then show ?thesis using Some by (rule hit)
    next
      case None
      show ?thesis
      proof (cases "readFile h u")
        case (Inl x)
        with fmt None i have "w' = ?w" "\<exists>e. r = Inl e"
          by (auto simp: import_module_def Let_def)
        then show ?thesis by (rule fail)
      next
        case doc: (Inr doc)
        show ?thesis
        proof (cases "json_text h doc")
          case (Inl x)
          with fmt None doc i have "w' = ?w" "\<exists>e. r = Inl e"
            by (auto simp: import_module_def Let_def)
          then show ?thesis by (rule fail)
        next
          case (Inr j)
          with fmt None doc i have "register u (Some j) [] ?w = (r, w')"
            by (simp add: import_module_def Let_def)
          with doc Inr None show ?thesis by (intro load)
        qed
      qed
    qed
  qed
  then show ?thesis
  proof cases
    case fail
    with cw show ?thesis by auto
  next
    case hit
    with cw show ?thesis unfolding coherent_def by blast
  next
    case load
    let ?a = "length (heap ?w)"
    let ?w1 = "?w\<lparr>heap := heap ?w @ [j]\<rparr>"
    from load(4) have r: "r = Inr (Module (Some ?a) [])"
      and w': "w' = ?w1\<lparr>modules := (modules ?w1)(u \<mapsto> Module (Some ?a) [])\<rparr>"
      by (auto simp: register_def alloc_def)
    have c1: "coherent h ?w1"
      by (rule coherent_extends [OF extends_grow _ cw]) simp
    have new: "cell ?w1 ?a = Some j" by (rule cell_new)
    have cells: "cell w' d = cell ?w1 d" for d
      unfolding w' by (simp add: cell_def)
    have "coherent h w'"
      unfolding coherent_def
    proof (intro allI impI)
      fix u' md
      assume md: "modules w' u' = Some md"
      show "\<exists>doc j d. readFile h u' = Inr doc \<and> json_text h doc = Inr j
              \<and> default_export md = Some d \<and> cell w' d = Some j"
      proof (cases "u' = u")
        case True
        with md w' have "md = Module (Some ?a) []" by simp
        with True load(1,2) new cells show ?thesis by auto
      next
        case False
        with md w' have "modules ?w1 u' = Some md" by simp
        with c1 cells show ?thesis unfolding coherent_def by auto
      qed
    qed
    moreover have "cell w' ?a = Some j" using new cells by simp
    ultimately show ?thesis using load(1,2) r by auto
  qed
qed

lemma parse_value:
  "parse h doc r w
     = (case JSON_parse h doc r of
          Inl e \<Rightarrow> (Inl e, w)
        | Inr (Built j) \<Rightarrow> (Inr (Cell (length (heap w))), w\<lparr>heap := heap w @ [j]\<rparr>)
        | Inr (Kept a) \<Rightarrow> (Inr (Cell a), w))"
  by (simp add: parse_def throw_def store_value ret_def split: sum.split revived.split)

lemma validated_holds:
  assumes "cell w a = Some j"
    and "andThen (run_validate opts (Cell a)) (\<lambda>_. ret (Cell a)) w = (r, w')"
    and "x = checked opts j"
  shows "w' = w \<and> (\<forall>v. r = Inr v \<longrightarrow> holds w v x)"
proof (cases "checked opts j")
  case (Inl e)
  with validate_value [OF assms(1), of opts] assms(2) show ?thesis by auto
next
  case (Inr j')
  with checked_same [OF Inr] validate_value [OF assms(1), of opts] assms
  show ?thesis by (auto simp: holds_def)
qed

lemma finish_value:
  assumes sc: "has_structuredClone h"
    and k: "kept_exist opts w0" and e: "extends w0 w1"
    and doc: "readFile h u = Inr doc" and j0: "json_text h doc = Inr j0"
    and ra: "reviver opts \<noteq> None \<longrightarrow>
               JSON_parse h (JSON_stringify h j0) (reviver opts) = JSON_parse h doc (reviver opts)"
    and cd: "cell w1 d = Some j0"
    and t: "andThen (deepClone h (Cell d)) (\<lambda>val.
              andThen (revive h opts val) (\<lambda>val2.
              andThen (run_validate opts val2) (\<lambda>_. ret val2))) w1 = (r, w')"
  shows "modules w' = modules w1 \<and> extends w1 w'
       \<and> (\<forall>v. r = Inr v \<longrightarrow> holds w' v (raw_value h u opts w0))"
proof -
  let ?a1 = "length (heap w1)"
  let ?w2 = "w1\<lparr>heap := heap w1 @ [j0]\<rparr>"
  from sc have cl: "cloned h j = Inr j" for j by (simp add: cloned_def)
  have dc: "deepClone h (Cell d) w1 = (Inr (Cell ?a1), ?w2)"
    using deepClone_value [OF cd, of h] cl by simp
  have n2: "cell ?w2 ?a1 = Some j0" by (rule cell_new)
  have e2: "extends w1 ?w2" by (rule extends_grow)
  have m2: "modules ?w2 = modules w1" by simp
  note t3 = andThen_InrD [OF t dc]
  show ?thesis
  proof (cases "reviver opts")
    case None
    from t3 have v: "andThen (run_validate opts (Cell ?a1)) (\<lambda>_. ret (Cell ?a1)) ?w2 = (r, w')"
      by (simp add: revive_def None andThen_ret)
    have x: "raw_value h u opts w0 = checked opts j0"
      by (simp add: raw_value_def doc JSON_parse_def j0 None revived_tree_def cl)
    from validated_holds [OF n2 v x] e2 show ?thesis by simp
  next
    case (Some f)
    with ra have jp: "JSON_parse h (JSON_stringify h j0) (Some f) = JSON_parse h doc (Some f)"
      by simp
    have rv: "revive h opts (Cell ?a1) ?w2 = parse h (JSON_stringify h j0) (Some f) ?w2"
      using n2 by (simp add: revive_def Some json_of_def)
    show ?thesis
    proof (cases "JSON_parse h doc (Some f)")
      case (Inl err)
      have "revive h opts (Cell ?a1) ?w2 = (Inl err, ?w2)"
        unfolding rv parse_value jp by (simp add: Inl)
      from andThen_InlD [OF t3 this] e2 show ?thesis by simp
    next
      case (Inr made)
      show ?thesis
      proof (cases made)
        case (Built j')
        let ?a2 = "length (heap ?w2)"
        let ?w3 = "?w2\<lparr>heap := heap ?w2 @ [j']\<rparr>"
        have "revive h opts (Cell ?a1) ?w2 = (Inr (Cell ?a2), ?w3)"
          unfolding rv parse_value jp by (simp add: Inr Built)
        note v = andThen_InrD [OF t3 this]
        have n3: "cell ?w3 ?a2 = Some j'" by (rule cell_new)
        have e3: "extends w1 ?w3" by (rule extends_trans [OF e2 extends_grow])
        have x: "raw_value h u opts w0 = checked opts j'"
          by (simp add: raw_value_def doc Some Inr Built revived_tree_def cl)
        from validated_holds [OF n3 v x] e3 show ?thesis by simp
      next
        case (Kept a)
        have "revive h opts (Cell ?a1) ?w2 = (Inr (Cell a), ?w2)"
          unfolding rv parse_value jp by (simp add: Inr Kept)
        note v = andThen_InrD [OF t3 this]
        from Inr Kept have "f doc j0 = Inr (Kept a)"
          by (simp add: JSON_parse_def j0 split: sum.splits)
        with Some obtain ja where c0: "cell w0 a = Some ja"
          by (auto intro: kept_cell [OF k])
        have ca: "cell ?w2 a = Some ja"
          by (rule extends_cell [OF extends_trans [OF e e2] c0])
        have x: "raw_value h u opts w0 = checked opts ja"
          by (simp add: raw_value_def doc Some Inr Kept revived_tree_def c0 cl)
        from validated_holds [OF ca v x] e2 show ?thesis by simp
      qed
    qed
  qed
qed

lemma import_tier_mirrors:
  assumes mf: "imports_mirror_files h opts w"
    and k: "kept_exist opts w0" and e: "extends w0 w"
    and t: "import_tier h m u opts w = (r, w')"
  shows "imports_mirror_files h opts w'
       \<and> (\<forall>v. r = Inr v \<longrightarrow> holds w' v (raw_value h u opts w0))"
proof -
  from mf have jo: "json_only h" and nn: "no_null_document h" and c: "coherent h w"
    and sc: "has_structuredClone h"
    and ds: "reviver opts \<noteq> None \<longrightarrow> revives_alike h (reviver opts)"
    by (simp_all add: imports_mirror_files_def)
  from sc have cl: "cloned h j = Inr j" for j by (simp add: cloned_def)
  obtain r1 w1 where i: "import_module h m u (the_type opts) w = (r1, w1)"
    by (cases "import_module h m u (the_type opts) w")
  note ic = import_module_coherent [OF jo c i]
  from ic have c1: "coherent h w1" by simp
  have e1: "extends w0 w1"
    using keepsD [OF keeps_extends_import_module i] e by (blast intro: extends_trans)
  have keep: "imports_mirror_files h opts x" if "coherent h x" for x
    using that jo nn sc ds by (simp add: imports_mirror_files_def)
  note t0 = t [unfolded import_tier_def]
  show ?thesis
  proof (cases r1)
    case (Inl err)
    with andThen_InlD [OF t0 i [unfolded Inl]] keep [OF c1] show ?thesis by auto
  next
    case (Inr md)
    note t1 = andThen_InrD [OF t0 i [unfolded Inr]]
    from ic Inr obtain doc j0 d where doc: "readFile h u = Inr doc"
      and j0: "json_text h doc = Inr j0" and de: "default_export md = Some d"
      and cd: "cell w1 d = Some j0" by blast
    from nn doc j0 have "j0 \<noteq> JNull" by (auto simp: no_null_document_def)
    with cd de have dm: "default_or_mod u md w1 = Cell d"
      by (cases j0) (simp_all add: default_or_mod_def)
    show ?thesis
    proof (cases "reviver opts = None \<and> validate opts = None")
      case True
      with t1 dm have "r = Inr (Cell d)" "w' = w1" by auto
      moreover from True doc j0 have "raw_value h u opts w0 = Inr j0"
        by (simp add: raw_value_def JSON_parse_def revived_tree_def cl checked_def)
      ultimately show ?thesis using keep [OF c1] cd by (simp add: holds_def)
    next
      case False
      with t1 dm have t2: "andThen (deepClone h (Cell d)) (\<lambda>val.
              andThen (revive h opts val) (\<lambda>val2.
              andThen (run_validate opts val2) (\<lambda>_. ret val2))) w1 = (r, w')"
        by (simp split: if_splits)
      from ds doc j0 have sv: "reviver opts \<noteq> None \<longrightarrow>
          JSON_parse h (JSON_stringify h j0) (reviver opts) = JSON_parse h doc (reviver opts)"
        unfolding revives_alike_def by blast
      note fv = finish_value [OF sc k e1 doc j0 sv cd t2]
      from fv have "coherent h w'" using coherent_extends [OF _ _ c1] by blast
      with fv keep show ?thesis by blast
    qed
  qed
qed

lemma import_tier_agrees:
  assumes "never_imports h \<or> imports_mirror_files h opts w"
    and k: "kept_exist opts w0" and e: "extends w0 w"
    and t: "import_tier h m u opts w = (r, w')"
  shows "(never_imports h \<or> imports_mirror_files h opts w') \<and> extends w0 w'
       \<and> (\<forall>v. r = Inr v \<longrightarrow> holds w' v (raw_value h u opts w0))"
proof -
  have e': "extends w0 w'"
    using keepsD [OF keeps_extends_import_tier t] e by (blast intro: extends_trans)
  show ?thesis
  proof (cases "never_imports h")
    case True
    from import_tier_rejected [OF True, of m u opts w] t have "\<exists>err. r = Inl err" by auto
    with True e' show ?thesis by auto
  next
    case False
    with assms(1) have "imports_mirror_files h opts w" by simp
    from import_tier_mirrors [OF this k e t] e' show ?thesis by simp
  qed
qed

lemma raw_tier_agrees:
  assumes "never_imports h \<or> imports_mirror_files h opts w"
    and k: "kept_exist opts w0" and e: "extends w0 w"
    and t: "raw_tier h u opts w = (r, w')"
  shows "(never_imports h \<or> imports_mirror_files h opts w') \<and> extends w0 w'
       \<and> (case r of
            Inl err \<Rightarrow> raw_value h u opts w0 = Inl err
          | Inr v \<Rightarrow> holds w' v (raw_value h u opts w0))"
proof -
  note v = raw_tier_value [OF t]
  from v have ew: "extends w w'" and m: "modules w' = modules w" by simp_all
  from v have "case r of
            Inl err \<Rightarrow> raw_value h u opts w0 = Inl err
          | Inr v \<Rightarrow> holds w' v (raw_value h u opts w0)"
    unfolding raw_value_extends [OF k e] by simp
  with mirror_extends [OF ew m assms(1)] extends_trans [OF e ew] show ?thesis by simp
qed

lemma holds_deep_equal: "holds wa va x \<Longrightarrow> holds ws vs x \<Longrightarrow> deep_equal wa va ws vs"
  by (auto simp: holds_def deep_equal_def)

lemma loaders_agree:
  assumes k: "kept_exist opts w0"
  shows "never_imports h \<or> imports_mirror_files h opts wa \<Longrightarrow>
         extends w0 wa \<Longrightarrow> extends w0 ws \<Longrightarrow>
         wisp n h input opts wa = (Some (Inr va), wa') \<Longrightarrow>
         wispSync m h input opts ws = (Some (Inr vs), ws') \<Longrightarrow>
         deep_equal wa' va ws' vs"
proof (induction n arbitrary: m input wa ws)
  case 0
  then show ?case by simp
next
  case (Suc n)
  note ok = Suc.prems(1) and ea = Suc.prems(2) and es = Suc.prems(3)
    and a = Suc.prems(4) and s = Suc.prems(5)
  from s obtain m' where m: "m = Suc m'" by (cases m) simp_all
  obtain r0 a0 where ra: "resolve_url h input opts wa = (r0, a0)"
    by (cases "resolve_url h input opts wa")
  obtain q0 s0 where rs: "resolve_url h input opts ws = (q0, s0)"
    by (cases "resolve_url h input opts ws")
  from pure_resultD [OF pure_result_resolve_url, of h input opts wa ws] ra rs
  have q0: "q0 = r0" by simp
  have ok0: "never_imports h \<or> imports_mirror_files h opts a0"
    by (rule mirror_same_store [OF keepsD [OF keeps_store_resolve_url ra] ok])
  have ea0: "extends w0 a0" by (rule extends_trans [OF ea resolve_url_extends [OF ra]])
  have es0: "extends w0 s0" by (rule extends_trans [OF es resolve_url_extends [OF rs]])
  show ?case
  proof (cases r0)
    case (Inl e)
    with a ra show ?thesis by simp
  next
    case (Inr url)
    obtain q1 s1 where ts: "raw_tier h url opts s0 = (q1, s1)"
      by (cases "raw_tier h url opts s0")
    note vs = raw_tier_value [OF ts, unfolded raw_value_extends [OF k es0]]
    from vs have es1: "extends w0 s1" by (blast intro: extends_trans [OF es0])
    have sync: "deep_equal x v ws' vs" if "holds x v (raw_value h url opts w0)" for x v
    proof -
      from that obtain j where j: "raw_value h url opts w0 = Inr j" by (auto simp: holds_def)
      with vs obtain v' where "q1 = Inr v'" and h': "holds s1 v' (raw_value h url opts w0)"
        by (cases q1) simp_all
      with s m rs q0 Inr ts have "vs = v'" "ws' = s1" by simp_all
      with that h' show ?thesis by (blast intro: holds_deep_equal)
    qed
    obtain r1 a1 where t1: "import_tier h True url opts a0 = (r1, a1)"
      by (cases "import_tier h True url opts a0")
    note v1 = import_tier_agrees [OF ok0 k ea0 t1]
    show ?thesis
    proof (cases r1)
      case v: (Inr v)
      with a ra Inr t1 have "va = v" "wa' = a1" by simp_all
      with v1 v sync show ?thesis by simp
    next
      case e1: (Inl e1)
      obtain r2 a2 where t2: "import_tier h False url opts a1 = (r2, a2)"
        by (cases "import_tier h False url opts a1")
      from v1 have ok1: "never_imports h \<or> imports_mirror_files h opts a1"
        and ea1: "extends w0 a1" by simp_all
      note v2 = import_tier_agrees [OF ok1 k ea1 t2]
      show ?thesis
      proof (cases r2)
        case v: (Inr v)
        with a ra Inr t1 e1 t2 have "va = v" "wa' = a2" by simp_all
        with v2 v sync show ?thesis by simp
      next
        case e2: (Inl e2)
        from v2 have ok2: "never_imports h \<or> imports_mirror_files h opts a2"
          and ea2: "extends w0 a2" by simp_all
        show ?thesis
        proof (cases "the_type opts = ''json''")
          case False
          with a ra Inr t1 e1 t2 e2 show ?thesis by simp
        next
          case True
          obtain r3 a3 where t3: "raw_tier h url opts a2 = (r3, a3)"
            by (cases "raw_tier h url opts a2")
          note v3 = raw_tier_agrees [OF ok2 k ea2 t3]
          show ?thesis
          proof (cases r3)
            case v: (Inr v)
            with a ra Inr t1 e1 t2 e2 True t3 have "va = v" "wa' = a3" by simp_all
            with v3 v sync show ?thesis by simp
          next
            case e3: (Inl e3)
            with v3 have f: "raw_value h url opts w0 = Inl e3" by simp
            with vs obtain e4 where q1: "q1 = Inl e4" by (cases q1) (auto simp: holds_def)
            from v3 have ok3: "never_imports h \<or> imports_mirror_files h opts a3"
              and ea3: "extends w0 a3" by simp_all
            show ?thesis
            proof (cases "fallback opts")
              case None
              with a ra Inr t1 e1 t2 e2 True t3 e3 show ?thesis by simp
            next
              case (Some fb)
              show ?thesis
              proof (cases "truthy fb")
                case False
                with a ra Inr t1 e1 t2 e2 True t3 e3 Some show ?thesis by simp
              next
                case fbt: True
                from a ra Inr t1 e1 t2 e2 True t3 e3 Some fbt
                have a': "wisp n h fb opts a3 = (Some (Inr va), wa')" by simp
                from s m rs q0 Inr ts q1 Some fbt
                have s': "wispSync m' h fb opts s1 = (Some (Inr vs), ws')" by simp
                show ?thesis by (rule Suc.IH [OF ok3 ea3 es1 a' s'])
              qed
            qed
          qed
        qed
      qed
    qed
  qed
qed



text \<open>
  The document \<^verbatim>\<open>null\<close>: \<^verbatim>\<open>mod?.default ?? mod\<close> takes the namespace for it, which
  \<^verbatim>\<open>wisp\<close> returns; \<^verbatim>\<open>wispSync\<close> returns \<^verbatim>\<open>null\<close>.
\<close>

lemma null_document_namespace:
  "fst (wisp 1 demo_host (RStr ''/app/data/null.json'') no_options world0)
     = Some (Inr (Mod ''file:///app/data/null.json''))
   \<and> fst (wispSync 1 demo_host (RStr ''/app/data/null.json'') no_options world0)
     = Some (Inr (Cell 1))
   \<and> cell (snd (wispSync 1 demo_host (RStr ''/app/data/null.json'') no_options world0)) 1
     = Some JNull"
  by code_simp

lemma json_only_plain_host: "json_only plain_host"
  by (simp add: json_only_def plain_host_def)

lemma no_null_document_plain_host: "no_null_document plain_host"
  by (simp add: no_null_document_def plain_host_def demo_host_def demo_json_text_def)

lemma revives_alike_plain_host: "revives_alike plain_host r"
  by (auto simp: revives_alike_def plain_host_def demo_host_def demo_json_text_def
      demo_stringify_def split: if_splits)

lemma coherent_world0: "coherent h world0"
  by (simp add: coherent_def world0_def)

lemma mirror_plain_host: "imports_mirror_files plain_host opts world0"
  by (simp add: imports_mirror_files_def json_only_plain_host no_null_document_plain_host
      revives_alike_plain_host coherent_world0)
    (simp add: plain_host_def demo_host_def)

lemma never_imports_old_host: "never_imports old_host"
  by (simp add: never_imports_def old_host_def)


end
